(* ===== verification/SSH_Prelude.thy ===== *)
theory SSH_Prelude
  imports Main "HOL-Library.Word" "HOL-Library.Code_Target_Nat"
begin

unbundle bit_operations_syntax

section \<open>Prelude: values, results and computations\<close>

text \<open>
  What every component shares: the machine integers and byte strings of the C++ code, the
  exceptions it throws as values of a sum type, element and iterator-range access with the
  out-of-range case written out, and a small state-and-exception monad with a Hoare logic.
  The collections \<open>result_iff\<close> (inversion of a successful result), \<open>comp_simps\<close> (symbolic
  execution of a computation) and \<open>hoare_intro\<close> (Hoare rules) carry the proofs of the
  component theories.
\<close>

named_theorems result_iff \<open>when a chain of checks and reads succeeds\<close>
named_theorems comp_simps \<open>symbolic execution of computations\<close>
named_theorems hoare_intro \<open>rules of the Hoare logic\<close>

subsection \<open>Machine integers, byte arrays and strings\<close>

type_synonym byte = "8 word"
type_synonym u16 = "16 word"
type_synonym u32 = "32 word"
type_synonym bytes = "byte list"

text \<open>
  \<open>std::size_t\<close> is 64 bits wide. Sizes and cursors are natural numbers; the one operation on
  them that can leave the range of the type on data that fits in memory is subtraction,
  which wraps below zero.
\<close>

definition size_minus :: "nat \<Rightarrow> nat \<Rightarrow> nat" where
  "size_minus a b = (if b \<le> a then a - b else a + 2 ^ 64 - b)"

definition uint32_max :: nat where
  "uint32_max = 2 ^ 32 - 1"

definition uint8_max :: nat where
  "uint8_max = 255"

definition int_max :: nat where
  "int_max = 2 ^ 31 - 1"

text \<open>\<open>std::string\<close> holds bytes: the conversions are the code's iterator-range constructors.\<close>

definition bytes_of_string :: "string \<Rightarrow> bytes" where
  "bytes_of_string s = map of_char s"

definition string_of_bytes :: "bytes \<Rightarrow> string" where
  "string_of_bytes bs = map (\<lambda>b. char_of (unat b)) bs"

lemma size_minus_le [simp]: "b \<le> a \<Longrightarrow> size_minus a b = a - b"
  by (simp add: size_minus_def)

lemma length_bytes_of_string [simp]: "length (bytes_of_string s) = length s"
  by (simp add: bytes_of_string_def)

lemma length_string_of_bytes [simp]: "length (string_of_bytes bs) = length bs"
  by (simp add: string_of_bytes_def)

lemma unat_byte_less: "unat (b :: byte) < 256"
  using unsigned_less [of b] by simp

lemma unat_u32_less: "unat (a :: u32) < 2 ^ 32"
  using unsigned_less [where 'a = nat, of a] by simp

lemma unat_of_char_byte: "unat (of_char c :: byte) = of_char c"
proof -
  have "unat (of_nat (of_char c) :: byte) = of_char c mod 2 ^ 8"
    by (simp add: unat_of_nat)
  then show ?thesis by (simp add: of_nat_of_char)
qed

lemma of_char_char_of_byte: "(of_char (char_of (unat b)) :: byte) = b"
proof -
  have "of_char (char_of (unat b)) = unat b"
    using unat_byte_less [of b] by (simp only: of_char_of mod_less)
  then have "(of_nat (of_char (char_of (unat b))) :: byte) = b"
    by simp
  then show ?thesis by (simp only: of_nat_of_char)
qed

lemma string_of_bytes_of_string [simp]: "string_of_bytes (bytes_of_string s) = s"
  by (simp add: string_of_bytes_def bytes_of_string_def comp_def unat_of_char_byte)

lemma bytes_of_string_of_bytes [simp]: "bytes_of_string (string_of_bytes bs) = bs"
  by (simp add: string_of_bytes_def bytes_of_string_def comp_def of_char_char_of_byte)

lemma string_of_bytes_eq_iff: "string_of_bytes bs = s \<longleftrightarrow> bs = bytes_of_string s"
  by auto

lemma bytes_of_string_inject [simp]: "bytes_of_string s = bytes_of_string t \<longleftrightarrow> s = t"
  by (metis string_of_bytes_of_string)

text \<open>Big-endian value of a byte string, and the facts on words that the codecs use.\<close>

definition be_value :: "bytes \<Rightarrow> nat" where
  "be_value bs = foldl (\<lambda>acc b. acc * 256 + unat b) 0 bs"

lemma be_value_Nil [simp]: "be_value [] = 0"
  by (simp add: be_value_def)

lemma be_value_snoc [simp]: "be_value (bs @ [b]) = be_value bs * 256 + unat b"
  by (simp add: be_value_def)

lemma be_value_append: "be_value (xs @ ys) = be_value xs * 256 ^ length ys + be_value ys"
proof (induction ys rule: rev_induct)
  case Nil
  show ?case by simp
next
  case (snoc y ys)
  have "be_value (xs @ ys @ [y]) = be_value ((xs @ ys) @ [y])" by simp
  also have "\<dots> = (be_value xs * 256 ^ length ys + be_value ys) * 256 + unat y"
    by (simp only: be_value_snoc snoc.IH)
  finally show ?case by (simp add: algebra_simps)
qed

lemma be_value_Cons: "be_value (b # bs) = unat b * 256 ^ length bs + be_value bs"
  using be_value_append [of "[b]" bs] by (simp add: be_value_def)

lemma be_value_less: "be_value bs < 256 ^ length bs"
proof (induction bs)
  case Nil
  show ?case by simp
next
  case (Cons b bs)
  have "unat b \<le> 255" using unat_byte_less [of b] by simp
  then have "unat b * 256 ^ length bs \<le> 255 * 256 ^ length bs" by (rule mult_le_mono1)
  with Cons.IH have "unat b * 256 ^ length bs + be_value bs < 255 * 256 ^ length bs + 256 ^ length bs"
    by linarith
  then show ?case by (simp add: be_value_Cons)
qed

lemma word_of_nat_eq_unat_iff: "n < 2 ^ LENGTH('a) \<Longrightarrow> unat (of_nat n :: 'a::len word) = n"
  by (simp add: unat_of_nat)

subsection \<open>Exceptions as values\<close>

text \<open>
  \<open>Runtime_error\<close> carries the message of a \<open>std::runtime_error\<close>; \<open>System_error\<close> is a
  \<open>std::runtime_error\<close> whose message is \<open>strerror (errno)\<close>; \<open>Filesystem_error\<close> comes from
  \<open>std::filesystem\<close>. \<open>Memory_error\<close> is not an exception of the program: it marks a read or a write
  outside a vector, an array or a buffer, which is undefined behaviour in C++, so that memory safety is a theorem.
\<close>

datatype exn = Runtime_error string | System_error int | Filesystem_error | Memory_error

type_synonym 'a result = "exn + 'a"

abbreviation throw :: "string \<Rightarrow> 'a result" where
  "throw msg \<equiv> Inl (Runtime_error msg)"

definition bindE :: "'a result \<Rightarrow> ('a \<Rightarrow> 'b result) \<Rightarrow> 'b result" where
  "bindE m f = (case m of Inl e \<Rightarrow> Inl e | Inr x \<Rightarrow> f x)"

text \<open>
  \<open>v[i]\<close>, the \<open>n\<close> elements from \<open>v.begin() + i\<close>, and the copy of these elements to the beginning of a
  zero-initialised \<open>std::array\<close> of \<open>room\<close> bytes.
\<close>

definition at_index :: "'a list \<Rightarrow> nat \<Rightarrow> 'a result" where
  "at_index xs i = (if i < length xs then Inr (xs ! i) else Inl Memory_error)"

definition copy_n :: "'a list \<Rightarrow> nat \<Rightarrow> nat \<Rightarrow> 'a list result" where
  "copy_n xs i n = (if i + n \<le> length xs then Inr (take n (drop i xs)) else Inl Memory_error)"

definition copy_array :: "nat \<Rightarrow> bytes \<Rightarrow> nat \<Rightarrow> nat \<Rightarrow> bytes result" where
  "copy_array room xs i n =
     (if n \<le> room \<and> i + n \<le> length xs then Inr (take n (drop i xs) @ replicate (room - n) 0)
      else Inl Memory_error)"

text \<open>\<open>payload.empty() || payload[0] != message\<close>: the element is read only if there is one.\<close>

definition wrong_message :: "bytes \<Rightarrow> byte \<Rightarrow> bool result" where
  "wrong_message payload message =
     (if payload = [] then Inr True else bindE (at_index payload 0) (\<lambda>b. Inr (b \<noteq> message)))"

definition safe :: "'a result \<Rightarrow> bool" where
  "safe r \<longleftrightarrow> r \<noteq> Inl Memory_error"

lemma bindE_simps [simp]: "bindE (Inl e) f = Inl e" "bindE (Inr x) f = f x"
  by (simp_all add: bindE_def)

lemma bindE_eq_Inr [result_iff]: "bindE m f = Inr y \<longleftrightarrow> (\<exists>x. m = Inr x \<and> f x = Inr y)"
  by (cases m) auto

lemma bindE_eq_Inl: "bindE m f = Inl e \<longleftrightarrow> m = Inl e \<or> (\<exists>x. m = Inr x \<and> f x = Inl e)"
  by (cases m) auto

lemma if_throw_eq_Inr [result_iff]: "(if c then Inl e else r) = Inr y \<longleftrightarrow> \<not> c \<and> r = Inr y"
  by simp

lemma at_index_eq_Inr [result_iff]: "at_index xs i = Inr x \<longleftrightarrow> i < length xs \<and> xs ! i = x"
  by (auto simp: at_index_def)

lemma at_index_ok [simp]: "i < length xs \<Longrightarrow> at_index xs i = Inr (xs ! i)"
  by (simp add: at_index_def)

lemma copy_n_eq_Inr [result_iff]:
  "copy_n xs i n = Inr ys \<longleftrightarrow> i + n \<le> length xs \<and> take n (drop i xs) = ys"
  by (auto simp: copy_n_def)

lemma copy_n_ok [simp]: "i + n \<le> length xs \<Longrightarrow> copy_n xs i n = Inr (take n (drop i xs))"
  by (simp add: copy_n_def)

lemma copy_array_full [simp]: "copy_array n xs i n = copy_n xs i n"
  by (simp add: copy_array_def copy_n_def)

lemma wrong_message_eq [simp]: "wrong_message payload m = Inr (payload = [] \<or> payload ! 0 \<noteq> m)"
  by (simp add: wrong_message_def)

lemma safe_Inr [simp]: "safe (Inr x)"
  by (simp add: safe_def)

lemma safe_throw [simp]: "safe (throw msg)"
  by (simp add: safe_def)

lemma safe_if [simp]: "safe (if c then a else b) \<longleftrightarrow> (c \<longrightarrow> safe a) \<and> (\<not> c \<longrightarrow> safe b)"
  by simp

lemma safe_bindE: "safe m \<Longrightarrow> (\<And>x. m = Inr x \<Longrightarrow> safe (f x)) \<Longrightarrow> safe (bindE m f)"
  by (cases m) (auto simp: safe_def)

subsection \<open>\<open>std::getline\<close> on a string stream\<close>

text \<open>
  One call takes the characters up to the delimiter and removes the delimiter; it fails only at the
  end of the stream, so a delimiter at the very end is not followed by an empty item. The
  \<open>while (std::getline (...))\<close> loop collects the items.
\<close>

definition getline :: "char \<Rightarrow> string \<Rightarrow> (string \<times> string) option" where
  "getline delim text =
     (if text = [] then None
      else Some (takeWhile (\<lambda>c. c \<noteq> delim) text, drop 1 (dropWhile (\<lambda>c. c \<noteq> delim) text)))"

lemma length_getline: "getline delim text = Some (item, rest) \<Longrightarrow> length rest < length text"
proof -
  assume g: "getline delim text = Some (item, rest)"
  then have "text \<noteq> []" "rest = drop 1 (dropWhile (\<lambda>c. c \<noteq> delim) text)" by (auto simp: getline_def split: if_splits)
  moreover have "length (dropWhile (\<lambda>c. c \<noteq> delim) text) \<le> length text" by (rule length_dropWhile_le)
  ultimately show ?thesis by (cases "dropWhile (\<lambda>c. c \<noteq> delim) text") auto
qed

function getlines :: "char \<Rightarrow> string \<Rightarrow> string list" where
  "getlines delim text =
     (case getline delim text of None \<Rightarrow> [] | Some (item, rest) \<Rightarrow> item # getlines delim rest)"
  by pat_completeness auto
termination by (relation "measure (\<lambda>(delim, text). length text)") (auto dest: length_getline)

declare getlines.simps [simp del]

lemma getlines_Nil [simp]: "getlines d [] = []"
  by (simp add: getlines.simps getline_def)

lemma getlines_item: "d \<notin> set x \<Longrightarrow> getlines d (x @ d # rest) = x # getlines d rest"
  by (subst getlines.simps) (auto simp: getline_def takeWhile_append dropWhile_append)

lemma getlines_last: "d \<notin> set x \<Longrightarrow> x \<noteq> [] \<Longrightarrow> getlines d x = [x]"
proof -
  assume x: "d \<notin> set x" "x \<noteq> []"
  then have "takeWhile (\<lambda>c. c \<noteq> d) x = x" "dropWhile (\<lambda>c. c \<noteq> d) x = []"
    by (auto simp: takeWhile_eq_all_conv)
  with x have "getline d x = Some (x, [])" by (simp only: getline_def) simp
  then show ?thesis by (subst getlines.simps) simp
qed

lemma getlines_no_delim: "x \<in> set (getlines d input) \<Longrightarrow> d \<notin> set x"
proof (induction d input rule: getlines.induct)
  case (1 d input)
  show ?case
  proof (cases "getline d input")
    case None
    with "1.prems" show ?thesis by (simp add: getlines.simps [of d input])
  next
    case (Some p)
    then obtain item rest where g: "getline d input = Some (item, rest)" by (cases p) auto
    then have "d \<notin> set item" by (auto simp: getline_def split: if_splits dest: set_takeWhileD)
    with g "1.IH" [OF g refl] "1.prems" show ?thesis by (auto simp: getlines.simps [of d input])
  qed
qed

text \<open>A text that is empty or ends with the delimiter can be extended item by item.\<close>

definition terminated :: "char \<Rightarrow> string \<Rightarrow> bool" where
  "terminated d input \<longleftrightarrow> input = [] \<or> last input = d"

lemma getlines_append: "terminated d input \<Longrightarrow> getlines d (input @ rest) = getlines d input @ getlines d rest"
proof (induction d input rule: getlines.induct)
  case (1 d input)
  show ?case
  proof (cases "input = []")
    case True
    then show ?thesis by simp
  next
    case False
    with "1.prems" have "d \<in> set input" by (metis last_in_set terminated_def)
    then obtain item r where i: "input = item @ d # r" "d \<notin> set item" by (meson split_list_first)
    then have g: "getline d input = Some (item, r)"
      by (simp add: getline_def takeWhile_append dropWhile_append)
    have "terminated d r" using "1.prems" i by (auto simp: terminated_def split: if_splits)
    from "1.IH" [OF g refl this] i show ?thesis by (simp add: getlines_item)
  qed
qed

subsection \<open>Computations with state\<close>

text \<open>
  A computation maps the state of the program and its environment to an outcome and the new
  state; the state is kept when an exception is raised. \<open>Blocked\<close> is the outcome of a call
  that waits for an environment that offers nothing more, and \<open>Killed\<close> the end of the process by a signal.
  In these two cases no handler and no destructor runs.
\<close>

datatype stop = Raised exn | Blocked | Killed

definition halted :: "stop + 'a \<Rightarrow> bool" where
  "halted r \<longleftrightarrow> r = Inl Blocked \<or> r = Inl Killed"

lemma halted_simps [simp]: "halted (Inl Blocked)" "halted (Inl Killed)" "\<not> halted (Inl (Raised e))" "\<not> halted (Inr x)"
  by (simp_all add: halted_def)

type_synonym ('s, 'a) comp = "'s \<Rightarrow> (stop + 'a) \<times> 's"

definition returnC :: "'a \<Rightarrow> ('s, 'a) comp" where
  "returnC x = (\<lambda>s. (Inr x, s))"

definition stopC :: "stop \<Rightarrow> ('s, 'a) comp" where
  "stopC e = (\<lambda>s. (Inl e, s))"

abbreviation raiseC :: "string \<Rightarrow> ('s, 'a) comp" where
  "raiseC msg \<equiv> stopC (Raised (Runtime_error msg))"

definition bindC :: "('s, 'a) comp \<Rightarrow> ('a \<Rightarrow> ('s, 'b) comp) \<Rightarrow> ('s, 'b) comp" where
  "bindC m f = (\<lambda>s. case m s of (Inl e, s') \<Rightarrow> (Inl e, s') | (Inr x, s') \<Rightarrow> f x s')"

definition liftE :: "'a result \<Rightarrow> ('s, 'a) comp" where
  "liftE r = (case r of Inl e \<Rightarrow> stopC (Raised e) | Inr x \<Rightarrow> returnC x)"

definition getsC :: "('s \<Rightarrow> 'a) \<Rightarrow> ('s, 'a) comp" where
  "getsC f = (\<lambda>s. (Inr (f s), s))"

definition modifyC :: "('s \<Rightarrow> 's) \<Rightarrow> ('s, unit) comp" where
  "modifyC f = (\<lambda>s. (Inr (), f s))"

lemma run_returnC [comp_simps]: "returnC x s = (Inr x, s)"
  by (simp add: returnC_def)

lemma run_stopC [comp_simps]: "stopC e s = (Inl e, s)"
  by (simp add: stopC_def)

lemma run_getsC [comp_simps]: "getsC f s = (Inr (f s), s)"
  by (simp add: getsC_def)

lemma run_modifyC [comp_simps]: "modifyC f s = (Inr (), f s)"
  by (simp add: modifyC_def)

lemma run_liftE [comp_simps]: "liftE (Inl e) s = (Inl (Raised e), s)" "liftE (Inr x) s = (Inr x, s)"
  by (simp_all add: liftE_def returnC_def stopC_def)

lemma bindC_cong [fundef_cong]:
  "s = s' \<Longrightarrow> m s' = m' s' \<Longrightarrow> (\<And>x t. m' s' = (Inr x, t) \<Longrightarrow> f x t = f' x t) \<Longrightarrow> bindC m f s = bindC m' f' s'"
  by (auto simp: bindC_def split: prod.splits sum.splits)

lemma run_bindC_Inr [comp_simps]: "m s = (Inr x, s') \<Longrightarrow> bindC m f s = f x s'"
  by (simp add: bindC_def)

lemma run_bindC_Inl [comp_simps]: "m s = (Inl e, s') \<Longrightarrow> bindC m f s = (Inl e, s')"
  by (simp add: bindC_def)

lemma bindC_eq_Inr [result_iff]:
  "bindC m f s = (Inr y, t) \<longleftrightarrow> (\<exists>x s'. m s = (Inr x, s') \<and> f x s' = (Inr y, t))"
  by (auto simp: bindC_def split: prod.splits sum.splits)

lemma bindC_eq_Inl:
  "bindC m f s = (Inl e, t) \<longleftrightarrow> m s = (Inl e, t) \<or> (\<exists>x s'. m s = (Inr x, s') \<and> f x s' = (Inl e, t))"
  by (auto simp: bindC_def split: prod.splits sum.splits)

lemma liftE_eq_Inr [result_iff]: "liftE r s = (Inr x, t) \<longleftrightarrow> r = Inr x \<and> t = s"
  by (cases r) (auto simp: comp_simps)

lemma returnC_eq_Inr [result_iff]: "returnC x s = (Inr y, t) \<longleftrightarrow> y = x \<and> t = s"
  by (auto simp: comp_simps)

lemma stopC_eq_Inr [result_iff]: "stopC e s = (Inr y, t) \<longleftrightarrow> False"
  by (auto simp: comp_simps)

lemma getsC_eq_Inr [result_iff]: "getsC f s = (Inr y, t) \<longleftrightarrow> y = f s \<and> t = s"
  by (auto simp: comp_simps)

lemma modifyC_eq_Inr [result_iff]: "modifyC f s = (Inr y, t) \<longleftrightarrow> t = f s"
  by (auto simp: comp_simps)

lemma if_comp_eq_Inr [result_iff]:
  "(if c then m else m') s = (Inr y, t) \<longleftrightarrow> (c \<and> m s = (Inr y, t)) \<or> (\<not> c \<and> m' s = (Inr y, t))"
  by auto

subsection \<open>Hoare logic\<close>

text \<open>
  \<open>hoare P m Q E\<close>: from a state in \<open>P\<close>, a normal return satisfies \<open>Q\<close> and every other
  outcome satisfies \<open>E\<close>.
\<close>

definition hoare ::
  "('s \<Rightarrow> bool) \<Rightarrow> ('s, 'a) comp \<Rightarrow> ('a \<Rightarrow> 's \<Rightarrow> bool) \<Rightarrow> (stop \<Rightarrow> 's \<Rightarrow> bool) \<Rightarrow> bool" where
  "hoare P m Q E \<longleftrightarrow> (\<forall>s. P s \<longrightarrow> (case m s of (Inl e, t) \<Rightarrow> E e t | (Inr x, t) \<Rightarrow> Q x t))"

lemma hoareI:
  assumes "\<And>s x t. P s \<Longrightarrow> m s = (Inr x, t) \<Longrightarrow> Q x t"
    and "\<And>s e t. P s \<Longrightarrow> m s = (Inl e, t) \<Longrightarrow> E e t"
  shows "hoare P m Q E"
  using assms by (auto simp: hoare_def split: prod.splits sum.splits)

lemma hoareD_Inr: "hoare P m Q E \<Longrightarrow> P s \<Longrightarrow> m s = (Inr x, t) \<Longrightarrow> Q x t"
  by (auto simp: hoare_def)

lemma hoareD_Inl: "hoare P m Q E \<Longrightarrow> P s \<Longrightarrow> m s = (Inl e, t) \<Longrightarrow> E e t"
  by (auto simp: hoare_def)

lemma hoare_bindC [hoare_intro]:
  assumes "hoare P m R E" and "\<And>x. hoare (R x) (f x) Q E"
  shows "hoare P (bindC m f) Q E"
proof (rule hoareI)
  fix s y t assume "P s" "bindC m f s = (Inr y, t)"
  then show "Q y t" using assms by (auto simp: bindC_eq_Inr dest: hoareD_Inr)
next
  fix s e t assume "P s" "bindC m f s = (Inl e, t)"
  then show "E e t" using assms by (auto simp: bindC_eq_Inl dest: hoareD_Inr hoareD_Inl)
qed

lemma hoare_returnC [hoare_intro]: "(\<And>s. P s \<Longrightarrow> Q x s) \<Longrightarrow> hoare P (returnC x) Q E"
  by (simp add: hoare_def comp_simps)

lemma hoare_stopC [hoare_intro]: "(\<And>s. P s \<Longrightarrow> E e s) \<Longrightarrow> hoare P (stopC e) Q E"
  by (simp add: hoare_def comp_simps)

lemma hoare_getsC [hoare_intro]: "(\<And>s. P s \<Longrightarrow> Q (f s) s) \<Longrightarrow> hoare P (getsC f) Q E"
  by (simp add: hoare_def comp_simps)

lemma hoare_modifyC [hoare_intro]: "(\<And>s. P s \<Longrightarrow> Q () (f s)) \<Longrightarrow> hoare P (modifyC f) Q E"
  by (simp add: hoare_def comp_simps)

lemma hoare_liftE [hoare_intro]:
  "(\<And>s x. P s \<Longrightarrow> r = Inr x \<Longrightarrow> Q x s) \<Longrightarrow> (\<And>s e. P s \<Longrightarrow> r = Inl e \<Longrightarrow> E (Raised e) s) \<Longrightarrow>
    hoare P (liftE r) Q E"
  by (cases r) (auto simp: hoare_def comp_simps)

lemma hoare_if [hoare_intro]:
  "(c \<Longrightarrow> hoare P m Q E) \<Longrightarrow> (\<not> c \<Longrightarrow> hoare P m' Q E) \<Longrightarrow> hoare P (if c then m else m') Q E"
  by simp

lemma hoare_weaken:
  "hoare P' m Q' E' \<Longrightarrow> (\<And>s. P s \<Longrightarrow> P' s) \<Longrightarrow> (\<And>x s. Q' x s \<Longrightarrow> Q x s) \<Longrightarrow>
    (\<And>e s. E' e s \<Longrightarrow> E e s) \<Longrightarrow> hoare P m Q E"
  by (fastforce simp: hoare_def split: prod.splits sum.splits)

text \<open>\<open>keeps I m\<close>: whatever the outcome, \<open>m\<close> preserves \<open>I\<close>.\<close>

definition keeps :: "('s \<Rightarrow> bool) \<Rightarrow> ('s, 'a) comp \<Rightarrow> bool" where
  "keeps I m \<longleftrightarrow> (\<forall>s. I s \<longrightarrow> I (snd (m s)))"

named_theorems keeps_intro \<open>computations that preserve an assertion\<close>

lemma keepsD: "keeps I m \<Longrightarrow> m s = (r, t) \<Longrightarrow> I s \<Longrightarrow> I t"
  by (force simp: keeps_def)

lemma keeps_snd: "keeps I m \<Longrightarrow> I s \<Longrightarrow> I (snd (m s))"
  by (simp add: keeps_def)

lemma hoare_outcome: "hoare P m Q E \<Longrightarrow> P s \<Longrightarrow> (case fst (m s) of Inl e \<Rightarrow> E e (snd (m s)) | Inr x \<Rightarrow> Q x (snd (m s)))"
  by (auto simp: hoare_def split: prod.splits sum.splits)

lemma keeps_bindC [keeps_intro]: "keeps I m \<Longrightarrow> (\<And>x. keeps I (f x)) \<Longrightarrow> keeps I (bindC m f)"
  by (fastforce simp: keeps_def bindC_def split: prod.splits sum.splits)

lemma keeps_run_bind:
  "keeps I m \<Longrightarrow> I s \<Longrightarrow> (\<And>x t. m s = (Inr x, t) \<Longrightarrow> I t \<Longrightarrow> I (snd (f x t))) \<Longrightarrow> I (snd (bindC m f s))"
  by (auto simp: bindC_def split: prod.splits sum.splits dest: keepsD)

lemma keeps_returnC [keeps_intro]: "keeps I (returnC x)"
  by (simp add: keeps_def comp_simps)

lemma keeps_stopC [keeps_intro]: "keeps I (stopC e)"
  by (simp add: keeps_def comp_simps)

lemma keeps_getsC [keeps_intro]: "keeps I (getsC f)"
  by (simp add: keeps_def comp_simps)

lemma keeps_getsC_bind: "(\<And>s. I s \<Longrightarrow> keeps I (g (f s))) \<Longrightarrow> keeps I (bindC (getsC f) g)"
  by (simp add: keeps_def comp_simps)

lemma keeps_liftE [keeps_intro]: "keeps I (liftE r)"
  by (cases r) (simp_all add: keeps_def comp_simps)

lemma keeps_modifyC [keeps_intro]: "(\<And>s. I s \<Longrightarrow> I (f s)) \<Longrightarrow> keeps I (modifyC f)"
  by (simp add: keeps_def comp_simps)

lemma keeps_if [keeps_intro]: "keeps I m \<Longrightarrow> keeps I m' \<Longrightarrow> keeps I (if c then m else m')"
  by simp

lemma hoare_keeps_bindC:
  "keeps I m \<Longrightarrow> (\<And>x. hoare I (f x) Q (\<lambda>_. I)) \<Longrightarrow> hoare I (bindC m f) Q (\<lambda>_. I)"
  by (rule hoare_bindC [where R = "\<lambda>_. I"])
     (auto simp: hoare_def keeps_def split: prod.splits sum.splits)

lemma hoare_commit: "(\<And>s. I s \<Longrightarrow> Q x (g s)) \<Longrightarrow> hoare I (bindC (modifyC g) (\<lambda>_. returnC x)) Q E"
  by (simp add: hoare_def comp_simps)

lemma hoare_case_prod [hoare_intro]:
  "(\<And>a b. hoare P (f a b) Q E) \<Longrightarrow> hoare P (case p of (a, b) \<Rightarrow> f a b) Q E"
  by (cases p) auto

subsection \<open>Stack unwinding\<close>

text \<open>
  \<open>unwind m fin\<close>: the destructor \<open>fin\<close> runs when the scope of an object ends, on a normal return as
  on an exception; a computation that waits has not left the scope, and one that is killed never does.
\<close>

definition unwind :: "('s, 'a) comp \<Rightarrow> ('s, unit) comp \<Rightarrow> ('s, 'a) comp" where
  "unwind m fin = (\<lambda>s. case m s of (r, s') \<Rightarrow> if halted r then (r, s') else (r, snd (fin s')))"

lemma keeps_unwind [keeps_intro]: "keeps I m \<Longrightarrow> keeps I fin \<Longrightarrow> keeps I (unwind m fin)"
  by (fastforce simp: keeps_def unwind_def split: prod.splits)

lemma unwind_eq:
  "unwind m fin s = (r, t) \<longleftrightarrow>
     (\<exists>s'. m s = (r, s') \<and> (if halted r then t = s' else t = snd (fin s')))"
  by (auto simp: unwind_def split: prod.splits)

text \<open>
  \<open>settles P m Q\<close>: from a state in \<open>P\<close>, whenever \<open>m\<close> comes to an end, by a return or by an exception, the state is
  in \<open>Q\<close>.
\<close>

definition settles :: "('s \<Rightarrow> bool) \<Rightarrow> ('s, 'a) comp \<Rightarrow> ('s \<Rightarrow> bool) \<Rightarrow> bool" where
  "settles P m Q \<longleftrightarrow> (\<forall>s r t. P s \<longrightarrow> m s = (r, t) \<longrightarrow> \<not> halted r \<longrightarrow> Q t)"

lemma settlesD: "settles P m Q \<Longrightarrow> P s \<Longrightarrow> m s = (r, t) \<Longrightarrow> \<not> halted r \<Longrightarrow> Q t"
  by (auto simp: settles_def)

lemma settles_keeps: "keeps I m \<Longrightarrow> settles I m I"
  by (auto simp: settles_def dest: keepsD)

lemma settles_bindC: "keeps I m \<Longrightarrow> (\<And>x. settles I (f x) I) \<Longrightarrow> settles I (bindC m f) I"
  unfolding settles_def by (auto simp: bindC_def dest: keepsD split: prod.splits sum.splits)

lemma settles_modifyC:
  "(\<And>s. P s \<Longrightarrow> P' (g s)) \<Longrightarrow> settles P' (f ()) Q \<Longrightarrow> settles P (bindC (modifyC g) f) Q"
  by (auto simp: settles_def comp_simps)

lemma settles_unwind:
  "settles P m I \<Longrightarrow> (\<And>s. I s \<Longrightarrow> Q (snd (fin s))) \<Longrightarrow> settles P (unwind m fin) Q"
  by (auto simp: settles_def unwind_eq split: if_splits)

subsection \<open>Memory safety of computations\<close>

definition safeC :: "('s, 'a) comp \<Rightarrow> bool" where
  "safeC m \<longleftrightarrow> (\<forall>s t. m s \<noteq> (Inl (Raised Memory_error), t))"

named_theorems safeC_intro \<open>computations that never access memory out of bounds\<close>

lemma safeC_bindC [safeC_intro]:
  assumes "safeC m" and "\<And>x s s'. m s = (Inr x, s') \<Longrightarrow> safeC (f x)"
  shows "safeC (bindC m f)"
  unfolding safeC_def
proof (intro allI notI)
  fix s t assume "bindC m f s = (Inl (Raised Memory_error), t)"
  then consider "m s = (Inl (Raised Memory_error), t)"
    | x s' where "m s = (Inr x, s')" "f x s' = (Inl (Raised Memory_error), t)"
    by (auto simp: bindC_eq_Inl)
  then show False using assms by cases (auto simp: safeC_def)
qed

lemma safeC_simple [safeC_intro]:
  "safeC (returnC x)" "safeC (getsC g)" "safeC (modifyC h)" "safeC (raiseC msg)"
  by (simp_all add: safeC_def comp_simps)

lemma safeC_liftE [safeC_intro]: "safe r \<Longrightarrow> safeC (liftE r)"
  by (cases r) (simp_all add: safeC_def comp_simps safe_def)

lemma safeC_if [safeC_intro]: "(c \<Longrightarrow> safeC m) \<Longrightarrow> (\<not> c \<Longrightarrow> safeC m') \<Longrightarrow> safeC (if c then m else m')"
  by simp

lemma safeC_case_option [safeC_intro]:
  "(o' = None \<Longrightarrow> safeC m) \<Longrightarrow> (\<And>x. o' = Some x \<Longrightarrow> safeC (f x)) \<Longrightarrow>
     safeC (case o' of None \<Rightarrow> m | Some x \<Rightarrow> f x)"
  by (cases o') auto

lemma safeC_case_prod [safeC_intro]:
  "(\<And>a b. p = (a, b) \<Longrightarrow> safeC (f a b)) \<Longrightarrow> safeC (case p of (a, b) \<Rightarrow> f a b)"
  by (cases p) auto

lemma safeC_unwind [safeC_intro]: "safeC m \<Longrightarrow> safeC (unwind m fin)"
  by (auto simp: safeC_def unwind_def split: prod.splits if_splits)

end
