(* ===== verification/SSH_Encoding.thy ===== *)
theory SSH_Encoding
  imports SSH_Prelude
begin

section \<open>SSH binary encoding (\<open>common/ssh_encoding.cpp\<close>, \<open>common/ssh_messages.hpp\<close>)\<close>

text \<open>
  The message numbers, the big-endian \<open>uint32\<close> codec and length-prefixed strings. A reader takes
  the payload and the cursor and returns the value and the advanced cursor, as the C++ code
  does through its reference argument. The locale \<open>field_codec\<close> is the contract that the message
  parsers of the other components rely on: what is written is read back, what is read was
  written, and no access leaves the payload.
\<close>

subsection \<open>Message numbers\<close>

definition SERVICE_REQUEST :: byte where "SERVICE_REQUEST = 5"
definition SERVICE_ACCEPT :: byte where "SERVICE_ACCEPT = 6"
definition KEXINIT :: byte where "KEXINIT = 20"
definition NEWKEYS :: byte where "NEWKEYS = 21"
definition KEX_ECDH_INIT :: byte where "KEX_ECDH_INIT = 30"
definition KEX_ECDH_REPLY :: byte where "KEX_ECDH_REPLY = 31"
definition USERAUTH_REQUEST :: byte where "USERAUTH_REQUEST = 50"
definition USERAUTH_FAILURE :: byte where "USERAUTH_FAILURE = 51"
definition USERAUTH_SUCCESS :: byte where "USERAUTH_SUCCESS = 52"
definition GLOBAL_REQUEST :: byte where "GLOBAL_REQUEST = 80"
definition REQUEST_SUCCESS :: byte where "REQUEST_SUCCESS = 81"
definition REQUEST_FAILURE :: byte where "REQUEST_FAILURE = 82"
definition CHANNEL_OPEN :: byte where "CHANNEL_OPEN = 90"
definition CHANNEL_OPEN_CONFIRMATION :: byte where "CHANNEL_OPEN_CONFIRMATION = 91"
definition CHANNEL_OPEN_FAILURE :: byte where "CHANNEL_OPEN_FAILURE = 92"
definition CHANNEL_WINDOW_ADJUST :: byte where "CHANNEL_WINDOW_ADJUST = 93"
definition CHANNEL_DATA :: byte where "CHANNEL_DATA = 94"
definition CHANNEL_EXTENDED_DATA :: byte where "CHANNEL_EXTENDED_DATA = 95"
definition CHANNEL_EOF :: byte where "CHANNEL_EOF = 96"
definition CHANNEL_CLOSE :: byte where "CHANNEL_CLOSE = 97"
definition CHANNEL_REQUEST :: byte where "CHANNEL_REQUEST = 98"
definition CHANNEL_SUCCESS :: byte where "CHANNEL_SUCCESS = 99"
definition CHANNEL_FAILURE :: byte where "CHANNEL_FAILURE = 100"

lemmas message_number_defs =
  SERVICE_REQUEST_def SERVICE_ACCEPT_def KEXINIT_def NEWKEYS_def KEX_ECDH_INIT_def
  KEX_ECDH_REPLY_def USERAUTH_REQUEST_def USERAUTH_FAILURE_def USERAUTH_SUCCESS_def
  GLOBAL_REQUEST_def REQUEST_SUCCESS_def REQUEST_FAILURE_def CHANNEL_OPEN_def
  CHANNEL_OPEN_CONFIRMATION_def CHANNEL_OPEN_FAILURE_def CHANNEL_WINDOW_ADJUST_def
  CHANNEL_DATA_def CHANNEL_EXTENDED_DATA_def CHANNEL_EOF_def CHANNEL_CLOSE_def
  CHANNEL_REQUEST_def CHANNEL_SUCCESS_def CHANNEL_FAILURE_def

subsection \<open>Encoding and decoding\<close>

definition bits_per_byte :: nat where "bits_per_byte = 8"
definition uint32_bytes :: nat where "uint32_bytes = 4"

definition encode_uint32 :: "u32 \<Rightarrow> bytes" where
  "encode_uint32 value =
     map (\<lambda>i. ucast (drop_bit ((uint32_bytes - 1 - i) * bits_per_byte) value)) [0..<uint32_bytes]"

definition decode_uint32 :: "bytes \<Rightarrow> u32" where
  "decode_uint32 bytes =
     foldl (\<lambda>value byte. push_bit bits_per_byte value OR ucast byte) 0 bytes"

definition append_string :: "bytes \<Rightarrow> bytes \<Rightarrow> bytes result" where
  "append_string destination value =
     (if length value > uint32_max then throw ''SSH string is too long''
      else let len = encode_uint32 (of_nat (length value)) in Inr ((destination @ len) @ value))"

definition append_text :: "bytes \<Rightarrow> string \<Rightarrow> bytes result" where
  "append_text destination value =
     (if length value > uint32_max then throw ''SSH string is too long''
      else let len = encode_uint32 (of_nat (length value))
           in Inr ((destination @ len) @ bytes_of_string value))"

definition read_string :: "bytes \<Rightarrow> nat \<Rightarrow> (bytes \<times> nat) result" where
  "read_string payload position =
     (if position > length payload \<or> size_minus (length payload) position < uint32_bytes
      then throw ''Expected SSH string length''
      else bindE (copy_array uint32_bytes payload position uint32_bytes) (\<lambda>length_bytes.
        let len = decode_uint32 length_bytes;
            position' = position + uint32_bytes
        in if position' > length payload \<or> size_minus (length payload) position' < unat len
           then throw ''Expected SSH string bytes''
           else bindE (copy_n payload position' (unat len)) (\<lambda>result.
             Inr (result, position' + unat len))))"

definition read_uint32 :: "bytes \<Rightarrow> nat \<Rightarrow> (u32 \<times> nat) result" where
  "read_uint32 payload position =
     (if position > length payload then throw ''No bytes remain''
      else if size_minus (length payload) position < uint32_bytes then throw ''Expected 4 bytes''
      else bindE (copy_array uint32_bytes payload position uint32_bytes) (\<lambda>bytes.
        Inr (decode_uint32 bytes, position + uint32_bytes)))"

subsection \<open>The two conversions are inverse\<close>

lemma encode_uint32_list:
  "encode_uint32 v = [ucast (drop_bit 24 v), ucast (drop_bit 16 v), ucast (drop_bit 8 v), ucast v]"
  by (simp add: encode_uint32_def uint32_bytes_def bits_per_byte_def upt_conv_Cons)

lemma length_encode_uint32 [simp]: "length (encode_uint32 v) = 4"
  by (simp add: encode_uint32_list)

lemma decode_encode_uint32 [simp]: "decode_uint32 (encode_uint32 v) = v"
proof (rule bit_eqI)
  fix n assume "possible_bit TYPE(u32) n"
  then have "n < 32" by simp
  then show "bit (decode_uint32 (encode_uint32 v)) n = bit v n"
    by (cases "n < 16")
       (auto simp: encode_uint32_list decode_uint32_def bits_per_byte_def bit_simps
         less_diff_conv2 not_less)
qed

lemma encode_decode_uint32:
  assumes "length bs = 4"
  shows "encode_uint32 (decode_uint32 bs) = bs"
proof -
  from assms obtain a b c d where bs: "bs = [a, b, c, d]"
    by (auto simp: numeral_eq_Suc length_Suc_conv)
  show ?thesis
    unfolding bs encode_uint32_list decode_uint32_def bits_per_byte_def
    by (auto intro!: bit_eqI simp: bit_simps) (drule bit_imp_le_length, simp)+
qed

lemma decode_uint32_step:
  "decode_uint32 (bs @ [b]) = decode_uint32 bs * 256 + ucast b"
proof -
  have "push_bit 8 (decode_uint32 bs) AND ucast b = 0"
    by (rule bit_eqI) (auto simp: bit_simps dest: bit_imp_le_length)
  then have "push_bit 8 (decode_uint32 bs) OR ucast b = push_bit 8 (decode_uint32 bs) + ucast b"
    by (simp only: disjunctive_add_eq_or)
  then show ?thesis
    by (simp add: decode_uint32_def bits_per_byte_def push_bit_eq_mult)
qed

lemma decode_uint32_eq: "decode_uint32 bs = of_nat (be_value bs)"
proof (induction bs rule: rev_induct)
  case Nil
  show ?case by (simp add: decode_uint32_def)
next
  case (snoc b bs)
  then show ?case by (simp add: decode_uint32_step mult.commute)
qed

lemma unat_decode_uint32: "length bs = 4 \<Longrightarrow> unat (decode_uint32 bs) = be_value bs"
  using be_value_less [of bs] by (simp add: decode_uint32_eq word_of_nat_eq_unat_iff)

lemma encode_uint32_inject [simp]: "encode_uint32 v = encode_uint32 w \<longleftrightarrow> v = w"
  by (metis decode_encode_uint32)

lemma be_value_encode_uint32: "be_value (encode_uint32 v) = unat v"
  by (metis decode_encode_uint32 length_encode_uint32 unat_decode_uint32)

subsection \<open>The contract of a field codec\<close>

text \<open>
  \<open>put\<close> is the wire format of a value, \<open>get\<close> the reader at a cursor, \<open>valid\<close> the values that
  have a wire format.
\<close>

locale field_codec =
  fixes valid :: "'a \<Rightarrow> bool"
    and put :: "'a \<Rightarrow> bytes"
    and get :: "bytes \<Rightarrow> nat \<Rightarrow> ('a \<times> nat) result"
  assumes put_nonempty: "put x \<noteq> []"
    and get_complete:
      "valid x \<Longrightarrow> drop pos p = put x @ rest \<Longrightarrow> get p pos = Inr (x, pos + length (put x))"
    and get_sound:
      "get p pos = Inr (x, pos') \<Longrightarrow>
        valid x \<and> pos' = pos + length (put x) \<and> pos' \<le> length p \<and> drop pos p = put x @ drop pos' p"
    and get_safe: "safe (get p pos)"
begin

lemma get_iff:
  "get p pos = Inr (x, pos') \<longleftrightarrow>
     valid x \<and> pos' = pos + length (put x) \<and> pos' \<le> length p \<and> drop pos p = put x @ drop pos' p"
  using get_sound get_complete by blast

lemma get_context:
  "valid x \<Longrightarrow> get (pre @ put x @ post) (length pre) = Inr (x, length pre + length (put x))"
  by (rule get_complete) auto

lemma get_next:
  "valid x \<Longrightarrow> pos = length pre \<Longrightarrow> get (pre @ put x @ post) pos = Inr (x, pos + length (put x))"
  using get_context by simp

lemma get_bound: "get p pos = Inr (x, pos') \<Longrightarrow> pos < pos' \<and> pos' \<le> length p"
  using get_sound put_nonempty by fastforce

text \<open>The two rules by which a parser of several fields is run forwards and inverted.\<close>

lemma get_step:
  assumes "valid x" and "drop pos p = put x @ rest"
  shows "get p pos = Inr (x, pos + length (put x)) \<and> drop (pos + length (put x)) p = rest"
proof -
  have "drop (length (put x)) (drop pos p) = rest" by (simp add: assms(2))
  with get_complete [OF assms] show ?thesis by (simp add: add.commute)
qed

lemma get_field:
  "get p pos = Inr (x, pos') \<Longrightarrow> valid x \<and> pos' \<le> length p \<and> drop pos p = put x @ drop pos' p"
  using get_sound by blast

lemma parse_unique:
  assumes "valid x" "valid y" "put x @ r = put y @ s"
  shows "x = y \<and> r = s"
proof -
  have "get (put x @ r) 0 = Inr (x, length (put x))"
    using get_context [OF assms(1), of "[]" r] by simp
  moreover have "get (put y @ s) 0 = Inr (y, length (put y))"
    using get_context [OF assms(2), of "[]" s] by simp
  ultimately have "x = y" using assms(3) by simp
  with assms(3) show ?thesis by simp
qed

lemma put_inject: "valid x \<Longrightarrow> valid y \<Longrightarrow> put x = put y \<Longrightarrow> x = y"
  using parse_unique [of x y "[]" "[]"] by simp

lemma get_pos_le: "get p pos = Inr r \<Longrightarrow> snd r \<le> length p"
  using get_sound by (cases r) auto

end

text \<open>The wire format of a string: what \<open>append_string\<close> adds.\<close>

definition ssh_string :: "bytes \<Rightarrow> bytes" where
  "ssh_string value = encode_uint32 (of_nat (length value)) @ value"

definition string_fits :: "bytes \<Rightarrow> bool" where
  "string_fits value \<longleftrightarrow> length value \<le> uint32_max"

lemma length_ssh_string [simp]: "length (ssh_string v) = 4 + length v"
  by (simp add: ssh_string_def)

lemma append_string_eq [result_iff]:
  "append_string d v = Inr r \<longleftrightarrow> string_fits v \<and> r = d @ ssh_string v"
  by (auto simp: append_string_def string_fits_def ssh_string_def Let_def)

lemma append_text_eq [result_iff]:
  "append_text d v = Inr r \<longleftrightarrow> string_fits (bytes_of_string v) \<and> r = d @ ssh_string (bytes_of_string v)"
  by (auto simp: append_text_def string_fits_def ssh_string_def Let_def)

lemma append_string_fits: "string_fits v \<Longrightarrow> append_string d v = Inr (d @ ssh_string v)"
  by (simp add: append_string_eq)

lemma append_text_fits:
  "string_fits (bytes_of_string v) \<Longrightarrow> append_text d v = Inr (d @ ssh_string (bytes_of_string v))"
  by (simp add: append_text_eq)

lemma safe_append [simp]: "safe (append_string d v)" "safe (append_text d t)"
  by (auto simp: append_string_def append_text_def Let_def)

lemma unat_of_nat_string_fits: "string_fits v \<Longrightarrow> unat (of_nat (length v) :: u32) = length v"
  by (simp add: string_fits_def uint32_max_def word_of_nat_eq_unat_iff)

interpretation uint32_codec: field_codec "\<lambda>_. True" encode_uint32 read_uint32
proof unfold_locales
  fix x :: u32
  show "encode_uint32 x \<noteq> []" by (simp add: encode_uint32_list)
next
  fix x :: u32 and pos p rest
  assume d: "drop pos p = encode_uint32 x @ rest"
  then have "length (drop pos p) \<ge> 4" by simp
  then have "pos + 4 \<le> length p" by simp
  with d show "read_uint32 p pos = Inr (x, pos + length (encode_uint32 x))"
    by (simp add: read_uint32_def uint32_bytes_def)
next
  fix p pos x pos'
  assume r: "read_uint32 p pos = Inr (x, pos')"
  then have x: "x = decode_uint32 (take 4 (drop pos p))" and pos': "pos' = pos + 4" "pos + 4 \<le> length p"
    by (auto simp: read_uint32_def uint32_bytes_def bindE_eq_Inr copy_n_eq_Inr split: if_splits)
  then have "encode_uint32 x = take 4 (drop pos p)"
    by (simp add: encode_decode_uint32)
  moreover have "drop pos p = take 4 (drop pos p) @ drop pos' p"
    using append_take_drop_id [of 4 "drop pos p"] by (simp add: pos' add.commute)
  ultimately show "True \<and> pos' = pos + length (encode_uint32 x) \<and> pos' \<le> length p \<and>
      drop pos p = encode_uint32 x @ drop pos' p"
    using pos' by simp
next
  fix p pos
  show "safe (read_uint32 p pos)"
    by (auto simp: read_uint32_def uint32_bytes_def intro!: safe_bindE)
qed

lemma string_fits_unat: "length v = unat (n :: u32) \<Longrightarrow> string_fits v \<and> of_nat (length v) = n"
proof -
  assume "length v = unat n"
  moreover have "unat n < 2 ^ 32" using unsigned_less [of n] by simp
  ultimately show ?thesis by (simp add: string_fits_def uint32_max_def)
qed

interpretation string_codec: field_codec string_fits ssh_string read_string
proof unfold_locales
  fix x
  show "ssh_string x \<noteq> []" by (simp add: ssh_string_def encode_uint32_list)
next
  fix x pos p rest
  assume x: "string_fits x" and d: "drop pos p = ssh_string x @ rest"
  then have "length (drop pos p) \<ge> 4 + length x" by simp
  then have len: "pos + 4 + length x \<le> length p" by simp
  have "take 4 (drop pos p) = encode_uint32 (of_nat (length x))"
    by (simp add: d ssh_string_def)
  moreover have "drop (pos + 4) p = x @ rest"
    using arg_cong [OF d, of "drop 4"] by (simp add: ssh_string_def add.commute)
  ultimately show "read_string p pos = Inr (x, pos + length (ssh_string x))"
    using len x by (auto simp: read_string_def uint32_bytes_def Let_def unat_of_nat_string_fits)
next
  fix p pos x pos'
  assume r: "read_string p pos = Inr (x, pos')"
  define n where n: "n = decode_uint32 (take 4 (drop pos p))"
  from r have len: "pos + 4 + unat n \<le> length p" and x: "x = take (unat n) (drop (pos + 4) p)"
    and pos': "pos' = pos + 4 + unat n"
    by (auto simp: read_string_def uint32_bytes_def Let_def bindE_eq_Inr copy_n_eq_Inr n [symmetric]
        split: if_splits)
  have lx: "length x = unat n" using len x by simp
  have "encode_uint32 n = take 4 (drop pos p)"
    using len by (simp add: n encode_decode_uint32)
  moreover have "drop pos p = take 4 (drop pos p) @ drop (pos + 4) p"
    using append_take_drop_id [of 4 "drop pos p"] by (simp add: add.commute)
  moreover have "drop (pos + 4) p = x @ drop pos' p"
    using append_take_drop_id [of "unat n" "drop (pos + 4) p"] by (simp add: x pos' add.commute)
  ultimately show "string_fits x \<and> pos' = pos + length (ssh_string x) \<and> pos' \<le> length p \<and>
      drop pos p = ssh_string x @ drop pos' p"
    using string_fits_unat [OF lx] lx len pos' by (simp add: ssh_string_def)
next
  fix p pos
  show "safe (read_string p pos)"
    by (auto simp: read_string_def uint32_bytes_def Let_def intro!: safe_bindE)
qed

lemmas codec_iff = uint32_codec.get_iff string_codec.get_iff
lemmas codec_safe [simp] = uint32_codec.get_safe string_codec.get_safe

subsection \<open>Text fields and message payloads\<close>

text \<open>The wire format of a \<open>std::string\<close>, and the payload of a message behind its number.\<close>

definition text_field :: "string \<Rightarrow> bytes" where
  "text_field s = ssh_string (bytes_of_string s)"

lemma short_text_fits: "length s \<le> 100 \<Longrightarrow> string_fits (bytes_of_string s)"
  by (simp add: string_fits_def uint32_max_def)

lemma text_field_inject:
  "length x \<le> uint32_max \<Longrightarrow> length y \<le> uint32_max \<Longrightarrow> text_field x @ r = text_field y @ s \<longleftrightarrow> x = y \<and> r = s"
  using string_codec.parse_unique [of "bytes_of_string x" "bytes_of_string y" r s]
  by (auto simp: text_field_def string_fits_def)

lemma message_payload: "payload \<noteq> [] \<Longrightarrow> payload ! 0 = m \<Longrightarrow> payload = m # drop 1 payload"
  by (cases payload) auto

subsection \<open>Properties\<close>

text \<open>
  \<open>encode_uint32\<close> and \<open>decode_uint32\<close> are inverse to each other between 32-bit integers and
  arrays of four bytes, and the byte order is the network's: the decoded integer is the big-endian
  value of the four bytes.
\<close>

lemma uint32_roundtrip:
  assumes "length bs = 4"
  shows "decode_uint32 (encode_uint32 v) = v \<and> encode_uint32 (decode_uint32 bs) = bs \<and>
    unat (decode_uint32 bs) = be_value bs \<and> be_value (encode_uint32 v) = unat v"
  using assms by (simp_all add: encode_decode_uint32 unat_decode_uint32 be_value_encode_uint32)

text \<open>
  C39: What \<open>append_string\<close> adds to a buffer, \<open>read_string\<close> reads back: at the cursor where
  the string starts, whatever stands before and behind it, it returns the string and moves
  the cursor just behind it.
\<close>

theorem append_read_string:
  assumes "append_string destination value = Inr buffer"
  shows "read_string (buffer @ rest) (length destination) = Inr (value, length buffer)"
proof -
  from assms have fits: "string_fits value" and buffer: "buffer = destination @ ssh_string value"
    by (auto simp: append_string_eq)
  show ?thesis
    using string_codec.get_context [OF fits, of destination rest] by (simp add: buffer)
qed

theorem append_read_string_witness:
  "append_string [9] [7, 8] = Inr [9, 0, 0, 0, 2, 7, 8]
    \<and> read_string ([9, 0, 0, 0, 2, 7, 8] @ [5]) (length [9 :: byte]) = Inr ([7, 8], length [9, 0, 0, 0, 2, 7, 8 :: byte])"
proof -
  have a: "append_string [9] [7, 8] = Inr [9, 0, 0, 0, 2, 7, 8]"
    by (simp add: append_string_def uint32_max_def encode_uint32_list Let_def)
  show ?thesis using a append_read_string [OF a, of "[5]"] by blast
qed

text \<open>
  C40: \<open>read_string\<close> and \<open>read_uint32\<close> succeed exactly when a complete field stands at the
  cursor, and then return that field and the cursor behind it; a cursor that is already past
  the end of the payload, a truncated length and a truncated body are all refused.
\<close>

theorem read_fields_exact:
  "(read_string payload position = Inr (value, position') \<longleftrightarrow>
     length value \<le> uint32_max \<and> position' = position + 4 + length value \<and>
     position' \<le> length payload \<and>
     drop position payload = encode_uint32 (of_nat (length value)) @ value @ drop position' payload) \<and>
   (read_uint32 payload position = Inr (n, position'') \<longleftrightarrow>
     position'' = position + 4 \<and> position'' \<le> length payload \<and>
     drop position payload = encode_uint32 n @ drop position'' payload)"
  by (simp add: codec_iff string_fits_def ssh_string_def add.assoc)

end
