(* ===== verification/SSH_Machine.thy ===== *)
theory SSH_Machine
  imports SSH_Prelude
begin

section \<open>The environment: operating system and libraries\<close>

text \<open>
  Code that is not in the repository is a parameter. The record \<open>posix\<close> collects the system
  calls whose result the code only branches on, the record \<open>crypto\<close> the functions of libsodium and
  OpenSSL; a function that may answer differently each time takes the number of the call.
  The record \<open>machine\<close> is the part of the environment that changes: the results that \<open>read (2)\<close>
  and \<open>write (2)\<close> still have to offer, what the program has written, the terminal device, the
  standard streams and the file system. The objects of the program extend it.
\<close>

subsection \<open>Queues of system-call results\<close>

text \<open>
  A receive queue lists what successive calls of \<open>read (2)\<close> find: data (\<open>[]\<close> is end of file) or
  an error with its \<open>errno\<close>. A call for \<open>n\<close> bytes returns at most \<open>n\<close> and leaves the rest of a longer
  chunk queued, so the queues describe every behaviour of a stream descriptor up to the point
  where the call would block.
\<close>

datatype rx_event = Rx_data bytes | Rx_error int

datatype read_result = Got bytes | Errno int

fun recv_event :: "nat \<Rightarrow> rx_event list \<Rightarrow> (read_result \<times> rx_event list) option" where
  "recv_event n [] = None"
| "recv_event n (Rx_data bs # q) =
     (if length bs \<le> n then Some (Got bs, q) else Some (Got (take n bs), Rx_data (drop n bs) # q))"
| "recv_event n (Rx_error e # q) = Some (Errno e, q)"

text \<open>
  A send queue lists how many bytes successive calls of \<open>write (2)\<close> are ready to accept, or the
  error they return. A write to a connection that the peer has closed raises \<open>SIGPIPE\<close>, which ends the
  process, since the program neither catches nor ignores it; only where the process was started with the signal
  ignored does the call return \<open>EPIPE\<close>, as an error.
\<close>

datatype tx_event = Tx_accept nat | Tx_error int | Tx_sigpipe

definition EINTR :: int where "EINTR = 4"

subsection \<open>Terminal device, console and environment functions\<close>

text \<open>
  Of the file system, \<open>file_append path text\<close> says whether the stream is still good after \<open>text\<close> was
  inserted into it and which text has reached the file when the stream is closed; \<open>file_read_error\<close> is the
  position at which reading the file meets an error, if it does; the other
  \<open>file_*\<close> functions say whether \<open>exists\<close> can tell, and whether a file opens for reading or
  appending. The console is what the user sees: the output of the program, and the lines that
  the terminal echoes.
\<close>

record termios =
  c_iflag :: u32
  c_oflag :: u32
  c_cflag :: u32
  c_lflag :: u32
  c_cc :: bytes

datatype console_output = Cout string | Cerr string | Echo string

text \<open>The flag \<open>ECHO\<close> of \<open>c_lflag\<close> (octal 10).\<close>

definition ECHO :: u32 where "ECHO = 8"

record posix =
  sys_socket :: int
  getaddrinfo :: "string \<Rightarrow> string \<Rightarrow> int \<times> string"
  sys_connect :: "int \<Rightarrow> string \<Rightarrow> int"
  tcgetattr_result :: "nat \<Rightarrow> int"
  tcsetattr_result :: "nat \<Rightarrow> int"
  cfmakeraw :: "termios \<Rightarrow> termios"
  ioctl_winsize :: "int \<times> u16 \<times> u16"
  getenv :: "string \<Rightarrow> string option"
  strerror :: "int \<Rightarrow> string"
  filesystem_error_what :: string
  file_status_ok :: "string \<Rightarrow> bool"
  file_readable :: "string \<Rightarrow> bool"
  file_read_error :: "string \<Rightarrow> nat option"
  file_writable :: "string \<Rightarrow> bool"
  file_append :: "string \<Rightarrow> string \<Rightarrow> bool \<times> string"
  create_directories_ok :: "string \<Rightarrow> bool"

datatype base64_variant = ORIGINAL | ORIGINAL_NO_PADDING

record 'ctx crypto =
  randombytes_buf :: "nat \<Rightarrow> nat \<Rightarrow> bytes"
  crypto_auth_hmacsha256 :: "bytes \<Rightarrow> bytes \<Rightarrow> int \<times> bytes"
  sodium_memcmp :: "bytes \<Rightarrow> bytes \<Rightarrow> int"
  crypto_hash_sha256 :: "bytes \<Rightarrow> bytes"
  crypto_scalarmult_curve25519_base :: "bytes \<Rightarrow> int \<times> bytes"
  crypto_scalarmult_curve25519 :: "bytes \<Rightarrow> bytes \<Rightarrow> int \<times> bytes"
  crypto_sign_verify_detached :: "bytes \<Rightarrow> bytes \<Rightarrow> bytes \<Rightarrow> int"
  sodium_bin2base64 :: "base64_variant \<Rightarrow> bytes \<Rightarrow> string option"
  sodium_init :: int
  EVP_CIPHER_CTX_new :: "nat \<Rightarrow> 'ctx option"
  EVP_EncryptInit_ex :: "'ctx \<Rightarrow> bytes \<Rightarrow> bytes \<Rightarrow> int \<times> 'ctx"
  EVP_DecryptInit_ex :: "'ctx \<Rightarrow> bytes \<Rightarrow> bytes \<Rightarrow> int \<times> 'ctx"
  EVP_EncryptUpdate :: "'ctx \<Rightarrow> bytes \<Rightarrow> int \<times> bytes \<times> 'ctx"
  EVP_DecryptUpdate :: "'ctx \<Rightarrow> bytes \<Rightarrow> int \<times> bytes \<times> 'ctx"

subsection \<open>The changing part of the environment\<close>

record machine =
  rx :: "rx_event list"
  tx_script :: "tx_event list"
  tx :: bytes
  keyboard :: "rx_event list"
  cin :: "string list"
  console :: "console_output list"
  files :: "string \<rightharpoonup> string"
  tty :: termios
  tty_calls :: nat
  random_calls :: nat
  ctx_calls :: nat
  ctx_live :: int
  closed_fds :: "int list"

definition random_bytes :: "'ctx crypto \<Rightarrow> nat \<Rightarrow> ('x machine_scheme, bytes) comp" where
  "random_bytes lib n =
     bindC (getsC random_calls) (\<lambda>k.
     bindC (modifyC (\<lambda>w. w\<lparr>random_calls := Suc k\<rparr>)) (\<lambda>_.
     returnC (randombytes_buf lib k n)))"

definition print :: "console_output \<Rightarrow> ('x machine_scheme, unit) comp" where
  "print out = modifyC (\<lambda>w. w\<lparr>console := console w @ [out]\<rparr>)"

text \<open>
  \<open>std::getline (std::cin, line)\<close>: the next line of standard input, or failure at its end. The user types the line when
  it is asked for, and the terminal shows it if the flag \<open>ECHO\<close> is set.
\<close>

definition echo :: "termios \<Rightarrow> string \<Rightarrow> console_output list" where
  "echo t line = (if c_lflag t AND ECHO \<noteq> 0 then [Echo line] else [])"

definition getline_cin :: "('x machine_scheme, string option) comp" where
  "getline_cin =
     bindC (getsC cin) (\<lambda>ls. case ls of
       [] \<Rightarrow> returnC None
     | l # ls' \<Rightarrow> bindC (modifyC (\<lambda>w. w\<lparr>cin := ls', console := console w @ echo (tty w) l\<rparr>)) (\<lambda>_. returnC (Some l)))"

text \<open>A machine on which nothing has happened and nothing is pending.\<close>

definition idle_machine :: machine where
  "idle_machine =
     \<lparr>rx = [], tx_script = [], tx = [], keyboard = [], cin = [], console = [], files = Map.empty,
      tty = \<lparr>c_iflag = 0, c_oflag = 0, c_cflag = 0, c_lflag = 0, c_cc = []\<rparr>, tty_calls = 0,
      random_calls = 0, ctx_calls = 0, ctx_live = 0, closed_fds = []\<rparr>"

text \<open>An operating system on which every call succeeds, for concrete instances.\<close>

definition willing_posix :: posix where
  "willing_posix =
     \<lparr>sys_socket = 3, getaddrinfo = (\<lambda>host port. (0, host)), sys_connect = (\<lambda>_ _. 0),
      tcgetattr_result = (\<lambda>_. 0), tcsetattr_result = (\<lambda>_. 0),
      cfmakeraw = (\<lambda>t. t\<lparr>c_lflag := 0\<rparr>), ioctl_winsize = (0, 120, 40),
      getenv = (\<lambda>v. if v = ''HOME'' then Some ''/home/u'' else None),
      strerror = (\<lambda>_. ''error''), filesystem_error_what = ''filesystem error'',
      file_status_ok = (\<lambda>_. True), file_readable = (\<lambda>_. True), file_read_error = (\<lambda>_. None),
      file_writable = (\<lambda>_. True), file_append = (\<lambda>_ t. (True, t)), create_directories_ok = (\<lambda>_. True)\<rparr>"

text \<open>
  What is documented of \<open>randombytes_buf\<close> (it fills the buffer), of \<open>crypto_auth_hmacsha256\<close> (it
  returns 0 and 32 bytes) and of \<open>sodium_memcmp\<close> (0 exactly on equal buffers).
\<close>

definition fills_buffers :: "'ctx crypto \<Rightarrow> bool" where
  "fills_buffers lib \<longleftrightarrow> (\<forall>k n. length (randombytes_buf lib k n) = n)"

definition mac_documented :: "'ctx crypto \<Rightarrow> bool" where
  "mac_documented lib \<longleftrightarrow>
     (\<forall>m k. fst (crypto_auth_hmacsha256 lib m k) = 0 \<and> length (snd (crypto_auth_hmacsha256 lib m k)) = 32) \<and>
     (\<forall>a b. length a = length b \<longrightarrow> (sodium_memcmp lib a b = 0 \<longleftrightarrow> a = b))"

text \<open>
  AES in counter mode, as documented: an update combines its input by exclusive or with the next
  bytes of a key stream and advances the context past them; encryption and decryption are the
  same operation. \<open>stream c i\<close> is byte \<open>i\<close> of the key stream at the context \<open>c\<close>.
\<close>

fun xor_stream :: "(nat \<Rightarrow> byte) \<Rightarrow> bytes \<Rightarrow> bytes" where
  "xor_stream ks [] = []"
| "xor_stream ks (b # bs) = (b XOR ks 0) # xor_stream (\<lambda>i. ks (Suc i)) bs"

definition ctr_documented :: "'ctx crypto \<Rightarrow> ('ctx \<Rightarrow> nat \<Rightarrow> byte) \<Rightarrow> bool" where
  "ctr_documented lib stream \<longleftrightarrow>
     (\<forall>c bs. \<exists>c'. EVP_EncryptUpdate lib c bs = (1, xor_stream (stream c) bs, c') \<and>
        stream c' = (\<lambda>i. stream c (length bs + i))) \<and>
     (\<forall>c bs. \<exists>c'. EVP_DecryptUpdate lib c bs = (1, xor_stream (stream c) bs, c') \<and>
        stream c' = (\<lambda>i. stream c (length bs + i)))"

lemma length_xor_stream [simp]: "length (xor_stream ks bs) = length bs"
  by (induction ks bs rule: xor_stream.induct) auto

lemma xor_stream_append:
  "xor_stream ks (xs @ ys) = xor_stream ks xs @ xor_stream (\<lambda>i. ks (length xs + i)) ys"
  by (induction ks xs rule: xor_stream.induct) auto

lemma xor_stream_involutive [simp]: "xor_stream ks (xor_stream ks bs) = bs"
  by (induction ks bs rule: xor_stream.induct) (auto simp: xor.assoc)

text \<open>
  A library with these properties, for concrete instances: it has the documented interfaces and no
  cryptographic strength.
\<close>

definition sample_crypto :: "nat crypto" where
  "sample_crypto =
     \<lparr>randombytes_buf = (\<lambda>k n. replicate n (of_nat k)),
      crypto_auth_hmacsha256 = (\<lambda>m k. (0, replicate 32 (sum_list m + sum_list k))),
      sodium_memcmp = (\<lambda>a b. if a = b then 0 else -1),
      crypto_hash_sha256 = (\<lambda>m. replicate 32 (sum_list m)),
      crypto_scalarmult_curve25519_base = (\<lambda>sk. (0, replicate 32 (sum_list sk))),
      crypto_scalarmult_curve25519 = (\<lambda>sk pk. (0, replicate 32 (sum_list sk * sum_list pk))),
      crypto_sign_verify_detached = (\<lambda>sig m pk. if take 32 sig = m then 0 else -1),
      sodium_bin2base64 = (\<lambda>v bs. Some (concat (map (\<lambda>b.
        [char_of (97 + unat b div 16), char_of (97 + unat b mod 16)]) bs))),
      sodium_init = 0,
      EVP_CIPHER_CTX_new = (\<lambda>k. Some 0),
      EVP_EncryptInit_ex = (\<lambda>c key iv. (1, unat (sum_list iv))),
      EVP_DecryptInit_ex = (\<lambda>c key iv. (1, unat (sum_list iv))),
      EVP_EncryptUpdate = (\<lambda>c bs. (1, xor_stream (\<lambda>i. of_nat (c + i)) bs, c + length bs)),
      EVP_DecryptUpdate = (\<lambda>c bs. (1, xor_stream (\<lambda>i. of_nat (c + i)) bs, c + length bs))\<rparr>"

lemma sample_crypto_documented:
  "fills_buffers sample_crypto" "mac_documented sample_crypto"
  "ctr_documented sample_crypto (\<lambda>c i. of_nat (c + i))"
  by (simp_all add: fills_buffers_def mac_documented_def ctr_documented_def sample_crypto_def add.assoc)

lemma run_random_bytes [comp_simps]:
  "random_bytes lib n w =
     (Inr (randombytes_buf lib (random_calls w) n), w\<lparr>random_calls := Suc (random_calls w)\<rparr>)"
  by (simp add: random_bytes_def comp_simps)

lemma run_print [comp_simps]: "print out w = (Inr (), w\<lparr>console := console w @ [out]\<rparr>)"
  by (simp add: print_def comp_simps)

lemma run_getline_cin [comp_simps]:
  "getline_cin w = (case cin w of [] \<Rightarrow> (Inr None, w) | l # ls \<Rightarrow>
     (Inr (Some l), w\<lparr>cin := ls, console := console w @ echo (tty w) l\<rparr>))"
  by (simp add: getline_cin_def comp_simps split: list.split)

lemma length_randombytes_buf [simp]: "fills_buffers lib \<Longrightarrow> length (randombytes_buf lib k n) = n"
  by (simp add: fills_buffers_def)

subsection \<open>The byte stream behind a receive queue\<close>

text \<open>
  The bytes that a reader which retries interrupted calls gets before end of file, an error or the
  end of the queue; and a size that shrinks with every event consumed.
\<close>

fun pending :: "rx_event list \<Rightarrow> bytes" where
  "pending [] = []"
| "pending (Rx_data bs # q) = (if bs = [] then [] else bs @ pending q)"
| "pending (Rx_error e # q) = (if e = EINTR then pending q else [])"

fun rx_size :: "rx_event list \<Rightarrow> nat" where
  "rx_size [] = 0"
| "rx_size (Rx_data bs # q) = Suc (length bs + rx_size q)"
| "rx_size (Rx_error e # q) = Suc (rx_size q)"

lemma recv_event_Got:
  "recv_event n q = Some (Got bs, q') \<Longrightarrow> bs \<noteq> [] \<Longrightarrow> pending q = bs @ pending q' \<and> length bs \<le> n"
  by (induction n q rule: recv_event.induct) (auto split: if_splits)

lemma recv_event_eof: "0 < n \<Longrightarrow> recv_event n q = Some (Got [], q') \<Longrightarrow> pending q = []"
  by (induction n q rule: recv_event.induct) (auto split: if_splits)

lemma recv_event_None: "recv_event n q = None \<longleftrightarrow> q = []"
  by (cases q rule: pending.cases) auto

lemma recv_event_Errno:
  "recv_event n q = Some (Errno e, q') \<Longrightarrow> pending q = (if e = EINTR then pending q' else [])"
  by (induction n q rule: recv_event.induct) (auto split: if_splits)

lemma recv_event_Errno_size: "recv_event n q = Some (Errno e, q') \<Longrightarrow> rx_size q' < rx_size q"
  by (induction n q rule: recv_event.induct) (auto split: if_splits)

lemma recv_event_Got_size:
  "recv_event n q = Some (Got bs, q') \<Longrightarrow> bs \<noteq> [] \<Longrightarrow> rx_size q' < rx_size q"
  by (induction n q rule: recv_event.induct) (auto split: if_splits)

end
