(* ===== verification/SSH_Socket.thy ===== *)
theory SSH_Socket
  imports SSH_Machine "HOL-Library.Sublist"
begin

section \<open>TCP socket with exact-length I/O (\<open>socket/socket.cpp\<close>)\<close>

text \<open>
  The socket object is its descriptor; \<open>create\<close>, \<open>connect\<close> and \<open>close\<close> follow the constructor and
  the destructor, \<open>read_exact\<close> and \<open>write_exact\<close> are the loops over \<open>read (2)\<close> and \<open>write (2)\<close> with
  their retry on \<open>EINTR\<close>. The lemmas show that the loops end on every queue of system-call results
  and hide how the kernel cuts the stream into pieces; the locale \<open>byte_stream\<close> is the contract
  the transport layer builds on.
\<close>

subsection \<open>Construction and destruction\<close>

record socket =
  fd :: int

text \<open>\<open>Socket::create\<close>: the descriptor, and whether it is valid.\<close>

definition create :: "posix \<Rightarrow> socket \<Rightarrow> bool \<times> socket" where
  "create os sock = (let sock' = sock\<lparr>fd := sys_socket os\<rparr> in (fd sock' \<noteq> -1, sock'))"

text \<open>
  \<open>Socket::connect\<close>: resolve the host name, then connect to the first address; the argument
  \<open>port_text\<close> is \<open>std::to_string (port)\<close>.
\<close>

definition connect :: "posix \<Rightarrow> socket \<Rightarrow> string \<Rightarrow> string \<Rightarrow> bool" where
  "connect os sock host port_text =
     (let (rc, addr) = getaddrinfo os host port_text
      in if rc \<noteq> 0 then False
         else let result = sys_connect os (fd sock) addr in result = 0)"

definition close :: "socket \<Rightarrow> ('x machine_scheme, socket) comp" where
  "close sock =
     (if fd sock = -1 then returnC sock
      else bindC (modifyC (\<lambda>w. w\<lparr>closed_fds := closed_fds w @ [fd sock]\<rparr>)) (\<lambda>_.
           returnC (sock\<lparr>fd := -1\<rparr>)))"

definition destroy_socket :: "socket \<Rightarrow> ('x machine_scheme, unit) comp" where
  "destroy_socket sock = bindC (close sock) (\<lambda>_. returnC ())"

definition Socket :: "posix \<Rightarrow> string \<Rightarrow> string \<Rightarrow> ('x machine_scheme, socket) comp" where
  "Socket os host port_text =
     (let (created, sock) = create os \<lparr>fd = -1\<rparr>
      in if \<not> created then raiseC ''Failed to create socket''
         else if \<not> connect os sock host port_text
              then bindC (close sock) (\<lambda>_. raiseC (''Failed to connect to '' @ host))
              else returnC sock)"

subsection \<open>Exact-length reads and writes\<close>

function read_exact_loop :: "nat \<Rightarrow> bytes \<Rightarrow> rx_event list \<Rightarrow> (stop + bytes) \<times> rx_event list" where
  "read_exact_loop len dst q =
     (if length dst < len then
        (case recv_event (len - length dst) q of
           None \<Rightarrow> (Inl Blocked, q)
         | Some (Got bs, q') \<Rightarrow>
             if bs \<noteq> [] then read_exact_loop len (dst @ bs) q'
             else (Inl (Raised (Runtime_error ''Connection closed'')), q')
         | Some (Errno e, q') \<Rightarrow>
             if e = EINTR then read_exact_loop len dst q'
             else (Inl (Raised (System_error e)), q'))
      else (Inr dst, q))"
  by pat_completeness auto
termination
  by (relation "measure (\<lambda>(len, dst, q). rx_size q)")
     (auto dest: recv_event_Got_size recv_event_Errno_size)

declare read_exact_loop.simps [simp del]

definition read_exact :: "nat \<Rightarrow> ('x machine_scheme, bytes) comp" where
  "read_exact len w =
     (let (r, q) = read_exact_loop len [] (rx w) in (r, w\<lparr>rx := q\<rparr>))"

text \<open>The call of \<open>read_exact\<close> on a buffer of \<open>room\<close> bytes, which becomes what was read.\<close>

definition read_buffer :: "nat \<Rightarrow> nat \<Rightarrow> ('x machine_scheme, bytes) comp" where
  "read_buffer room len = (if len \<le> room then read_exact len else stopC (Raised Memory_error))"

lemma read_buffer_full [simp]: "read_buffer n n = read_exact n"
  by (simp add: read_buffer_def)

fun write_exact_loop ::
  "bytes \<Rightarrow> bytes \<Rightarrow> tx_event list \<Rightarrow> (stop + unit) \<times> bytes \<times> tx_event list" where
  "write_exact_loop src sent q =
     (if src \<noteq> [] then
        (case q of
           [] \<Rightarrow> (Inl Blocked, sent, q)
         | Tx_accept n # q' \<Rightarrow>
             if n = 0 then (Inl (Raised (Runtime_error ''Write returned zero'')), sent, q')
             else write_exact_loop (drop n src) (sent @ take n src) q'
         | Tx_error e # q' \<Rightarrow>
             if e = EINTR then write_exact_loop src sent q'
             else (Inl (Raised (System_error e)), sent, q')
         | Tx_sigpipe # q' \<Rightarrow> (Inl Killed, sent, q'))
      else (Inr (), sent, q))"

declare write_exact_loop.simps [simp del]

definition write_exact :: "bytes \<Rightarrow> ('x machine_scheme, unit) comp" where
  "write_exact src w =
     (let (r, sent, q) = write_exact_loop src [] (tx_script w)
      in (r, w\<lparr>tx := tx w @ sent, tx_script := q\<rparr>))"

subsection \<open>The loops deliver the stream\<close>

lemma read_exact_loop_Inr:
  "read_exact_loop len dst q = (Inr r, q') \<Longrightarrow> length dst \<le> len \<Longrightarrow>
     length r = len \<and> dst @ pending q = r @ pending q' \<and> rx_size q' \<le> rx_size q \<and>
     (length dst < len \<longrightarrow> rx_size q' < rx_size q)"
proof (induction len dst q rule: read_exact_loop.induct)
  case (1 len dst q)
  show ?case
  proof (cases "length dst < len")
    case False
    with "1.prems" show ?thesis by (simp add: read_exact_loop.simps [of len dst q])
  next
    case less: True
    show ?thesis
    proof (cases "recv_event (len - length dst) q")
      case None
      with "1.prems" less show ?thesis by (simp add: read_exact_loop.simps [of len dst q])
    next
      case (Some y)
      obtain res q'' where y: "y = (res, q'')" by (cases y)
      show ?thesis
      proof (cases res)
        case (Got bs)
        with "1.prems"(1) less Some y have bs: "bs \<noteq> []"
          and rest: "read_exact_loop len (dst @ bs) q'' = (Inr r, q')"
          by (auto simp: read_exact_loop.simps [of len dst q] split: if_splits)
        from Some y Got have ev: "recv_event (len - length dst) q = Some (Got bs, q'')" by simp
        have "length (dst @ bs) \<le> len" using recv_event_Got [OF ev bs] less by auto
        from "1.IH"(1) [OF less Some y [symmetric] Got bs rest this] show ?thesis
          using recv_event_Got [OF ev bs] recv_event_Got_size [OF ev bs] less by auto
      next
        case (Errno e)
        with "1.prems"(1) less Some y have e: "e = EINTR"
          and rest: "read_exact_loop len dst q'' = (Inr r, q')"
          by (auto simp: read_exact_loop.simps [of len dst q] split: if_splits)
        from Some y Errno have ev: "recv_event (len - length dst) q = Some (Errno e, q'')" by simp
        show ?thesis
          using "1.IH"(2) [OF less Some y [symmetric] Errno e rest "1.prems"(2)] recv_event_Errno [OF ev]
            recv_event_Errno_size [OF ev] e by auto
      qed
    qed
  qed
qed

lemma read_exact_loop_enough:
  "len - length dst \<le> length (pending q) \<Longrightarrow> \<exists>r q'. read_exact_loop len dst q = (Inr r, q')"
proof (induction len dst q rule: read_exact_loop.induct)
  case (1 len dst q)
  show ?case
  proof (cases "length dst < len")
    case False
    then show ?thesis by (simp add: read_exact_loop.simps [of len dst q])
  next
    case less: True
    with "1.prems" have ne: "pending q \<noteq> []" by auto
    then obtain res q'' where ev: "recv_event (len - length dst) q = Some (res, q'')"
      by (metis not_Some_eq pending.simps(1) recv_event_None surj_pair)
    show ?thesis
    proof (cases res)
      case (Got bs)
      with ev ne less have bs: "bs \<noteq> []" using recv_event_eof [of "len - length dst" q q''] by auto
      with recv_event_Got ev Got "1.prems" have "len - length (dst @ bs) \<le> length (pending q'')"
        by fastforce
      with "1.IH"(1) [OF less ev refl Got bs] show ?thesis
        using less ev Got bs by (simp add: read_exact_loop.simps [of len dst q])
    next
      case (Errno e)
      with recv_event_Errno ev ne have e: "e = EINTR" and "pending q = pending q''"
        by (auto split: if_splits)
      with "1.IH"(2) [OF less ev refl Errno e] "1.prems" show ?thesis
        using less ev Errno e by (simp add: read_exact_loop.simps [of len dst q])
    qed
  qed
qed

lemma read_exact_Inr:
  assumes "read_exact len w = (Inr r, w')"
  shows "\<exists>q. w' = w\<lparr>rx := q\<rparr> \<and> pending (rx w) = r @ pending q \<and> length r = len \<and>
    rx_size q \<le> rx_size (rx w) \<and> (0 < len \<longrightarrow> rx_size q < rx_size (rx w))"
  using assms read_exact_loop_Inr [of len "[]" "rx w" r "rx w'"]
  by (auto simp: read_exact_def split: prod.splits)

lemma read_exact_frame: "\<exists>q. snd (read_exact len w) = w\<lparr>rx := q\<rparr>"
  by (auto simp: read_exact_def split: prod.splits)

lemma read_exact_enough:
  assumes "len \<le> length (pending (rx w))"
  shows "\<exists>q. read_exact len w = (Inr (take len (pending (rx w))), w\<lparr>rx := q\<rparr>) \<and>
    pending q = drop len (pending (rx w))"
proof -
  from assms read_exact_loop_enough [of len "[]" "rx w"]
  obtain r q where l: "read_exact_loop len [] (rx w) = (Inr r, q)" by auto
  then have "length r = len" and "pending (rx w) = r @ pending q"
    using read_exact_loop_Inr [OF l] by auto
  with l show ?thesis by (auto simp: read_exact_def)
qed

text \<open>
  The contract of a byte stream: reading \<open>n\<close> bytes gives the next \<open>n\<close> bytes of the stream whenever
  it has them.
\<close>

locale byte_stream =
  fixes read :: "nat \<Rightarrow> ('s, bytes) comp"
    and stream :: "'s \<Rightarrow> bytes"
    and same :: "'s \<Rightarrow> 's \<Rightarrow> bool"
  assumes read_enough:
      "n \<le> length (stream s) \<Longrightarrow>
        \<exists>s'. read n s = (Inr (take n (stream s)), s') \<and> stream s' = drop n (stream s) \<and> same s s'"
    and read_sound:
      "read n s = (Inr bs, s') \<Longrightarrow> length bs = n \<and> stream s = bs @ stream s' \<and> same s s'"
    and same_trans: "same s t \<Longrightarrow> same t u \<Longrightarrow> same s u"
begin

lemma read_prefix:
  "stream s = bs @ rest \<Longrightarrow> \<exists>s'. read (length bs) s = (Inr bs, s') \<and> stream s' = rest \<and> same s s'"
  using read_enough [of "length bs" s] by simp

lemma read_succeeds_iff: "(\<exists>bs s'. read n s = (Inr bs, s')) \<longleftrightarrow> n \<le> length (stream s)"
proof
  assume "\<exists>bs s'. read n s = (Inr bs, s')"
  then show "n \<le> length (stream s)" using read_sound by fastforce
next
  assume "n \<le> length (stream s)"
  then show "\<exists>bs s'. read n s = (Inr bs, s')" using read_enough by blast
qed

lemma read_determined:
  assumes "read n s = (Inr bs, s')" and "stream t = stream s"
  shows "\<exists>t'. read n t = (Inr bs, t') \<and> stream t' = stream s'"
  using read_sound [OF assms(1)] read_prefix [of t bs "stream s'"] assms(2) by auto

lemma read_two:
  assumes "stream s = xs @ ys @ rest"
  shows "\<exists>s1 s2. read (length xs) s = (Inr xs, s1) \<and> read (length ys) s1 = (Inr ys, s2) \<and>
    stream s2 = rest \<and> same s s1 \<and> same s s2"
proof -
  from read_prefix [OF assms] obtain s1
    where 1: "read (length xs) s = (Inr xs, s1)" "stream s1 = ys @ rest" "same s s1" by blast
  from read_prefix [OF 1(2)] obtain s2
    where 2: "read (length ys) s1 = (Inr ys, s2)" "stream s2 = rest" "same s1 s2" by blast
  from 1 2 same_trans show ?thesis by blast
qed

end

interpretation socket_stream:
  byte_stream read_exact "\<lambda>w. pending (rx w)" "\<lambda>w w'. \<exists>q. w' = w\<lparr>rx := q\<rparr>"
proof unfold_locales
  fix n and s :: "'a machine_scheme"
  assume "n \<le> length (pending (rx s))"
  then show "\<exists>s'. read_exact n s = (Inr (take n (pending (rx s))), s') \<and>
      pending (rx s') = drop n (pending (rx s)) \<and> (\<exists>q. s' = s\<lparr>rx := q\<rparr>)"
    using read_exact_enough by fastforce
next
  fix n bs and s s' :: "'a machine_scheme"
  assume "read_exact n s = (Inr bs, s')"
  then show "length bs = n \<and> pending (rx s) = bs @ pending (rx s') \<and> (\<exists>q. s' = s\<lparr>rx := q\<rparr>)"
    using read_exact_Inr by fastforce
next
  fix s t u :: "'a machine_scheme"
  assume "\<exists>q. t = s\<lparr>rx := q\<rparr>" "\<exists>q. u = t\<lparr>rx := q\<rparr>"
  then show "\<exists>q. u = s\<lparr>rx := q\<rparr>" by auto
qed

subsection \<open>Writing\<close>

lemma write_loop_simps:
  "write_exact_loop [] sent q = (Inr (), sent, q)"
  "src \<noteq> [] \<Longrightarrow> write_exact_loop src sent [] = (Inl Blocked, sent, [])"
  "src \<noteq> [] \<Longrightarrow> write_exact_loop src sent (Tx_accept n # q) =
     (if n = 0 then (Inl (Raised (Runtime_error ''Write returned zero'')), sent, q)
      else write_exact_loop (drop n src) (sent @ take n src) q)"
  "src \<noteq> [] \<Longrightarrow> write_exact_loop src sent (Tx_error e # q) =
     (if e = EINTR then write_exact_loop src sent q else (Inl (Raised (System_error e)), sent, q))"
  "src \<noteq> [] \<Longrightarrow> write_exact_loop src sent (Tx_sigpipe # q) = (Inl Killed, sent, q)"
  by (subst write_exact_loop.simps; simp)+

lemma write_exact_loop_sent:
  "write_exact_loop src sent q = (r, sent', q') \<Longrightarrow>
     \<exists>d. sent' = sent @ d \<and> prefix d src \<and> (r = Inr () \<longrightarrow> d = src)"
proof (induction q arbitrary: src sent)
  case Nil
  then show ?case by (cases "src = []") (auto simp: write_loop_simps)
next
  case (Cons ev q)
  show ?case
  proof (cases "src = []")
    case True
    with Cons.prems show ?thesis by (simp add: write_loop_simps)
  next
    case ne: False
    show ?thesis
    proof (cases ev)
      case (Tx_accept n)
      show ?thesis
      proof (cases "n = 0")
        case True
        with ne Cons.prems Tx_accept show ?thesis by (auto simp: write_loop_simps)
      next
        case False
        with ne Cons.prems Tx_accept
        have "write_exact_loop (drop n src) (sent @ take n src) q = (r, sent', q')"
          by (simp add: write_loop_simps)
        from Cons.IH [OF this] obtain d where d: "sent' = (sent @ take n src) @ d"
          "prefix d (drop n src)" "r = Inr () \<longrightarrow> d = drop n src" by blast
        have "prefix (take n src @ d) (take n src @ drop n src)"
          using d(2) by (simp only: same_prefix_prefix)
        with d show ?thesis by (intro exI [of _ "take n src @ d"]) auto
      qed
    next
      case (Tx_error e)
      with ne Cons show ?thesis by (auto simp: write_loop_simps split: if_splits)
    next
      case Tx_sigpipe
      with ne Cons show ?thesis by (auto simp: write_loop_simps)
    qed
  qed
qed

lemma tx_queue_cases:
  obtains (nil) "q = []" | (accept) k q' where "q = Tx_accept k # q'" | (error) e q' where "q = Tx_error e # q'"
    | (sigpipe) q' where "q = Tx_sigpipe # q'"
  by (cases q; cases "hd q") auto

text \<open>\<open>accepts_all q n\<close>: the send queue takes \<open>n\<close> bytes, in whatever pieces and after whatever interrupts.\<close>

fun accepts_all :: "tx_event list \<Rightarrow> nat \<Rightarrow> bool" where
  "accepts_all [] n \<longleftrightarrow> n = 0"
| "accepts_all (Tx_accept k # q) n \<longleftrightarrow> n = 0 \<or> 0 < k \<and> accepts_all q (n - k)"
| "accepts_all (Tx_error e # q) n \<longleftrightarrow> n = 0 \<or> e = EINTR \<and> accepts_all q n"
| "accepts_all (Tx_sigpipe # q) n \<longleftrightarrow> n = 0"

text \<open>What is left of the queue after it has taken \<open>n\<close> bytes.\<close>

fun after_accepting :: "tx_event list \<Rightarrow> nat \<Rightarrow> tx_event list" where
  "after_accepting [] n = []"
| "after_accepting (Tx_accept k # q) n = (if n = 0 then Tx_accept k # q else after_accepting q (n - k))"
| "after_accepting (Tx_error e # q) n = (if n = 0 then Tx_error e # q else after_accepting q n)"
| "after_accepting (Tx_sigpipe # q) n = Tx_sigpipe # q"

lemma after_accepting_0 [simp]: "after_accepting q 0 = q"
  by (cases q rule: tx_queue_cases) auto

lemma accepts_all_0 [simp]: "accepts_all q 0"
  by (cases q rule: tx_queue_cases) auto

lemma write_exact_loop_enough:
  "accepts_all q (length src) \<Longrightarrow>
     write_exact_loop src sent q = (Inr (), sent @ src, after_accepting q (length src))"
proof (induction q arbitrary: src sent)
  case Nil
  then show ?case by (simp add: write_loop_simps)
next
  case (Cons ev q)
  show ?case
  proof (cases "src = []")
    case True
    then show ?thesis by (simp add: write_loop_simps)
  next
    case ne: False
    show ?thesis
    proof (cases ev)
      case (Tx_accept k)
      with ne Cons.prems have "accepts_all q (length (drop k src))" by simp
      from Cons.IH [OF this] have "write_exact_loop (drop k src) (sent @ take k src) q =
          (Inr (), (sent @ take k src) @ drop k src, after_accepting q (length (drop k src)))" .
      with ne Cons.prems Tx_accept show ?thesis by (simp add: write_loop_simps)
    next
      case (Tx_error e)
      with ne Cons show ?thesis by (simp add: write_loop_simps)
    next
      case Tx_sigpipe
      with ne Cons.prems show ?thesis by simp
    qed
  qed
qed

lemma write_exact_frame:
  "\<exists>d q. snd (write_exact src w) = w\<lparr>tx := tx w @ d, tx_script := q\<rparr> \<and> prefix d src"
  using write_exact_loop_sent [of src "[]" "tx_script w"]
  by (fastforce simp: write_exact_def split: prod.splits)

lemma write_exact_Inr:
  "write_exact src w = (Inr u, w') \<Longrightarrow> \<exists>q. w' = w\<lparr>tx := tx w @ src, tx_script := q\<rparr>"
  using write_exact_loop_sent [of src "[]" "tx_script w"]
  by (fastforce simp: write_exact_def split: prod.splits)

lemma write_exact_enough:
  "accepts_all (tx_script w) (length src) \<Longrightarrow>
     write_exact src w =
       (Inr (), w\<lparr>tx := tx w @ src, tx_script := after_accepting (tx_script w) (length src)\<rparr>)"
  using write_exact_loop_enough [of "tx_script w" src "[]"] by (simp add: write_exact_def)

lemma Socket_cases:
  "Socket os host port w =
     (if sys_socket os = -1 then (Inl (Raised (Runtime_error ''Failed to create socket'')), w)
      else if fst (getaddrinfo os host port) = 0
              \<and> sys_connect os (sys_socket os) (snd (getaddrinfo os host port)) = 0
      then (Inr \<lparr>fd = sys_socket os\<rparr>, w)
      else (Inl (Raised (Runtime_error (''Failed to connect to '' @ host))),
            w\<lparr>closed_fds := closed_fds w @ [sys_socket os]\<rparr>))"
  by (cases "getaddrinfo os host port")
     (simp add: Socket_def create_def connect_def close_def comp_simps Let_def)

subsection \<open>Properties\<close>

text \<open>
  C21: \<open>read_exact\<close> returns the bytes \<open>r\<close> and leaves the stream \<open>rest\<close> behind exactly when \<open>r\<close> has the
  requested length and the incoming stream is \<open>r\<close> followed by \<open>rest\<close>: short reads and interrupted
  calls are invisible, no byte is lost, duplicated or reordered, and the loop returns whenever
  the stream has enough bytes.
\<close>

theorem read_exact_exact:
  "(\<exists>w'. read_exact len w = (Inr r, w') \<and> pending (rx w') = rest) \<longleftrightarrow>
     length r = len \<and> pending (rx w) = r @ rest"
proof
  assume "\<exists>w'. read_exact len w = (Inr r, w') \<and> pending (rx w') = rest"
  then show "length r = len \<and> pending (rx w) = r @ rest"
    using socket_stream.read_sound by fastforce
next
  assume "length r = len \<and> pending (rx w) = r @ rest"
  then show "\<exists>w'. read_exact len w = (Inr r, w') \<and> pending (rx w') = rest"
    using socket_stream.read_prefix by blast
qed

text \<open>
  C22: Whatever happens, \<open>write_exact\<close> has put a prefix of its argument on the wire; if it returns,
  the whole of it; and it returns whenever the kernel accepts that many bytes, in pieces of any
  size and with interrupted calls in between.
\<close>

theorem write_exact_complete:
  "(\<exists>d. tx (snd (write_exact src w)) = tx w @ d \<and> prefix d src \<and>
      (fst (write_exact src w) = Inr () \<longrightarrow> d = src)) \<and>
   (accepts_all (tx_script w) (length src) \<longrightarrow> fst (write_exact src w) = Inr ())"
proof -
  obtain r sent q where l: "write_exact_loop src [] (tx_script w) = (r, sent, q)"
    by (metis prod_cases3)
  from write_exact_loop_sent [OF l] write_exact_loop_enough [of "tx_script w" src "[]"] l
  show ?thesis by (auto simp: write_exact_def)
qed

theorem write_exact_complete_witness:
  "\<exists>w :: machine. accepts_all (tx_script w) (length [1, 2, 3 :: byte]) \<and>
     fst (write_exact [1, 2, 3] w) = Inr () \<and> tx (snd (write_exact [1, 2, 3] w)) = tx w @ [1, 2, 3]"
proof -
  define w where "w = idle_machine\<lparr>tx_script := [Tx_accept 1, Tx_error EINTR, Tx_accept 5]\<rparr>"
  have acc: "accepts_all (tx_script w) (length [1, 2, 3 :: byte])"
    by (simp add: w_def)
  then show ?thesis using write_exact_complete [of "[1, 2, 3]" w] by blast
qed

end
