(* ===== verification/SSH_Terminal.thy ===== *)
theory SSH_Terminal
  imports SSH_Machine
begin

section \<open>The local terminal (\<open>terminal/terminal.cpp\<close>)\<close>

text \<open>
  Hidden password input, the terminal information sent in the PTY request, and raw mode with its
  restoration. The object's two fields extend the machine, whose field \<open>tty\<close> is the device. The
  locale \<open>mode_guard\<close> is the contract of a saved device mode: it is entered and left in any
  order and the device ends in the mode it started from.
\<close>

record terminal_info =
  term_type :: string
  columns :: u32
  rows :: u32

record terminal = machine +
  original_settings :: termios
  raw_mode_active :: bool

definition DEFAULT_TERMINAL_COLUMNS :: u32 where "DEFAULT_TERMINAL_COLUMNS = 80"
definition DEFAULT_TERMINAL_ROWS :: u32 where "DEFAULT_TERMINAL_ROWS = 24"
definition DEFAULT_TERMINAL_TYPE :: string where "DEFAULT_TERMINAL_TYPE = ''xterm-256color''"

subsection \<open>Reading and setting the device attributes\<close>

text \<open>
  \<open>tcgetattr\<close> and \<open>tcsetattr\<close> on standard input; \<open>None\<close> and \<open>False\<close> stand for the result -1, which
  leaves the device as it is.
\<close>

definition tcgetattr :: "posix \<Rightarrow> ('x machine_scheme, termios option) comp" where
  "tcgetattr os =
     bindC (getsC tty_calls) (\<lambda>k.
     bindC (modifyC (\<lambda>w. w\<lparr>tty_calls := Suc k\<rparr>)) (\<lambda>_.
     if tcgetattr_result os k = -1 then returnC None
     else bindC (getsC tty) (\<lambda>t. returnC (Some t))))"

definition tcsetattr :: "posix \<Rightarrow> termios \<Rightarrow> ('x machine_scheme, bool) comp" where
  "tcsetattr os settings =
     bindC (getsC tty_calls) (\<lambda>k.
     bindC (modifyC (\<lambda>w. w\<lparr>tty_calls := Suc k\<rparr>)) (\<lambda>_.
     if tcsetattr_result os k = -1 then returnC False
     else bindC (modifyC (\<lambda>w. w\<lparr>tty := settings\<rparr>)) (\<lambda>_. returnC True)))"

subsection \<open>Operations\<close>

text \<open>The constructor's member initialisers.\<close>

definition Terminal :: "('x terminal_scheme, unit) comp" where
  "Terminal =
     modifyC (\<lambda>w. w\<lparr>original_settings :=
         \<lparr>c_iflag = 0, c_oflag = 0, c_cflag = 0, c_lflag = 0, c_cc = replicate 32 0\<rparr>,
       raw_mode_active := False\<rparr>)"

definition hide_echo :: "termios \<Rightarrow> termios" where
  "hide_echo original = original\<lparr>c_lflag := c_lflag original AND NOT ECHO\<rparr>"

definition read_hidden_input :: "posix \<Rightarrow> string \<Rightarrow> ('x machine_scheme, string) comp" where
  "read_hidden_input os prompt =
     bindC (print (Cout prompt)) (\<lambda>_.
     bindC (tcgetattr os) (\<lambda>got. case got of
       None \<Rightarrow> raiseC ''Failed to save current terminal settings''
     | Some original \<Rightarrow>
         let hidden = hide_echo original in
         bindC (tcsetattr os hidden) (\<lambda>ok.
         if \<not> ok then raiseC ''Failed to disable terminal echo''
         else bindC getline_cin (\<lambda>line.
              bindC (tcsetattr os original) (\<lambda>ok.
              if \<not> ok then raiseC ''Failed to reenable terminal echo''
              else case line of
                None \<Rightarrow> raiseC ''Password not read correctly''
              | Some password \<Rightarrow> bindC (print (Cout [CHR 0x0A])) (\<lambda>_. returnC password))))))"

definition get_terminal_info :: "posix \<Rightarrow> terminal_info" where
  "get_terminal_info os =
     (let ttype = (case getenv os ''TERM'' of
                     None \<Rightarrow> DEFAULT_TERMINAL_TYPE
                   | Some v \<Rightarrow> if v = [] then DEFAULT_TERMINAL_TYPE else v);
          info = \<lparr>term_type = ttype, columns = DEFAULT_TERMINAL_COLUMNS, rows = DEFAULT_TERMINAL_ROWS\<rparr>;
          (result, ws_col, ws_row) = ioctl_winsize os
      in if result \<noteq> -1 \<and> ws_col \<noteq> 0 \<and> ws_row \<noteq> 0
         then info\<lparr>columns := ucast ws_col, rows := ucast ws_row\<rparr>
         else info)"

definition enable_raw_mode :: "posix \<Rightarrow> ('x terminal_scheme, unit) comp" where
  "enable_raw_mode os =
     bindC (getsC raw_mode_active) (\<lambda>active.
     if active then returnC ()
     else bindC (tcgetattr os) (\<lambda>got. case got of
       None \<Rightarrow> raiseC ''Failed to read terminal settings''
     | Some original \<Rightarrow>
         bindC (modifyC (\<lambda>w. w\<lparr>original_settings := original\<rparr>)) (\<lambda>_.
         let raw_settings = cfmakeraw os original in
         bindC (tcsetattr os raw_settings) (\<lambda>ok.
         if \<not> ok then raiseC ''Failed to enable raw terminal mode''
         else modifyC (\<lambda>w. w\<lparr>raw_mode_active := True\<rparr>)))))"

definition restore :: "posix \<Rightarrow> ('x terminal_scheme, unit) comp" where
  "restore os =
     bindC (getsC raw_mode_active) (\<lambda>active.
     if \<not> active then returnC ()
     else bindC (getsC original_settings) (\<lambda>original.
          bindC (tcsetattr os original) (\<lambda>ok.
          if \<not> ok then raiseC ''Failed to restore terminal settings''
          else modifyC (\<lambda>w. w\<lparr>raw_mode_active := False\<rparr>))))"

text \<open>The destructor ignores the result of \<open>tcsetattr\<close>.\<close>

definition destroy_terminal :: "posix \<Rightarrow> ('x terminal_scheme, unit) comp" where
  "destroy_terminal os =
     bindC (getsC raw_mode_active) (\<lambda>active.
     if active
     then bindC (getsC original_settings) (\<lambda>original.
          bindC (tcsetattr os original) (\<lambda>_. returnC ()))
     else returnC ())"

subsection \<open>Symbolic execution\<close>

lemma run_tcgetattr [comp_simps]:
  "tcgetattr os w =
     (Inr (if tcgetattr_result os (tty_calls w) = -1 then None else Some (tty w)),
      w\<lparr>tty_calls := Suc (tty_calls w)\<rparr>)"
  by (simp add: tcgetattr_def comp_simps)

lemma run_tcsetattr [comp_simps]:
  "tcsetattr os t w =
     (if tcsetattr_result os (tty_calls w) = -1 then (Inr False, w\<lparr>tty_calls := Suc (tty_calls w)\<rparr>)
      else (Inr True, w\<lparr>tty_calls := Suc (tty_calls w), tty := t\<rparr>))"
  by (simp add: tcsetattr_def comp_simps)

text \<open>Setting the attributes of the terminal never fails.\<close>

definition settable :: "posix \<Rightarrow> bool" where
  "settable os \<longleftrightarrow> (\<forall>k. tcsetattr_result os k \<noteq> -1)"

text \<open>
  The invariant of the object: while raw mode is active the saved settings are those from before,
  otherwise the device itself has them.
\<close>

definition saved_mode :: "termios \<Rightarrow> 'x terminal_scheme \<Rightarrow> bool" where
  "saved_mode t w \<longleftrightarrow> (if raw_mode_active w then original_settings w = t else tty w = t)"

lemma enable_raw_mode_saved: "keeps (saved_mode t) (enable_raw_mode os)"
  by (auto simp: keeps_def saved_mode_def enable_raw_mode_def bindC_def comp_simps Let_def)

lemma restore_saved: "keeps (saved_mode t) (restore os)"
  by (auto simp: keeps_def saved_mode_def restore_def bindC_def comp_simps)

lemma restore_mode: "saved_mode t w \<Longrightarrow> restore os w = (Inr (), w') \<Longrightarrow> tty w' = t \<and> \<not> raw_mode_active w'"
  by (auto simp: saved_mode_def restore_def bindC_def comp_simps split: if_splits)

lemma destroy_terminal_mode:
  "settable os \<Longrightarrow> saved_mode t w \<Longrightarrow> tty (snd (destroy_terminal os w)) = t"
  by (auto simp: saved_mode_def settable_def destroy_terminal_def bindC_def comp_simps)

lemma enable_raw_mode_raw:
  "enable_raw_mode os w = (Inr (), w') \<Longrightarrow> \<not> raw_mode_active w \<Longrightarrow>
     raw_mode_active w' \<and> tty w' = cfmakeraw os (tty w) \<and> original_settings w' = tty w"
  by (auto simp: enable_raw_mode_def bindC_def comp_simps Let_def split: if_splits)

subsection \<open>The contract of a saved mode\<close>

locale mode_guard =
  fixes enter leave destroy :: "('s, unit) comp"
    and saved :: "'d \<Rightarrow> 's \<Rightarrow> bool"
    and device :: "'s \<Rightarrow> 'd"
    and reliable :: bool
  assumes enter_keeps: "keeps (saved d) enter"
    and leave_keeps: "keeps (saved d) leave"
    and destroy_device: "reliable \<Longrightarrow> saved d s \<Longrightarrow> device (snd (destroy s)) = d"
begin

lemma scope_restores:
  assumes "reliable" and "saved d s" and "keeps (saved d) body"
    and "unwind body destroy s = (r, s')" and "\<not> halted r"
  shows "device s' = d"
proof -
  from assms(4,5) obtain t where "body s = (r, t)" and s': "s' = snd (destroy t)"
    by (auto simp: unwind_eq)
  with assms(2,3) have "saved d t" by (auto dest: keepsD)
  with assms(1) s' show ?thesis by (simp add: destroy_device)
qed

lemma session_keeps:
  "keeps (saved d) body \<Longrightarrow> keeps (saved d) (bindC enter (\<lambda>_. bindC body (\<lambda>_. leave)))"
  by (intro keeps_intro enter_keeps leave_keeps)

lemma session_restores:
  assumes "reliable" and "saved d s" and "keeps (saved d) body"
    and "unwind (bindC enter (\<lambda>_. bindC body (\<lambda>_. leave))) destroy s = (r, s')" and "\<not> halted r"
  shows "device s' = d"
  using scope_restores [OF assms(1,2) session_keeps [OF assms(3)] assms(4,5)] .

end

interpretation raw_mode: mode_guard "enable_raw_mode os" "restore os" "destroy_terminal os"
  saved_mode tty "settable os" for os
  by unfold_locales (auto simp: enable_raw_mode_saved restore_saved destroy_terminal_mode)

subsection \<open>Properties\<close>

lemma ucast_u16_u32_eq_0: "(ucast (x :: u16) :: u32) = 0 \<longleftrightarrow> x = 0"
proof
  assume z: "(ucast x :: u32) = 0"
  show "x = 0"
  proof (rule bit_eqI)
    fix n assume "possible_bit TYPE(u16) n"
    then show "bit x n = bit (0 :: u16) n"
      using arg_cong [OF z, of "\<lambda>v. bit v n"] by (simp add: bit_simps)
  qed
qed simp

lemma hide_echo_flags: "c_lflag (hide_echo t) AND ECHO = 0"
  by (rule bit_eqI) (auto simp: hide_echo_def bit_simps)

lemma echo_hidden [simp]: "echo (hide_echo t) line = []"
  by (simp add: echo_def hide_echo_flags)

text \<open>
  The terminal information always satisfies what the PTY request demands: a non-empty
  terminal type and non-zero dimensions.
\<close>

lemma terminal_info_valid:
  "term_type (get_terminal_info os) \<noteq> [] \<and> columns (get_terminal_info os) \<noteq> 0 \<and>
   rows (get_terminal_info os) \<noteq> 0"
  by (auto simp: get_terminal_info_def DEFAULT_TERMINAL_TYPE_def DEFAULT_TERMINAL_COLUMNS_def
      DEFAULT_TERMINAL_ROWS_def Let_def ucast_u16_u32_eq_0 split: prod.splits option.splits)

text \<open>A terminal that can be read and set.\<close>

definition working_terminal :: "posix \<Rightarrow> bool" where
  "working_terminal os \<longleftrightarrow> settable os \<and> (\<forall>k. tcgetattr_result os k \<noteq> -1)"

lemma willing_terminal: "working_terminal willing_posix"
  by (simp add: working_terminal_def settable_def willing_posix_def)

lemma working_raw_mode:
  assumes "working_terminal os"
  shows "\<exists>w'. enable_raw_mode os w = (Inr (), w') \<and> (\<exists>s k t b. w' = w\<lparr>original_settings := s, tty_calls := k, tty := t, raw_mode_active := b\<rparr>)"
    and "\<exists>w'. restore os w = (Inr (), w') \<and> (\<exists>k t b. w' = w\<lparr>tty_calls := k, tty := t, raw_mode_active := b\<rparr>)"
proof -
  have "\<exists>s k t b. w = w\<lparr>original_settings := s, tty_calls := k, tty := t, raw_mode_active := b\<rparr>"
    by (intro exI [of _ "original_settings w"] exI [of _ "tty_calls w"] exI [of _ "tty w"] exI [of _ "raw_mode_active w"]) simp
  moreover have "\<exists>k t b. w = w\<lparr>tty_calls := k, tty := t, raw_mode_active := b\<rparr>"
    by (intro exI [of _ "tty_calls w"] exI [of _ "tty w"] exI [of _ "raw_mode_active w"]) simp
  ultimately show "\<exists>w'. enable_raw_mode os w = (Inr (), w') \<and> (\<exists>s k t b. w' = w\<lparr>original_settings := s, tty_calls := k, tty := t, raw_mode_active := b\<rparr>)"
    and "\<exists>w'. restore os w = (Inr (), w') \<and> (\<exists>k t b. w' = w\<lparr>tty_calls := k, tty := t, raw_mode_active := b\<rparr>)"
    using assms
    by (cases "raw_mode_active w"; force simp: enable_raw_mode_def restore_def bindC_def comp_simps working_terminal_def settable_def Let_def)+
qed

text \<open>
  C26: The password stays hidden and the terminal is set back. Whatever the system calls answer, \<open>read_hidden_input\<close> adds nothing but its
  prompt, and a newline when it returns, to what the user sees: the line typed is not echoed, although the terminal may echo
  before and after. If it returns, the password is the next line of standard input and the terminal is in the mode it was found in. If it
  throws, then too, unless the exception is that the system refused to set the mode back.
\<close>

theorem read_hidden_input_hides:
  "case read_hidden_input os prompt w of
     (Inr password, w') \<Rightarrow> cin w = password # cin w' \<and> tty w' = tty w \<and>
       console w' = console w @ [Cout prompt, Cout [CHR ''\<newline>'']]
   | (Inl e, w') \<Rightarrow> console w' = console w @ [Cout prompt] \<and>
       (\<exists>msg. e = Raised (Runtime_error msg) \<and>
          (tty w' = tty w \<or> (msg = ''Failed to reenable terminal echo'' \<and> \<not> settable os)))"
  by (auto simp: read_hidden_input_def bindC_def comp_simps settable_def Let_def split: list.splits)

theorem read_hidden_input_hides_witness:
  "\<exists>w w' :: machine. c_lflag (tty w) AND ECHO \<noteq> 0 \<and>
     read_hidden_input willing_posix ''Password: '' w = (Inr ''pw'', w') \<and> tty w' = tty w \<and>
     console w' = console w @ [Cout ''Password: '', Cout [CHR ''\<newline>'']]"
proof -
  let ?w = "idle_machine\<lparr>cin := [''pw''], tty := (tty idle_machine)\<lparr>c_lflag := 8\<rparr>\<rparr>"
  have f: "fst (read_hidden_input willing_posix ''Password: '' ?w) = Inr ''pw''"
    by (simp add: read_hidden_input_def bindC_def comp_simps willing_posix_def Let_def)
  then obtain w' where r: "read_hidden_input willing_posix ''Password: '' ?w = (Inr ''pw'', w')"
    by (cases "read_hidden_input willing_posix ''Password: '' ?w") simp
  have e: "c_lflag (tty ?w) AND ECHO \<noteq> 0" by (simp add: ECHO_def)
  from read_hidden_input_hides [where os = willing_posix and prompt = "''Password: ''" and w = ?w] r e show ?thesis
    by (intro exI [of _ ?w] exI [of _ w']) simp
qed

text \<open>
  A raw-mode session ends in the terminal mode it started from. Let raw mode be entered, any
  computation that does not itself change the terminal mode run, and raw mode be left, in the
  scope of the terminal object: when that scope has been left, by a normal return or by an exception
  at any point, the device has the settings from before.
\<close>

lemma raw_mode_session_restores:
  assumes "settable os" and "\<not> raw_mode_active w" and "keeps (saved_mode (tty w)) body"
    and "unwind (bindC (enable_raw_mode os) (\<lambda>_. bindC body (\<lambda>_. restore os)))
           (destroy_terminal os) w = (r, w')"
    and "\<not> halted r"
  shows "tty w' = tty w"
  using raw_mode.session_restores [OF assms(1) _ assms(3-5)] assms(2) by (simp add: saved_mode_def)

end
