(* ===== verification/SSH_Transport.thy ===== *)
theory SSH_Transport
  imports SSH_Encoding SSH_Socket SSH_Terminal
begin

section \<open>Packet transport (\<open>transport/transport.cpp\<close>)\<close>

text \<open>
  Binary packets: framing with random padding, the packet MAC over the sequence number and the
  plaintext, and AES-256-CTR encryption once the keys are installed. The fields of the object
  extend the record of the environment; a cipher context is a value of the type \<open>'ctx\<close> of the
  \<open>crypto\<close> parameter. The lemmas show what a sent packet looks like on the wire, that the receiving
  half recovers the payload from it, that an accepted packet carries a valid MAC, and that no
  input makes the receiver read outside its buffers.
\<close>

subsection \<open>State\<close>

record 'ctx transport = terminal +
  incoming_sequence :: u32
  outgoing_sequence :: u32
  outgoing_encryption_active :: bool
  incoming_encryption_active :: bool
  outgoing_cipher :: "'ctx option"
  incoming_cipher :: "'ctx option"
  outgoing_mac_key :: bytes
  incoming_mac_key :: bytes

definition packet_length_bytes :: nat where "packet_length_bytes = 4"
definition min_packet_size :: nat where "min_packet_size = 16"
definition max_packet_size :: nat where "max_packet_size = 35000"
definition block_size :: nat where "block_size = 8"
definition aes_block_size :: nat where "aes_block_size = 16"
definition min_padding_length :: nat where "min_padding_length = 4"
definition min_payload_bytes :: nat where "min_payload_bytes = 1"
definition padding_length_bytes :: nat where "padding_length_bytes = 1"

lemmas transport_consts =
  packet_length_bytes_def min_packet_size_def max_packet_size_def block_size_def aes_block_size_def
  min_padding_length_def min_payload_bytes_def padding_length_bytes_def

text \<open>The constructor's member initialisers; the key arrays are left uninitialised.\<close>

definition Transport :: "(('ctx, 'x) transport_scheme, unit) comp" where
  "Transport =
     modifyC (\<lambda>w. w\<lparr>incoming_sequence := 0, outgoing_sequence := 0,
       outgoing_encryption_active := False, incoming_encryption_active := False,
       outgoing_cipher := None, incoming_cipher := None\<rparr>)"

subsection \<open>Framing helpers\<close>

definition decode_packet_length :: "bytes \<Rightarrow> u32" where
  "decode_packet_length length_bytes =
     foldl (\<lambda>acc byte. push_bit bits_per_byte acc OR ucast byte) 0 length_bytes"

definition validate_packet_length :: "bool \<Rightarrow> u32 \<Rightarrow> unit result" where
  "validate_packet_length encryption_active packet_length =
     (if unat packet_length < min_packet_size - packet_length_bytes
      then throw ''SSH packet length is below minimum''
      else if unat packet_length + packet_length_bytes > max_packet_size
      then throw ''SSH packet length is above maximum''
      else if (unat packet_length + packet_length_bytes)
                mod (if encryption_active then aes_block_size else block_size) \<noteq> 0
      then throw ''SSH packet is not aligned''
      else Inr ())"

definition validate_packet_padding :: "u32 \<Rightarrow> byte \<Rightarrow> unit result" where
  "validate_packet_padding packet_length padding_length =
     (if unat padding_length < min_padding_length
      then throw ''SSH packet does not have the minimum amount of padding required''
      else if unat padding_length + padding_length_bytes + min_payload_bytes > unat packet_length
      then throw ''SSH packet does not contain the correct amount of padding''
      else Inr ())"

definition validate_payload_size :: "nat \<Rightarrow> unit result" where
  "validate_payload_size payload_size =
     (if payload_size < 1 then throw ''Payload cannot be empty'' else Inr ())"

definition calculate_padding_length :: "bool \<Rightarrow> nat \<Rightarrow> nat" where
  "calculate_padding_length encryption_active payload_size =
     (let b_size = (if encryption_active then aes_block_size else block_size);
          base = payload_size + packet_length_bytes + padding_length_bytes;
          total = min_padding_length + base;
          remainder = total mod b_size
      in min_padding_length + (b_size - remainder) mod b_size)"

definition encode_packet_length :: "u32 \<Rightarrow> bytes" where
  "encode_packet_length packet_length =
     map (\<lambda>i. ucast (drop_bit ((packet_length_bytes - 1 - i) * bits_per_byte) packet_length))
       [0..<packet_length_bytes]"

definition generate_padding :: "'ctx crypto \<Rightarrow> nat \<Rightarrow> ('x machine_scheme, bytes) comp" where
  "generate_padding lib padding_length = random_bytes lib padding_length"

subsection \<open>MAC and cipher\<close>

definition calculate_hmac :: "'ctx crypto \<Rightarrow> u32 \<Rightarrow> bytes \<Rightarrow> bytes \<Rightarrow> bytes result" where
  "calculate_hmac lib sequence_number plaintext_packet mac_key =
     (let input = encode_uint32 sequence_number @ plaintext_packet;
          (rc, result) = crypto_auth_hmacsha256 lib input mac_key
      in if rc \<noteq> 0 then throw ''Failed to calculate hmac value'' else Inr result)"

definition encrypt_outgoing_packet ::
  "'ctx crypto \<Rightarrow> bytes \<Rightarrow> (('ctx, 'x) transport_scheme, bytes) comp" where
  "encrypt_outgoing_packet lib plaintext_packet =
     bindC (getsC (\<lambda>w. (outgoing_encryption_active w, outgoing_cipher w))) (\<lambda>(active, cipher).
     if \<not> active then raiseC ''Encryption not active''
     else case cipher of
       None \<Rightarrow> raiseC ''Outgoing cipher not set''
     | Some ctx \<Rightarrow>
         if length plaintext_packet > int_max then raiseC ''Packet is too large for OpenSSL''
         else let (rc, ciphertext, ctx') = EVP_EncryptUpdate lib ctx plaintext_packet in
           bindC (modifyC (\<lambda>w. w\<lparr>outgoing_cipher := Some ctx'\<rparr>)) (\<lambda>_.
           if rc \<noteq> 1 then raiseC ''Failed to encrypt the packet''
           else if length ciphertext \<noteq> length plaintext_packet
           then raiseC ''AES-CTR output length was unexpected''
           else returnC ciphertext))"

definition decrypt_incoming_bytes ::
  "'ctx crypto \<Rightarrow> bytes \<Rightarrow> (('ctx, 'x) transport_scheme, bytes) comp" where
  "decrypt_incoming_bytes lib ciphertext =
     bindC (getsC (\<lambda>w. (incoming_encryption_active w, incoming_cipher w))) (\<lambda>(active, cipher).
     if \<not> active then raiseC ''Encryption not active''
     else case cipher of
       None \<Rightarrow> raiseC ''Incoming cipher not set''
     | Some ctx \<Rightarrow>
         if length ciphertext > int_max then raiseC ''Ciphertext is too large for OpenSSL''
         else let (rc, bytes, ctx') = EVP_DecryptUpdate lib ctx ciphertext in
           bindC (modifyC (\<lambda>w. w\<lparr>incoming_cipher := Some ctx'\<rparr>)) (\<lambda>_.
           if rc \<noteq> 1 then raiseC ''Failed to decrypt the packet''
           else if length bytes \<noteq> length ciphertext
           then raiseC ''AES-CTR length was unexpected''
           else returnC bytes))"

subsection \<open>Receiving\<close>

definition receive_plain :: "(('ctx, 'x) transport_scheme, bytes) comp" where
  "receive_plain =
     bindC (read_buffer packet_length_bytes packet_length_bytes) (\<lambda>length_bytes.
     let packet_length = decode_packet_length length_bytes in
     bindC (liftE (validate_packet_length False packet_length)) (\<lambda>_.
     bindC (read_buffer (unat packet_length) (unat packet_length)) (\<lambda>pbody.
     bindC (liftE (at_index pbody 0)) (\<lambda>padding_length.
     bindC (liftE (validate_packet_padding packet_length padding_length)) (\<lambda>_.
     let payload_length =
           size_minus (size_minus (unat packet_length) padding_length_bytes) (unat padding_length) in
     bindC (liftE (copy_n pbody 1 payload_length)) (\<lambda>payload.
     bindC (modifyC (\<lambda>w. w\<lparr>incoming_sequence := incoming_sequence w + 1\<rparr>)) (\<lambda>_.
     returnC payload)))))))"

definition receive_encrypted :: "'ctx crypto \<Rightarrow> (('ctx, 'x) transport_scheme, bytes) comp" where
  "receive_encrypted lib =
     bindC (read_buffer aes_block_size aes_block_size) (\<lambda>ciphertext.
     bindC (decrypt_incoming_bytes lib ciphertext) (\<lambda>plaintext_bytes.
     bindC (liftE (copy_array packet_length_bytes plaintext_bytes 0 4)) (\<lambda>length_bytes.
     let packet_length = decode_packet_length length_bytes in
     bindC (liftE (validate_packet_length True packet_length)) (\<lambda>_.
     let total_encrypted_bytes = (of_nat (packet_length_bytes + unat packet_length) :: u32);
         remaining_bytes = total_encrypted_bytes - of_nat aes_block_size in
     bindC (read_buffer (unat remaining_bytes) (unat remaining_bytes)) (\<lambda>remaining_ciphertext.
     bindC (decrypt_incoming_bytes lib remaining_ciphertext) (\<lambda>remaining_plaintext_bytes.
     let plaintext_packet = plaintext_bytes @ remaining_plaintext_bytes in
     if length plaintext_packet \<noteq> unat total_encrypted_bytes
     then raiseC ''Packet size is incorrect''
     else
       bindC (read_buffer 32 32) (\<lambda>server_mac.
       bindC (getsC (\<lambda>w. (incoming_sequence w, incoming_mac_key w))) (\<lambda>(seq, mac_key).
       bindC (liftE (calculate_hmac lib seq plaintext_packet mac_key)) (\<lambda>calculated_mac.
       if sodium_memcmp lib server_mac calculated_mac \<noteq> 0
       then raiseC ''SSH packet MAC verification failed''
       else
         bindC (liftE (at_index plaintext_packet packet_length_bytes)) (\<lambda>padding_length.
         bindC (liftE (validate_packet_padding packet_length padding_length)) (\<lambda>_.
         let payload_length =
               size_minus (size_minus (unat packet_length) padding_length_bytes) (unat padding_length) in
         bindC (liftE (copy_n plaintext_packet (packet_length_bytes + padding_length_bytes) payload_length)) (\<lambda>payload.
         bindC (modifyC (\<lambda>w. w\<lparr>incoming_sequence := incoming_sequence w + 1\<rparr>)) (\<lambda>_.
         returnC payload)))))))))))))"

definition receive_packet :: "'ctx crypto \<Rightarrow> (('ctx, 'x) transport_scheme, bytes) comp" where
  "receive_packet lib =
     bindC (getsC incoming_encryption_active) (\<lambda>active.
     if \<not> active then receive_plain else receive_encrypted lib)"

subsection \<open>Sending\<close>

definition send_packet :: "'ctx crypto \<Rightarrow> bytes \<Rightarrow> (('ctx, 'x) transport_scheme, unit) comp" where
  "send_packet lib payload =
     bindC (liftE (validate_payload_size (length payload))) (\<lambda>_.
     bindC (getsC outgoing_encryption_active) (\<lambda>active.
     let padding_length = calculate_padding_length active (length payload);
         packet_length = padding_length_bytes + length payload + padding_length in
     if packet_length + packet_length_bytes > max_packet_size
     then raiseC ''Packet size exceeds maximum''
     else if padding_length > uint8_max then raiseC ''Padding size exceeds maximum''
     else if packet_length > uint32_max then raiseC ''Packet length exceeds maximum''
     else
       let packet_length_arr = encode_packet_length (of_nat packet_length) in
       bindC (generate_padding lib padding_length) (\<lambda>padding.
       let packet = ((packet_length_arr @ [of_nat padding_length]) @ payload) @ padding in
       if length packet \<noteq> packet_length + packet_length_bytes
       then raiseC ''Internal: packet constructed incorrectly''
       else
         bindC (if active
                then bindC (getsC (\<lambda>w. (outgoing_sequence w, outgoing_mac_key w))) (\<lambda>(seq, mac_key).
                     bindC (liftE (calculate_hmac lib seq packet mac_key)) (\<lambda>hmac.
                     bindC (encrypt_outgoing_packet lib packet) (\<lambda>encrypted_packet.
                     write_exact (encrypted_packet @ hmac))))
                else write_exact packet) (\<lambda>_.
         modifyC (\<lambda>w. w\<lparr>outgoing_sequence := outgoing_sequence w + 1\<rparr>)))))"

text \<open>Every buffer has the size that is read into it.\<close>

lemma copy_length_bytes [simp]: "copy_array packet_length_bytes xs i 4 = copy_n xs i 4"
  by (simp add: packet_length_bytes_def)

lemmas receive_plain_code = receive_plain_def [unfolded read_buffer_full]

lemmas receive_encrypted_code = receive_encrypted_def [unfolded read_buffer_full copy_length_bytes]

subsection \<open>Installing keys and releasing contexts\<close>

definition ctx_new :: "'ctx crypto \<Rightarrow> ('x machine_scheme, 'ctx option) comp" where
  "ctx_new lib =
     bindC (getsC ctx_calls) (\<lambda>k.
     bindC (modifyC (\<lambda>w. w\<lparr>ctx_calls := Suc k\<rparr>)) (\<lambda>_.
     case EVP_CIPHER_CTX_new lib k of
       None \<Rightarrow> returnC None
     | Some ctx \<Rightarrow> bindC (modifyC (\<lambda>w. w\<lparr>ctx_live := ctx_live w + 1\<rparr>)) (\<lambda>_. returnC (Some ctx))))"

text \<open>\<open>EVP_CIPHER_CTX_free\<close> accepts a null pointer.\<close>

definition ctx_free :: "'ctx option \<Rightarrow> ('x machine_scheme, unit) comp" where
  "ctx_free c = (case c of None \<Rightarrow> returnC () | Some _ \<Rightarrow> modifyC (\<lambda>w. w\<lparr>ctx_live := ctx_live w - 1\<rparr>))"

definition enable_outgoing_encryption ::
  "'ctx crypto \<Rightarrow> bytes \<Rightarrow> bytes \<Rightarrow> bytes \<Rightarrow> (('ctx, 'x) transport_scheme, unit) comp" where
  "enable_outgoing_encryption lib iv encryption_key mac_key =
     bindC (ctx_new lib) (\<lambda>new_context. case new_context of
       None \<Rightarrow> raiseC ''Failed to create temporary cipher context''
     | Some ctx \<Rightarrow>
         let (rc, ctx') = EVP_EncryptInit_ex lib ctx encryption_key iv;
             r = (rc \<noteq> 0) in
         if r \<noteq> True
         then bindC (ctx_free (Some ctx')) (\<lambda>_. raiseC ''Failed to initialise encryption'')
         else bindC (getsC outgoing_cipher) (\<lambda>old.
              bindC (ctx_free old) (\<lambda>_.
              modifyC (\<lambda>w. w\<lparr>outgoing_cipher := Some ctx', outgoing_mac_key := mac_key,
                              outgoing_encryption_active := True\<rparr>))))"

definition enable_incoming_encryption ::
  "'ctx crypto \<Rightarrow> bytes \<Rightarrow> bytes \<Rightarrow> bytes \<Rightarrow> (('ctx, 'x) transport_scheme, unit) comp" where
  "enable_incoming_encryption lib iv encryption_key mac_key =
     bindC (ctx_new lib) (\<lambda>new_context. case new_context of
       None \<Rightarrow> raiseC ''Failed to create temporary cipher context''
     | Some ctx \<Rightarrow>
         let (rc, ctx') = EVP_DecryptInit_ex lib ctx encryption_key iv;
             r = (rc \<noteq> 0) in
         if r \<noteq> True
         then bindC (ctx_free (Some ctx')) (\<lambda>_. raiseC ''Failed to initialise encryption'')
         else bindC (getsC incoming_cipher) (\<lambda>old.
              bindC (ctx_free old) (\<lambda>_.
              modifyC (\<lambda>w. w\<lparr>incoming_cipher := Some ctx', incoming_mac_key := mac_key,
                              incoming_encryption_active := True\<rparr>))))"

definition destroy_transport :: "(('ctx, 'x) transport_scheme, unit) comp" where
  "destroy_transport =
     bindC (getsC outgoing_cipher) (\<lambda>out.
     bindC (ctx_free out) (\<lambda>_.
     bindC (getsC incoming_cipher) ctx_free))"

subsection \<open>Padding and lengths\<close>

lemma decode_packet_length_eq: "decode_packet_length = decode_uint32"
  by (simp add: fun_eq_iff decode_packet_length_def decode_uint32_def)

lemma encode_packet_length_eq: "encode_packet_length = encode_uint32"
  by (simp add: fun_eq_iff encode_packet_length_def encode_uint32_def uint32_bytes_def
      packet_length_bytes_def)

definition block :: "bool \<Rightarrow> nat" where
  "block active = (if active then 16 else 8)"

lemma padding_alignment:
  "(b::nat) > 0 \<Longrightarrow> (t + (b - t mod b) mod b) mod b = 0"
  by (metis add_diff_cancel_left' dvd_eq_mod_eq_0 le_add_diff_inverse mod_add_right_eq mod_less_divisor
      mod_mod_trivial mod_self mod_add_left_eq less_imp_le)

lemma calculate_padding_length_bounds:
  "4 \<le> calculate_padding_length a n" "calculate_padding_length a n < 4 + block a"
  by (auto simp: calculate_padding_length_def block_def transport_consts Let_def)

lemma calculate_padding_length_aligned: "(5 + n + calculate_padding_length a n) mod block a = 0"
  using padding_alignment [of "block a" "4 + (n + 4 + 1)"]
  by (cases a) (simp_all add: calculate_padding_length_def block_def transport_consts Let_def ac_simps)

subsection \<open>Frames\<close>

text \<open>
  The plaintext of a packet, and the payload and padding pairs that the receiver's checks admit
  (the flag says whether encryption is active).
\<close>

definition frame :: "bytes \<Rightarrow> bytes \<Rightarrow> bytes" where
  "frame payload padding =
     encode_uint32 (of_nat (1 + length payload + length padding)) @
     of_nat (length padding) # payload @ padding"

definition well_framed :: "bool \<Rightarrow> bytes \<Rightarrow> bytes \<Rightarrow> bool" where
  "well_framed active payload padding \<longleftrightarrow>
     payload \<noteq> [] \<and> 4 \<le> length padding \<and> length padding \<le> 255 \<and>
     16 \<le> 5 + length payload + length padding \<and> 5 + length payload + length padding \<le> 35000 \<and>
     (5 + length payload + length padding) mod block active = 0"

lemma length_frame [simp]: "length (frame payload padding) = 5 + length payload + length padding"
  by (simp add: frame_def)

lemma well_framed_length:
  assumes "well_framed a payload padding"
  shows "unat (of_nat (1 + length payload + length padding) :: u32) = 1 + length payload + length padding"
    and "unat (of_nat (length padding) :: byte) = length padding"
proof -
  from assms have "1 + length payload + length padding < 2 ^ 32" "length padding < 2 ^ 8"
    by (auto simp: well_framed_def)
  then show "unat (of_nat (1 + length payload + length padding) :: u32) = 1 + length payload + length padding"
    and "unat (of_nat (length padding) :: byte) = length padding"
    by (simp_all add: word_of_nat_eq_unat_iff del: of_nat_add of_nat_Suc)
qed

lemma well_framed_validates:
  assumes "well_framed a payload padding"
  shows "validate_packet_length a (of_nat (1 + length payload + length padding)) = Inr ()"
    and "validate_packet_padding (of_nat (1 + length payload + length padding)) (of_nat (length padding)) = Inr ()"
  using assms unfolding validate_packet_length_def validate_packet_padding_def
    well_framed_length [OF assms]
  by (auto simp: well_framed_def transport_consts block_def ac_simps)

lemma validated_frame:
  assumes len: "validate_packet_length a pl = Inr ()" and body: "length body = unat pl"
    and pad: "validate_packet_padding pl (body ! 0) = Inr ()"
    and payload: "payload = take (unat pl - 1 - unat (body ! 0)) (drop 1 body)"
  shows "\<exists>padding. encode_uint32 pl @ body = frame payload padding \<and> well_framed a payload padding"
proof (intro exI conjI)
  let ?padding = "drop (unat pl - 1 - unat (body ! 0)) (drop 1 body)"
  from len have bounds: "12 \<le> unat pl" "unat pl + 4 \<le> 35000" "(unat pl + 4) mod block a = 0"
    by (auto simp: validate_packet_length_def transport_consts block_def split: if_splits)
  from pad have p: "4 \<le> unat (body ! 0)" "unat (body ! 0) + 2 \<le> unat pl"
    by (auto simp: validate_packet_padding_def transport_consts split: if_splits)
  have lp: "length ?padding = unat (body ! 0)" using body p by simp
  have lpay: "length payload = unat pl - 1 - unat (body ! 0)" using payload body by simp
  then have total: "1 + length payload + length ?padding = unat pl" using lp p by simp
  obtain b bs where bs: "body = b # bs" using body bounds by (cases body) auto
  have "encode_uint32 (of_nat (1 + length payload + length ?padding)) = encode_uint32 pl"
    by (simp only: total word_unat_eq_iff) simp
  then show "encode_uint32 pl @ body = frame payload ?padding"
    using lp by (simp add: frame_def payload bs)
  show "well_framed a payload ?padding"
    using lp lpay total bounds p unat_byte_less [of "body ! 0"]
    by (auto simp: well_framed_def ac_simps)
qed

subsection \<open>Receiving a plain packet\<close>

lemma receive_plain_complete:
  assumes wf: "well_framed False payload padding"
    and rx: "pending (rx w) = frame payload padding @ rest"
  shows "\<exists>q. receive_plain w =
    (Inr payload, w\<lparr>rx := q, incoming_sequence := incoming_sequence w + 1\<rparr>) \<and> pending q = rest"
proof -
  let ?pl = "of_nat (1 + length payload + length padding) :: u32"
  let ?body = "of_nat (length padding) # payload @ padding"
  have "pending (rx w) = encode_uint32 ?pl @ ?body @ rest"
    using rx by (simp add: frame_def)
  from socket_stream.read_two [OF this] obtain w1 w2
    where r1: "read_exact 4 w = (Inr (encode_uint32 ?pl), w1)"
      and r2: "read_exact (length ?body) w1 = (Inr ?body, w2)"
      and "pending (rx w2) = rest" "\<exists>q. w2 = w\<lparr>rx := q\<rparr>" by auto
  then obtain q where w2: "w2 = w\<lparr>rx := q\<rparr>" "pending q = rest" by auto
  have len: "unat ?pl = length ?body" using well_framed_length(1) [OF wf] by simp
  have "receive_plain w = (Inr payload, w2\<lparr>incoming_sequence := incoming_sequence w2 + 1\<rparr>)"
    using r1 r2 well_framed_validates [OF wf] well_framed_length [OF wf]
    by (simp add: receive_plain_code comp_simps packet_length_bytes_def decode_packet_length_eq len
        padding_length_bytes_def Let_def del: of_nat_add of_nat_Suc)
  with w2 show ?thesis by (intro exI [of _ q]) simp
qed

lemma receive_plain_sound:
  assumes "receive_plain w = (Inr payload, w')"
  shows "\<exists>padding q. well_framed False payload padding \<and>
    w' = w\<lparr>rx := q, incoming_sequence := incoming_sequence w + 1\<rparr> \<and>
    pending (rx w) = frame payload padding @ pending q \<and> rx_size q < rx_size (rx w)"
proof -
  from assms obtain lb w1 body w2 where r1: "read_exact 4 w = (Inr lb, w1)"
    and vl: "validate_packet_length False (decode_uint32 lb) = Inr ()"
    and r2: "read_exact (unat (decode_uint32 lb)) w1 = (Inr body, w2)"
    and vp: "validate_packet_padding (decode_uint32 lb) (body ! 0) = Inr ()"
    and pay: "payload = take (size_minus (size_minus (unat (decode_uint32 lb)) 1) (unat (body ! 0))) (drop 1 body)"
    and w': "w' = w2\<lparr>incoming_sequence := incoming_sequence w2 + 1\<rparr>"
    by (auto simp: receive_plain_code result_iff transport_consts decode_packet_length_eq Let_def)
  from read_exact_Inr [OF r1] obtain q1 where q1: "w1 = w\<lparr>rx := q1\<rparr>" "pending (rx w) = lb @ pending q1"
    "length lb = 4" "rx_size q1 < rx_size (rx w)" by auto
  from read_exact_Inr [OF r2] obtain q2 where q2: "w2 = w1\<lparr>rx := q2\<rparr>" "pending q1 = body @ pending q2"
    "length body = unat (decode_uint32 lb)" "rx_size q2 \<le> rx_size q1" by (auto simp: q1)
  have "payload = take (unat (decode_uint32 lb) - 1 - unat (body ! 0)) (drop 1 body)"
    using pay vl vp by (auto simp: validate_packet_length_def validate_packet_padding_def transport_consts
        split: if_splits)
  from validated_frame [OF vl q2(3) vp this] obtain padding
    where f: "encode_uint32 (decode_uint32 lb) @ body = frame payload padding"
      "well_framed False payload padding" by blast
  have "pending (rx w) = frame payload padding @ pending q2"
    using f(1) q1 q2 by (simp add: encode_decode_uint32)
  with f(2) w' q1 q2 show ?thesis by (intro exI [of _ padding] exI [of _ q2]) auto
qed

subsection \<open>The cipher\<close>

lemma encrypt_outgoing_packet_ctr:
  assumes "ctr_documented lib stream" "outgoing_encryption_active w" "outgoing_cipher w = Some c"
    "length bs \<le> int_max"
  shows "\<exists>c'. encrypt_outgoing_packet lib bs w =
      (Inr (xor_stream (stream c) bs), w\<lparr>outgoing_cipher := Some c'\<rparr>) \<and>
    stream c' = (\<lambda>i. stream c (length bs + i))"
proof -
  from assms(1) obtain c' where "EVP_EncryptUpdate lib c bs = (1, xor_stream (stream c) bs, c')"
    and "stream c' = (\<lambda>i. stream c (length bs + i))"
    unfolding ctr_documented_def by blast
  with assms show ?thesis by (auto simp: encrypt_outgoing_packet_def comp_simps)
qed

lemma decrypt_incoming_bytes_ctr:
  assumes "ctr_documented lib stream" "incoming_encryption_active w" "incoming_cipher w = Some c"
    "length bs \<le> int_max"
  shows "\<exists>c'. decrypt_incoming_bytes lib bs w =
      (Inr (xor_stream (stream c) bs), w\<lparr>incoming_cipher := Some c'\<rparr>) \<and>
    stream c' = (\<lambda>i. stream c (length bs + i))"
proof -
  from assms(1) obtain c' where "EVP_DecryptUpdate lib c bs = (1, xor_stream (stream c) bs, c')"
    and "stream c' = (\<lambda>i. stream c (length bs + i))"
    unfolding ctr_documented_def by blast
  with assms show ?thesis by (auto simp: decrypt_incoming_bytes_def comp_simps)
qed

lemma decrypt_incoming_bytes_Inr:
  assumes "decrypt_incoming_bytes lib bs w = (Inr out, w')"
  shows "length out = length bs \<and> length bs \<le> int_max \<and> incoming_encryption_active w \<and>
    (\<exists>c c'. incoming_cipher w = Some c \<and> w' = w\<lparr>incoming_cipher := Some c'\<rparr> \<and>
       EVP_DecryptUpdate lib c bs = (1, out, c'))"
  using assms
  by (auto simp: decrypt_incoming_bytes_def result_iff split: option.splits prod.splits if_splits)

lemma decrypt_incoming_bytes_xor:
  assumes "ctr_documented lib stream" "incoming_cipher w = Some c"
    "decrypt_incoming_bytes lib bs w = (Inr out, w')"
  shows "\<exists>c'. out = xor_stream (stream c) bs \<and> w' = w\<lparr>incoming_cipher := Some c'\<rparr> \<and>
    stream c' = (\<lambda>i. stream c (length bs + i))"
proof -
  from decrypt_incoming_bytes_Inr [OF assms(3)] assms(2) obtain c'
    where "w' = w\<lparr>incoming_cipher := Some c'\<rparr>" "EVP_DecryptUpdate lib c bs = (1, out, c')" by auto
  with assms(1) show ?thesis unfolding ctr_documented_def by (metis prod.inject)
qed

definition packet_mac :: "'ctx crypto \<Rightarrow> u32 \<Rightarrow> bytes \<Rightarrow> bytes \<Rightarrow> bytes" where
  "packet_mac lib seq packet key = snd (crypto_auth_hmacsha256 lib (encode_uint32 seq @ packet) key)"

lemma calculate_hmac_documented:
  "mac_documented lib \<Longrightarrow> calculate_hmac lib seq packet key = Inr (packet_mac lib seq packet key)"
  by (simp add: calculate_hmac_def mac_documented_def packet_mac_def Let_def case_prod_beta)

lemma length_packet_mac: "mac_documented lib \<Longrightarrow> length (packet_mac lib seq packet key) = 32"
  by (simp add: mac_documented_def packet_mac_def)

subsection \<open>Receiving an encrypted packet\<close>

lemma take_xor_stream: "take n (xor_stream ks bs) = xor_stream ks (take n bs)"
  by (induction ks bs arbitrary: n rule: xor_stream.induct) (auto simp: take_Cons split: nat.split)

lemma drop_xor_stream: "drop n (xor_stream ks bs) = xor_stream (\<lambda>i. ks (n + i)) (drop n bs)"
  by (induction ks bs arbitrary: n rule: xor_stream.induct) (auto simp: drop_Cons split: nat.split)

lemma total_encrypted_bytes:
  assumes "validate_packet_length True pl = Inr ()"
  shows "unat (of_nat (4 + unat pl) :: u32) = 4 + unat pl"
    and "unat ((of_nat (4 + unat pl) :: u32) - of_nat 16) = unat pl - 12"
proof -
  from assms have b: "12 \<le> unat pl" "unat pl + 4 \<le> 35000"
    by (auto simp: validate_packet_length_def transport_consts split: if_splits)
  then show "unat (of_nat (4 + unat pl) :: u32) = 4 + unat pl"
    by (simp add: word_of_nat_eq_unat_iff del: of_nat_add)
  have "(of_nat (4 + unat pl) :: u32) - of_nat 16 = of_nat (4 + unat pl - 16)"
    using b by (simp add: of_nat_diff)
  also have "unat (of_nat (4 + unat pl - 16) :: u32) = 4 + unat pl - 16"
    using b by (simp add: word_of_nat_eq_unat_iff del: of_nat_add of_nat_diff)
  finally show "unat ((of_nat (4 + unat pl) :: u32) - of_nat 16) = unat pl - 12"
    by simp
qed

lemma receive_encrypted_complete:
  fixes w :: "('ctx, 'x) transport_scheme"
  assumes docs: "ctr_documented lib stream" "mac_documented lib"
    and act: "incoming_encryption_active w" "incoming_cipher w = Some c"
    and wf: "well_framed True payload padding"
    and rx: "pending (rx w) = xor_stream (stream c) (frame payload padding) @
      packet_mac lib (incoming_sequence w) (frame payload padding) (incoming_mac_key w) @ rest"
  shows "\<exists>q c'. receive_encrypted lib w = (Inr payload, w\<lparr>rx := q, incoming_cipher := Some c',
      incoming_sequence := incoming_sequence w + 1\<rparr>) \<and> pending q = rest \<and>
    stream c' = (\<lambda>i. stream c (length (frame payload padding) + i))"
proof -
  define P pl where "P = frame payload padding" and "pl = (of_nat (1 + length payload + length padding) :: u32)"
  define C mac where "C = xor_stream (stream c) P"
    and "mac = packet_mac lib (incoming_sequence w) P (incoming_mac_key w)"
  note def = P_def pl_def C_def mac_def
  have P16: "16 \<le> length P" and P35: "length P \<le> 35000" using wf by (auto simp: well_framed_def P_def)
  have l16: "length (take 16 C) = 16" "length (drop 16 C) = length P - 16" and l32: "length mac = 32"
    using P16 length_packet_mac [OF docs(2)] by (simp_all add: C_def mac_def)
  have i31: "length P - 16 \<le> int_max" using P35 by (simp add: int_max_def)
  have pl: "unat pl = length P - 4" using well_framed_length(1) [OF wf] by (simp add: P_def pl_def)
  have vl: "validate_packet_length True pl = Inr ()"
    and vp: "validate_packet_padding pl (of_nat (length padding)) = Inr ()"
    unfolding pl_def by (rule well_framed_validates [OF wf])+
  have "pending (rx w) = take 16 C @ drop 16 C @ mac @ rest" using rx by (simp add: def)
  from socket_stream.read_prefix [OF this, unfolded l16] obtain q1
    where r1: "read_exact 16 w = (Inr (take 16 C), w\<lparr>rx := q1\<rparr>)" and q1: "pending q1 = drop 16 C @ mac @ rest"
    by auto
  obtain c1 where d1: "decrypt_incoming_bytes lib (take 16 C) (w\<lparr>rx := q1\<rparr>) =
      (Inr (take 16 P), w\<lparr>rx := q1, incoming_cipher := Some c1\<rparr>)"
    and c1: "stream c1 = (\<lambda>i. stream c (16 + i))"
    using decrypt_incoming_bytes_ctr [OF docs(1), of "w\<lparr>rx := q1\<rparr>" c "take 16 C", unfolded l16] act
    by (auto simp: take_xor_stream int_max_def C_def)
  let ?w1 = "w\<lparr>rx := q1, incoming_cipher := Some c1\<rparr>"
  have "pending (rx ?w1) = drop 16 C @ mac @ rest" using q1 by simp
  from socket_stream.read_prefix [OF this, unfolded l16] obtain q2
    where r2: "read_exact (length P - 16) ?w1 = (Inr (drop 16 C), ?w1\<lparr>rx := q2\<rparr>)"
      and q2: "pending q2 = mac @ rest" by auto
  obtain c2 where d2: "decrypt_incoming_bytes lib (drop 16 C) (?w1\<lparr>rx := q2\<rparr>) =
      (Inr (drop 16 P), ?w1\<lparr>rx := q2, incoming_cipher := Some c2\<rparr>)"
    and c2: "stream c2 = (\<lambda>i. stream c (length P + i))"
    using decrypt_incoming_bytes_ctr [OF docs(1), of "?w1\<lparr>rx := q2\<rparr>" c1 "drop 16 C", unfolded l16] act P16 c1 i31
    by (auto simp: drop_xor_stream C_def add.assoc [symmetric])
  let ?w2 = "?w1\<lparr>rx := q2, incoming_cipher := Some c2\<rparr>"
  have "pending (rx ?w2) = mac @ rest" using q2 by simp
  from socket_stream.read_prefix [OF this, unfolded l32] obtain q3
    where r3: "read_exact 32 ?w2 = (Inr mac, ?w2\<lparr>rx := q3\<rparr>)" and q3: "pending q3 = rest" by auto
  have memcmp: "sodium_memcmp lib mac mac = 0" using docs(2) by (simp add: mac_documented_def)
  have P4: "take 4 (take 16 P) = encode_uint32 pl" by (simp add: P_def frame_def pl_def)
  have Pn: "P ! 4 = of_nat (length padding)" by (simp add: P_def frame_def nth_append)
  have Pd: "copy_n P 5 (size_minus (length P - 5) (length padding)) = Inr payload"
    by (simp add: P_def) (simp add: frame_def)
  have "receive_encrypted lib w = (Inr payload, ?w2\<lparr>rx := q3, incoming_sequence := incoming_sequence w + 1\<rparr>)"
    unfolding receive_encrypted_code
    using P16 pl total_encrypted_bytes [OF vl] well_framed_length(2) [OF wf] vl vp r1 r2 r3 d1 d2 memcmp Pn Pd P4
    by (simp add: comp_simps transport_consts decode_packet_length_eq calculate_hmac_documented [OF docs(2)]
        mac_def [symmetric] Let_def del: of_nat_add of_nat_Suc take_take)
  with q3 c2 show ?thesis by (intro exI [of _ q3] exI [of _ c2]) (simp add: P_def)
qed

lemma receive_encrypted_sound:
  fixes w :: "('ctx, 'x) transport_scheme"
  assumes docs: "ctr_documented lib stream" "mac_documented lib"
    and act: "incoming_cipher w = Some c"
    and rec: "receive_encrypted lib w = (Inr payload, w')"
  shows "\<exists>padding. well_framed True payload padding \<and>
    pending (rx w) = xor_stream (stream c) (frame payload padding) @
      packet_mac lib (incoming_sequence w) (frame payload padding) (incoming_mac_key w) @ pending (rx w')"
proof -
  from rec obtain ct1 w1 pt1 w2 ct2 w3 pt2 w4 mac w5 seq key pl where
    r1: "read_exact 16 w = (Inr ct1, w1)"
    and d1: "decrypt_incoming_bytes lib ct1 w1 = (Inr pt1, w2)"
    and pl: "pl = decode_uint32 (take 4 pt1)"
    and vl: "validate_packet_length True pl = Inr ()"
    and r2: "read_exact (unat ((of_nat (4 + unat pl) :: u32) - of_nat 16)) w2 = (Inr ct2, w3)"
    and d2: "decrypt_incoming_bytes lib ct2 w3 = (Inr pt2, w4)"
    and r3: "read_exact 32 w4 = (Inr mac, w5)"
    and sk: "seq = incoming_sequence w5" "key = incoming_mac_key w5"
    and cmp: "sodium_memcmp lib mac (packet_mac lib seq (pt1 @ pt2) key) = 0"
    and pad: "validate_packet_padding pl ((pt1 @ pt2) ! 4) = Inr ()"
    and payload: "payload = take (size_minus (size_minus (unat pl) 1) (unat ((pt1 @ pt2) ! 4))) (drop 5 (pt1 @ pt2))"
    and w': "rx w' = rx w5"
    unfolding receive_encrypted_code
    by (clarsimp simp: result_iff transport_consts decode_packet_length_eq
        calculate_hmac_documented [OF docs(2)] Let_def simp del: of_nat_add of_nat_Suc)
  from read_exact_Inr [OF r1] obtain q1 where q1: "w1 = w\<lparr>rx := q1\<rparr>" "pending (rx w) = ct1 @ pending q1"
    "length ct1 = 16" by auto
  from decrypt_incoming_bytes_xor [OF docs(1) _ d1, of c] act q1 obtain c1 where c1:
    "pt1 = xor_stream (stream c) ct1" "w2 = w\<lparr>rx := q1, incoming_cipher := Some c1\<rparr>"
    "stream c1 = (\<lambda>i. stream c (16 + i))" by auto
  from read_exact_Inr [OF r2] obtain q2 where q2: "w3 = w2\<lparr>rx := q2\<rparr>" "pending q1 = ct2 @ pending q2"
    "length ct2 = unat pl - 12" using total_encrypted_bytes [OF vl] c1 by auto
  from decrypt_incoming_bytes_xor [OF docs(1) _ d2, of c1] c1 q2 obtain c2 where c2:
    "pt2 = xor_stream (stream c1) ct2" "w4 = w\<lparr>rx := q2, incoming_cipher := Some c2\<rparr>" by auto
  from read_exact_Inr [OF r3] obtain q3 where q3: "w5 = w4\<lparr>rx := q3\<rparr>" "pending q2 = mac @ pending q3"
    "length mac = 32" using c2 by auto
  have mac: "mac = packet_mac lib (incoming_sequence w) (pt1 @ pt2) (incoming_mac_key w)"
    using cmp sk docs(2) q3 c2 length_packet_mac [OF docs(2)] by (simp add: mac_documented_def)
  have ct: "ct1 @ ct2 = xor_stream (stream c) (pt1 @ pt2)"
    using q1 c1 c2 by (simp add: xor_stream_append)
  have len: "12 \<le> unat pl" using vl by (simp add: validate_packet_length_def transport_consts split: if_splits)
  have l1: "length pt1 = 16" using c1 q1 by simp
  define body where "body = drop 4 (pt1 @ pt2)"
  have "body ! 0 = (pt1 @ pt2) ! 4" using l1 by (simp add: body_def nth_append)
  then have body: "length body = unat pl" "body ! 0 = (pt1 @ pt2) ! 4" "pt1 @ pt2 = encode_uint32 pl @ body"
    using len l1 c2 q2 by (simp_all add: body_def) (simp add: pl encode_decode_uint32)
  have "drop 5 (pt1 @ pt2) = drop 1 body" by (simp add: body_def del: drop_append)
  then have "payload = take (unat pl - 1 - unat (body ! 0)) (drop 1 body)"
    using payload pad len by (simp add: body(2) validate_packet_padding_def transport_consts split: if_splits)
  from validated_frame [OF vl body(1) _ this] pad body obtain padding
    where "pt1 @ pt2 = frame payload padding" "well_framed True payload padding" by auto
  with ct mac q1 q2 q3 w' show ?thesis by (intro exI [of _ padding]) auto
qed

subsection \<open>Sending a packet\<close>

lemma padding_fits: "calculate_padding_length a n \<le> uint8_max"
  using calculate_padding_length_bounds(2) [of a n] by (simp add: block_def uint8_max_def split: if_splits)

lemma send_well_framed:
  assumes "payload \<noteq> []" and "length padding = calculate_padding_length a (length payload)"
    and "5 + length payload + length padding \<le> 35000"
  shows "well_framed a payload padding"
proof -
  have al: "(5 + length payload + length padding) mod block a = 0"
    using calculate_padding_length_aligned [of "length payload" a] by (simp add: assms(2))
  have "0 < length payload" using assms(1) by simp
  then have "10 \<le> 5 + length payload + length padding"
    using calculate_padding_length_bounds(1) [of a "length payload"] assms(2) by linarith
  moreover have "8 dvd 5 + length payload + length padding"
    using al dvd_trans [of 8 16] by (cases a) (auto simp: block_def mod_eq_0_iff_dvd)
  ultimately have "16 \<le> 5 + length payload + length padding" by presburger
  with assms al show ?thesis
    using calculate_padding_length_bounds [of a "length payload"] padding_fits [of a "length payload"]
    by (simp add: well_framed_def uint8_max_def)
qed

lemma encrypt_outgoing_packet_Inr:
  assumes "encrypt_outgoing_packet lib bs w = (Inr out, w')"
  shows "length out = length bs \<and> outgoing_encryption_active w \<and>
    (\<exists>c c'. outgoing_cipher w = Some c \<and> w' = w\<lparr>outgoing_cipher := Some c'\<rparr> \<and>
       EVP_EncryptUpdate lib c bs = (1, out, c'))"
  using assms
  by (auto simp: encrypt_outgoing_packet_def result_iff split: option.splits prod.splits if_splits)

definition transmit :: "'ctx crypto \<Rightarrow> bytes \<Rightarrow> (('ctx, 'x) transport_scheme, unit) comp" where
  "transmit lib packet =
     bindC (getsC (\<lambda>w. (outgoing_encryption_active w, outgoing_sequence w, outgoing_mac_key w)))
       (\<lambda>(active, seq, mac_key).
     if active
     then bindC (liftE (calculate_hmac lib seq packet mac_key)) (\<lambda>hmac.
          bindC (encrypt_outgoing_packet lib packet) (\<lambda>encrypted_packet.
          write_exact (encrypted_packet @ hmac)))
     else write_exact packet)"

text \<open>
  \<open>send_packet\<close> in one step: refuse an empty or too large payload, frame it with fresh padding,
  transmit the frame, count it. The three internal consistency checks of the code never fire.
\<close>

lemma send_packet_run:
  fixes w :: "('ctx, 'x) transport_scheme"
  assumes "fills_buffers lib"
  shows "send_packet lib payload w =
    (let a = outgoing_encryption_active w; n = calculate_padding_length a (length payload) in
     if payload = [] then (Inl (Raised (Runtime_error ''Payload cannot be empty'')), w)
     else if 5 + length payload + n > 35000
     then (Inl (Raised (Runtime_error ''Packet size exceeds maximum'')), w)
     else bindC (transmit lib (frame payload (randombytes_buf lib (random_calls w) n)))
       (\<lambda>_. modifyC (\<lambda>w. w\<lparr>outgoing_sequence := outgoing_sequence w + 1\<rparr>))
       (w\<lparr>random_calls := Suc (random_calls w)\<rparr>))"
proof (cases "payload = [] \<or> 5 + length payload +
    calculate_padding_length (outgoing_encryption_active w) (length payload) > 35000")
  case True
  then show ?thesis
    by (auto simp: send_packet_def comp_simps validate_payload_size_def transport_consts Let_def Suc_le_eq)
next
  case False
  obtain a n where a: "outgoing_encryption_active w = a"
    and n: "calculate_padding_length a (length payload) = n" by blast
  let ?p = "randombytes_buf lib (random_calls w) n"
  have f: "encode_packet_length (of_nat (Suc (length payload + n))) @ of_nat n # payload @ ?p = frame payload ?p"
    using assms by (simp add: frame_def encode_packet_length_eq)
  have l: "length (encode_packet_length v) = 4" for v by (simp add: encode_packet_length_eq)
  have t: "bindC (transmit lib pk) k w1 = bindC (if a
       then bindC (getsC (\<lambda>w. (outgoing_sequence w, outgoing_mac_key w))) (\<lambda>(seq, mac_key).
            bindC (liftE (calculate_hmac lib seq pk mac_key)) (\<lambda>hmac.
            bindC (encrypt_outgoing_packet lib pk) (\<lambda>encrypted_packet.
            write_exact (encrypted_packet @ hmac))))
       else write_exact pk) k w1"
    if "outgoing_encryption_active w1 = a" for pk w1 and k :: "unit \<Rightarrow> (('ctx, 'x) transport_scheme, unit) comp"
    using that by (simp add: bindC_def transmit_def getsC_def)
  have "send_packet lib payload w =
      bindC (transmit lib (frame payload ?p))
        (\<lambda>_. modifyC (\<lambda>w. w\<lparr>outgoing_sequence := outgoing_sequence w + 1\<rparr>))
        (w\<lparr>random_calls := Suc (random_calls w)\<rparr>)"
    using False padding_fits [of a "length payload"] assms f a n
    by (subst t, simp add: a)
       (cases a; simp add: send_packet_def comp_simps validate_payload_size_def transport_consts
        Let_def Suc_le_eq uint32_max_def generate_padding_def l
        del: of_nat_add of_nat_Suc)
  with False a n show ?thesis by (simp add: Let_def)
qed

text \<open>
  The wire format of a packet: in the clear the frame, otherwise the frame under the key stream
  followed by the MAC.
\<close>

definition on_wire ::
  "'ctx crypto \<Rightarrow> ('ctx \<Rightarrow> nat \<Rightarrow> byte) \<Rightarrow> bool \<Rightarrow> 'ctx option \<Rightarrow> u32 \<Rightarrow> bytes \<Rightarrow> bytes \<Rightarrow> bytes" where
  "on_wire lib stream active cipher seq key packet =
     (if active
      then xor_stream (stream (the cipher)) packet @ packet_mac lib seq packet key
      else packet)"

lemma transmit_Inr:
  assumes docs: "ctr_documented lib stream" "mac_documented lib"
    and t: "transmit lib packet w = (Inr u, w')"
  shows "\<exists>q cipher. w' = w\<lparr>outgoing_cipher := cipher,
      tx := tx w @ on_wire lib stream (outgoing_encryption_active w) (outgoing_cipher w)
        (outgoing_sequence w) (outgoing_mac_key w) packet, tx_script := q\<rparr> \<and>
    (outgoing_encryption_active w \<longrightarrow> (\<exists>c c'. outgoing_cipher w = Some c \<and> cipher = Some c' \<and>
       stream c' = (\<lambda>i. stream c (length packet + i))))"
proof (cases "outgoing_encryption_active w")
  case False
  with t have "write_exact packet w = (Inr u, w')" by (simp add: transmit_def comp_simps)
  from write_exact_Inr [OF this] obtain q where "w' = w\<lparr>tx := tx w @ packet, tx_script := q\<rparr>" by blast
  with False show ?thesis
    by (intro exI [of _ q] exI [of _ "outgoing_cipher w"]) (simp add: on_wire_def)
next
  case True
  let ?mac = "packet_mac lib (outgoing_sequence w) packet (outgoing_mac_key w)"
  from t True obtain ct w1 where e: "encrypt_outgoing_packet lib packet w = (Inr ct, w1)"
    and wr: "write_exact (ct @ ?mac) w1 = (Inr u, w')"
    by (auto simp: transmit_def result_iff calculate_hmac_documented [OF docs(2)])
  from encrypt_outgoing_packet_Inr [OF e] obtain c c' where c: "outgoing_cipher w = Some c"
    "w1 = w\<lparr>outgoing_cipher := Some c'\<rparr>" "EVP_EncryptUpdate lib c packet = (1, ct, c')" by auto
  from docs(1) c(3) have s: "ct = xor_stream (stream c) packet" "stream c' = (\<lambda>i. stream c (length packet + i))"
    unfolding ctr_documented_def by (metis prod.inject)+
  from write_exact_Inr [OF wr] obtain q where "w' = w1\<lparr>tx := tx w1 @ ct @ ?mac, tx_script := q\<rparr>" by auto
  with True c s show ?thesis by (auto simp: on_wire_def)
qed

lemma send_packet_Inr:
  fixes w :: "('ctx, 'x) transport_scheme"
  assumes docs: "fills_buffers lib" "ctr_documented lib stream" "mac_documented lib"
    and sent: "send_packet lib payload w = (Inr u, w')"
  shows "\<exists>padding q cipher. well_framed (outgoing_encryption_active w) payload padding \<and>
    w' = w\<lparr>random_calls := Suc (random_calls w), outgoing_cipher := cipher,
      tx := tx w @ on_wire lib stream (outgoing_encryption_active w) (outgoing_cipher w)
        (outgoing_sequence w) (outgoing_mac_key w) (frame payload padding), tx_script := q,
      outgoing_sequence := outgoing_sequence w + 1\<rparr> \<and>
    (outgoing_encryption_active w \<longrightarrow> (\<exists>c c'. outgoing_cipher w = Some c \<and> cipher = Some c' \<and>
       stream c' = (\<lambda>i. stream c (length (frame payload padding) + i))))"
proof -
  let ?a = "outgoing_encryption_active w"
  define padding where
    "padding = randombytes_buf lib (random_calls w) (calculate_padding_length ?a (length payload))"
  have lp: "length padding = calculate_padding_length ?a (length payload)"
    using docs(1) by (simp add: padding_def)
  from sent have ne: "payload \<noteq> []" and le: "5 + length payload + length padding \<le> 35000"
    and b: "bindC (transmit lib (frame payload padding))
       (\<lambda>_. modifyC (\<lambda>w. w\<lparr>outgoing_sequence := outgoing_sequence w + 1\<rparr>))
       (w\<lparr>random_calls := Suc (random_calls w)\<rparr>) = (Inr u, w')"
    unfolding send_packet_run [OF docs(1)] Let_def lp by (auto simp: padding_def split: if_splits)
  from b obtain v w1 where t: "transmit lib (frame payload padding) (w\<lparr>random_calls := Suc (random_calls w)\<rparr>) = (Inr v, w1)"
    and w': "w' = w1\<lparr>outgoing_sequence := outgoing_sequence w1 + 1\<rparr>"
    by (auto simp: result_iff)
  from transmit_Inr [OF docs(2,3) t] obtain q cipher where "w1 = w\<lparr>random_calls := Suc (random_calls w),
      outgoing_cipher := cipher, tx := tx w @ on_wire lib stream ?a (outgoing_cipher w)
        (outgoing_sequence w) (outgoing_mac_key w) (frame payload padding), tx_script := q\<rparr>"
    "?a \<longrightarrow> (\<exists>c c'. outgoing_cipher w = Some c \<and> cipher = Some c' \<and>
       stream c' = (\<lambda>i. stream c (length (frame payload padding) + i)))" by auto
  with w' send_well_framed [OF ne lp le] show ?thesis
    by (intro exI [of _ padding] exI [of _ q] exI [of _ cipher]) simp
qed

subsection \<open>The link between two transports\<close>

text \<open>
  A sender and a receiver are in step when their sequence numbers agree and, once encryption is
  active, they share the MAC key and their contexts are at the same point of the key stream.
\<close>

definition in_step ::
  "('ctx \<Rightarrow> nat \<Rightarrow> byte) \<Rightarrow> ('ctx, 'x) transport_scheme \<Rightarrow> ('ctx, 'y) transport_scheme \<Rightarrow> bool" where
  "in_step stream s r \<longleftrightarrow>
     outgoing_sequence s = incoming_sequence r \<and>
     outgoing_encryption_active s = incoming_encryption_active r \<and>
     (outgoing_encryption_active s \<longrightarrow>
        outgoing_mac_key s = incoming_mac_key r \<and>
        (\<exists>c d. outgoing_cipher s = Some c \<and> incoming_cipher r = Some d \<and> stream c = stream d))"

lemma receive_packet_complete:
  assumes docs: "ctr_documented lib stream" "mac_documented lib"
    and wf: "well_framed (incoming_encryption_active r) payload padding"
    and cipher: "incoming_encryption_active r \<longrightarrow> incoming_cipher r = Some d"
    and rx: "pending (rx r) = on_wire lib stream (incoming_encryption_active r) (Some d)
      (incoming_sequence r) (incoming_mac_key r) (frame payload padding) @ rest"
  shows "\<exists>q d'. receive_packet lib r = (Inr payload, r\<lparr>rx := q, incoming_cipher := d',
      incoming_sequence := incoming_sequence r + 1\<rparr>) \<and> pending q = rest \<and>
    (incoming_encryption_active r \<longrightarrow> (\<exists>c'. d' = Some c' \<and>
      stream c' = (\<lambda>i. stream d (length (frame payload padding) + i))))"
proof (cases "incoming_encryption_active r")
  case False
  with rx wf receive_plain_complete [of payload padding r rest] obtain q where
    "receive_plain r = (Inr payload, r\<lparr>rx := q, incoming_sequence := incoming_sequence r + 1\<rparr>)" "pending q = rest"
    by (auto simp: on_wire_def)
  with False show ?thesis
    by (intro exI [of _ q] exI [of _ "incoming_cipher r"]) (simp add: receive_packet_def comp_simps)
next
  case True
  with receive_encrypted_complete [OF docs, of r d payload padding rest] rx wf cipher
  obtain q c' where "receive_encrypted lib r = (Inr payload, r\<lparr>rx := q, incoming_cipher := Some c',
      incoming_sequence := incoming_sequence r + 1\<rparr>)" "pending q = rest"
    "stream c' = (\<lambda>i. stream d (length (frame payload padding) + i))"
    by (auto simp: on_wire_def)
  with True show ?thesis
    by (intro exI [of _ q] exI [of _ "Some c'"]) (simp add: receive_packet_def comp_simps)
qed

lemma send_receive:
  assumes docs: "fills_buffers lib" "ctr_documented lib stream" "mac_documented lib"
    and step: "in_step stream s r"
    and sent: "send_packet lib payload s = (Inr u, s')" and rx: "pending (rx r) = drop (length (tx s)) (tx s') @ rest"
  shows "\<exists>r'. receive_packet lib r = (Inr payload, r') \<and> pending (rx r') = rest \<and> in_step stream s' r'"
proof -
  from send_packet_Inr [OF docs sent] obtain padding q cipher where
    wf: "well_framed (outgoing_encryption_active s) payload padding" and
    s': "s' = s\<lparr>random_calls := Suc (random_calls s), outgoing_cipher := cipher,
      tx := tx s @ on_wire lib stream (outgoing_encryption_active s) (outgoing_cipher s)
        (outgoing_sequence s) (outgoing_mac_key s) (frame payload padding), tx_script := q,
      outgoing_sequence := outgoing_sequence s + 1\<rparr>" and
    cipher: "outgoing_encryption_active s \<longrightarrow> (\<exists>c c'. outgoing_cipher s = Some c \<and> cipher = Some c' \<and>
       stream c' = (\<lambda>i. stream c (length (frame payload padding) + i)))" by blast
  obtain d where d: "incoming_encryption_active r \<longrightarrow> incoming_cipher r = Some d \<and> stream d = stream (the (outgoing_cipher s))"
    using step by (auto simp: in_step_def)
  have "pending (rx r) = on_wire lib stream (incoming_encryption_active r) (Some d)
      (incoming_sequence r) (incoming_mac_key r) (frame payload padding) @ rest"
    using rx step s' d by (auto simp: in_step_def on_wire_def)
  from receive_packet_complete [OF docs(2,3) _ _ this] wf step d obtain q' d' where
    r: "receive_packet lib r = (Inr payload, r\<lparr>rx := q', incoming_cipher := d',
      incoming_sequence := incoming_sequence r + 1\<rparr>)" "pending q' = rest"
    "incoming_encryption_active r \<longrightarrow> (\<exists>c'. d' = Some c' \<and>
      stream c' = (\<lambda>i. stream d (length (frame payload padding) + i)))"
    by (auto simp: in_step_def)
  have "in_step stream s' (r\<lparr>rx := q', incoming_cipher := d', incoming_sequence := incoming_sequence r + 1\<rparr>)"
    using step cipher r(3) d by (auto simp: in_step_def s')
  with r show ?thesis by auto
qed

text \<open>A sequence of messages sent, and a number of messages received, one after the other.\<close>

fun send_all :: "('m \<Rightarrow> ('s, unit) comp) \<Rightarrow> 'm list \<Rightarrow> ('s, unit) comp" where
  "send_all put [] = returnC ()"
| "send_all put (m # ms) = bindC (put m) (\<lambda>_. send_all put ms)"

fun recv_all :: "('r, 'm) comp \<Rightarrow> nat \<Rightarrow> ('r, 'm list) comp" where
  "recv_all get 0 = returnC []"
| "recv_all get (Suc n) = bindC get (\<lambda>m. bindC (recv_all get n) (\<lambda>ms. returnC (m # ms)))"

text \<open>The contract of a link: a message that was sent is the next one received.\<close>

locale packet_link =
  fixes send :: "'m \<Rightarrow> ('s, unit) comp"
    and recv :: "('r, 'm) comp"
    and link :: "'s \<Rightarrow> 'r \<Rightarrow> bool"
    and sent :: "'s \<Rightarrow> 'b list"
    and unread :: "'r \<Rightarrow> 'b list"
    and documented :: bool
  assumes sent_grows: "documented \<Longrightarrow> send m s = (Inr u, s') \<Longrightarrow> \<exists>bs. sent s' = sent s @ bs"
    and recv_sent:
      "documented \<Longrightarrow> link s r \<Longrightarrow> send m s = (Inr u, s') \<Longrightarrow>
        unread r = drop (length (sent s)) (sent s') @ rest \<Longrightarrow>
        \<exists>r'. recv r = (Inr m, r') \<and> unread r' = rest \<and> link s' r'"
begin

lemma send_all_grows: "documented \<Longrightarrow> send_all send ms s = (Inr u, s') \<Longrightarrow> \<exists>bs. sent s' = sent s @ bs"
proof (induction ms arbitrary: s)
  case Nil
  then show ?case by (simp add: comp_simps)
next
  case (Cons m ms)
  from Cons.prems(2) obtain v s1 where "send m s = (Inr v, s1)" "send_all send ms s1 = (Inr u, s')"
    by (auto simp: result_iff)
  with Cons.IH [OF Cons.prems(1)] sent_grows [OF Cons.prems(1)] show ?case by fastforce
qed

lemma recv_all_sent:
  assumes "documented"
  shows "link s r \<Longrightarrow> send_all send ms s = (Inr u, s') \<Longrightarrow> unread r = drop (length (sent s)) (sent s') @ rest \<Longrightarrow>
    \<exists>r'. recv_all recv (length ms) r = (Inr ms, r') \<and> unread r' = rest \<and> link s' r'"
proof (induction ms arbitrary: s r)
  case Nil
  then show ?case by (auto simp: comp_simps result_iff)
next
  case (Cons m ms)
  from Cons.prems(2) obtain v s1 where 1: "send m s = (Inr v, s1)" and 2: "send_all send ms s1 = (Inr u, s')"
    by (auto simp: result_iff)
  from sent_grows [OF assms 1] obtain b1 where b1: "sent s1 = sent s @ b1" by blast
  from send_all_grows [OF assms 2] obtain b2 where b2: "sent s' = sent s1 @ b2" by blast
  have "unread r = drop (length (sent s)) (sent s1) @ b2 @ rest"
    using Cons.prems(3) b1 b2 by simp
  from recv_sent [OF assms Cons.prems(1) 1 this] obtain r1
    where r1: "recv r = (Inr m, r1)" "unread r1 = b2 @ rest" "link s1 r1" by blast
  have "unread r1 = drop (length (sent s1)) (sent s') @ rest" using r1 b2 by simp
  from Cons.IH [OF r1(3) 2 this] r1(1) show ?case by (auto simp: comp_simps)
qed

end

lemma send_packet_grows:
  assumes "fills_buffers lib" "ctr_documented lib stream" "mac_documented lib" "send_packet lib payload s = (Inr u, s')"
  shows "\<exists>bs. tx s' = tx s @ bs"
  using send_packet_Inr [OF assms] by auto

interpretation transport_link: packet_link "send_packet lib" "receive_packet lib" "in_step stream" tx
  "\<lambda>r. pending (rx r)" "fills_buffers lib \<and> ctr_documented lib stream \<and> mac_documented lib" for lib stream
  by unfold_locales (blast intro: send_packet_grows, blast intro: send_receive)

subsection \<open>What the operations leave alone\<close>

lemma read_exact_no_memory_error: "fst (read_exact n w) \<noteq> Inl (Raised Memory_error)"
proof -
  have "fst (read_exact_loop n dst q) \<noteq> Inl (Raised Memory_error)" for dst q
  proof (induction n dst q rule: read_exact_loop.induct)
    case (1 len dst q)
    show ?case
      by (subst read_exact_loop.simps) (auto simp: 1 split: option.split read_result.split)
  qed
  from this [of "[]" "rx w"] show ?thesis by (auto simp: read_exact_def split: prod.splits)
qed

lemma safeC_read_exact [safeC_intro]: "safeC (read_exact n)"
  unfolding safeC_def by (metis fst_conv read_exact_no_memory_error)

lemma safeC_random_bytes [safeC_intro]: "safeC (random_bytes lib n)"
  by (simp add: safeC_def comp_simps)

lemma safeC_decrypt [safeC_intro]: "safeC (decrypt_incoming_bytes lib ct)"
  unfolding decrypt_incoming_bytes_def Let_def by (intro safeC_intro)

lemma safe_transport_checks [simp]:
  "safe (validate_packet_length a pl)" "safe (validate_packet_padding pl p)"
  "safe (calculate_hmac lib seq pk key)" "safe (validate_payload_size n)"
  by (auto simp: validate_packet_length_def validate_packet_padding_def calculate_hmac_def
      validate_payload_size_def Let_def split: prod.splits)

lemma validated_lengths:
  "validate_packet_length a pl = Inr u \<Longrightarrow> 12 \<le> unat pl \<and> unat pl \<le> 34996"
  "validate_packet_padding pl p = Inr u \<Longrightarrow> 4 \<le> unat p \<and> unat p + 2 \<le> unat pl"
  by (auto simp: validate_packet_length_def validate_packet_padding_def transport_consts split: if_splits)

lemma safe_at_index: "i < length xs \<Longrightarrow> safe (at_index xs i)"
  by simp

lemma safe_copy_n: "i + n \<le> length xs \<Longrightarrow> safe (copy_n xs i n)"
  by simp

lemma safeC_receive_plain [safeC_intro]: "safeC receive_plain"
  unfolding receive_plain_code Let_def
  by (intro safeC_intro safe_transport_checks safe_at_index safe_copy_n)
     (auto simp: result_iff packet_length_bytes_def padding_length_bytes_def
       dest!: read_exact_Inr validated_lengths)

lemma decrypt_length: "decrypt_incoming_bytes lib ct w = (Inr bs, w') \<Longrightarrow> length bs = length ct"
  using decrypt_incoming_bytes_Inr by blast

lemma unat_add_four: "unat pl \<le> 34996 \<Longrightarrow> unat (4 + pl :: u32) = 4 + unat pl"
  by (simp add: unat_word_ariths)

lemma safeC_receive_encrypted [safeC_intro]: "safeC (receive_encrypted lib)"
  unfolding receive_encrypted_code Let_def
  by (intro safeC_intro safe_transport_checks safe_at_index safe_copy_n)
     (auto simp: result_iff transport_consts unat_add_four
       dest!: read_exact_Inr validated_lengths decrypt_length)

lemma safeC_receive_packet [safeC_intro]: "safeC (receive_packet lib)"
  unfolding receive_packet_def by (intro safeC_intro)

lemma safeC_write_exact [safeC_intro]: "safeC (write_exact src)"
proof -
  have "fst (write_exact_loop s sent q) \<noteq> Inl (Raised Memory_error)" for s sent q
  proof (induction q arbitrary: s sent)
    case Nil
    then show ?case by (cases "s = []") (auto simp: write_loop_simps)
  next
    case (Cons ev q)
    then show ?case by (cases "s = []"; cases ev) (auto simp: write_loop_simps)
  qed
  from this [of src "[]"] show ?thesis
    by (auto simp: safeC_def write_exact_def split: prod.splits) (metis fst_conv)
qed

lemma safeC_encrypt [safeC_intro]: "safeC (encrypt_outgoing_packet lib pk)"
  unfolding encrypt_outgoing_packet_def Let_def by (intro safeC_intro)

lemma safeC_send_packet [safeC_intro]: "safeC (send_packet lib payload)"
  unfolding send_packet_def generate_padding_def Let_def by (intro safeC_intro safe_transport_checks)

text \<open>Frame rules: an assertion that only constrains fields an operation does not write is kept.\<close>

lemma keeps_read_exact: "(\<And>w q. I w \<Longrightarrow> I (w\<lparr>rx := q\<rparr>)) \<Longrightarrow> keeps I (read_exact n)"
  unfolding keeps_def using read_exact_frame by metis

lemma keeps_write_exact:
  "(\<And>w d q. I w \<Longrightarrow> I (w\<lparr>tx := tx w @ d, tx_script := q\<rparr>)) \<Longrightarrow> keeps I (write_exact src)"
  unfolding keeps_def using write_exact_frame by metis

lemma keeps_random_bytes: "(\<And>w k. I w \<Longrightarrow> I (w\<lparr>random_calls := k\<rparr>)) \<Longrightarrow> keeps I (random_bytes lib n)"
  by (simp add: keeps_def comp_simps)

lemma keeps_case_option [keeps_intro]:
  "keeps I m \<Longrightarrow> (\<And>x. keeps I (f x)) \<Longrightarrow> keeps I (case o' of None \<Rightarrow> m | Some x \<Rightarrow> f x)"
  by (cases o') auto

lemma keeps_case_prod [keeps_intro]: "(\<And>a b. keeps I (f a b)) \<Longrightarrow> keeps I (case p of (a, b) \<Rightarrow> f a b)"
  by (cases p) auto

lemma keeps_receive_packet:
  assumes "\<And>w q. I w \<Longrightarrow> I (w\<lparr>rx := q\<rparr>)" "\<And>w c. I w \<Longrightarrow> I (w\<lparr>incoming_cipher := c\<rparr>)"
    "\<And>w n. I w \<Longrightarrow> I (w\<lparr>incoming_sequence := n\<rparr>)"
  shows "keeps I (receive_packet lib)"
  unfolding receive_packet_def receive_plain_code receive_encrypted_code decrypt_incoming_bytes_def Let_def
  by (intro keeps_intro keeps_read_exact assms)

lemma keeps_send_packet:
  assumes "\<And>w k. I w \<Longrightarrow> I (w\<lparr>random_calls := k\<rparr>)" "\<And>w d q. I w \<Longrightarrow> I (w\<lparr>tx := tx w @ d, tx_script := q\<rparr>)"
    "\<And>w c. I w \<Longrightarrow> I (w\<lparr>outgoing_cipher := c\<rparr>)" "\<And>w n. I w \<Longrightarrow> I (w\<lparr>outgoing_sequence := n\<rparr>)"
  shows "keeps I (send_packet lib payload)"
  unfolding send_packet_def encrypt_outgoing_packet_def generate_padding_def Let_def
  by (intro keeps_intro keeps_write_exact keeps_random_bytes assms)

lemma decrypt_rx: "decrypt_incoming_bytes lib ct w = (r, w') \<Longrightarrow> rx w' = rx w"
  by (auto simp: decrypt_incoming_bytes_def bindC_def comp_simps
      split: option.splits prod.splits if_splits)

text \<open>A received packet has consumed events, so a loop over packets ends with the queue.\<close>

lemma receive_packet_consumes:
  assumes "receive_packet lib w = (Inr p, w')"
  shows "rx_size (rx w') < rx_size (rx w)"
proof (cases "incoming_encryption_active w")
  case False
  with assms receive_plain_sound [of w p w'] show ?thesis
    by (auto simp: receive_packet_def comp_simps)
next
  case True
  with assms have r: "receive_encrypted lib w = (Inr p, w')" by (simp add: receive_packet_def comp_simps)
  then obtain ct1 w1 pt1 w2 n ct2 w3 pt2 w4 mac w5 where
    "read_exact 16 w = (Inr ct1, w1)" "decrypt_incoming_bytes lib ct1 w1 = (Inr pt1, w2)"
    "read_exact n w2 = (Inr ct2, w3)" "decrypt_incoming_bytes lib ct2 w3 = (Inr pt2, w4)"
    "read_exact 32 w4 = (Inr mac, w5)" "rx w' = rx w5"
    unfolding receive_encrypted_code by (clarsimp simp: result_iff transport_consts Let_def)
  then show ?thesis by (auto dest!: read_exact_Inr decrypt_rx)
qed

lemma receive_packet_plain: "\<not> incoming_encryption_active w \<Longrightarrow> receive_packet lib w = receive_plain w"
  by (simp add: receive_packet_def comp_simps)

lemma received_length:
  assumes "receive_packet lib w = (Inr p, w')"
  shows "1 \<le> length p \<and> length p \<le> 34991"
  using assms
  by (auto simp: receive_packet_def receive_plain_code receive_encrypted_code result_iff Let_def
      transport_consts dest!: read_exact_Inr validated_lengths)

subsection \<open>Sending succeeds\<close>

lemma transmit_enough:
  assumes docs: "ctr_documented lib stream" "mac_documented lib"
    and "outgoing_encryption_active w \<longrightarrow> (\<exists>c. outgoing_cipher w = Some c)"
    and "length packet \<le> int_max" and "accepts_all (tx_script w) (length packet + (if outgoing_encryption_active w then 32 else 0))"
  shows "\<exists>w'. transmit lib packet w = (Inr (), w') \<and> tx_script w' = after_accepting (tx_script w)
    (length packet + (if outgoing_encryption_active w then 32 else 0))"
proof (cases "outgoing_encryption_active w")
  case False
  with assms(5) write_exact_enough [of w packet] show ?thesis by (auto simp: transmit_def comp_simps)
next
  case True
  with assms(3) obtain c where "outgoing_cipher w = Some c" by blast
  from encrypt_outgoing_packet_ctr [OF docs(1) True this assms(4)] obtain c'
    where e: "encrypt_outgoing_packet lib packet w = (Inr (xor_stream (stream c) packet), w\<lparr>outgoing_cipher := Some c'\<rparr>)" by blast
  have l: "length (xor_stream (stream c) packet @ packet_mac lib (outgoing_sequence w) packet (outgoing_mac_key w)) =
      length packet + 32" by (simp add: length_packet_mac [OF docs(2)])
  have "accepts_all (tx_script (w\<lparr>outgoing_cipher := Some c'\<rparr>))
      (length (xor_stream (stream c) packet @ packet_mac lib (outgoing_sequence w) packet (outgoing_mac_key w)))"
    using assms(5) True unfolding l by simp
  from write_exact_enough [OF this] True e show ?thesis
    unfolding l by (simp add: transmit_def comp_simps calculate_hmac_documented [OF docs(2)])
qed

lemma send_packet_enough:
  fixes w :: "('ctx, 'x) transport_scheme"
  assumes docs: "fills_buffers lib" "ctr_documented lib stream" "mac_documented lib"
    and "outgoing_encryption_active w \<longrightarrow> (\<exists>c. outgoing_cipher w = Some c)"
    and "payload \<noteq> []" and "length payload \<le> 34976"
    and "\<And>n. n \<le> 35032 \<Longrightarrow> accepts_all (tx_script w) n"
  shows "\<exists>w' n. send_packet lib payload w = (Inr (), w') \<and> 0 < n \<and> n \<le> 35032 \<and>
    tx_script w' = after_accepting (tx_script w) n"
proof -
  let ?a = "outgoing_encryption_active w" and ?w = "w\<lparr>random_calls := Suc (random_calls w)\<rparr>"
  define padding where
    "padding = randombytes_buf lib (random_calls w) (calculate_padding_length ?a (length payload))"
  have lp: "length padding = calculate_padding_length ?a (length payload)"
    using docs(1) by (simp add: padding_def)
  then have len: "5 + length payload + length padding \<le> 35000"
    using calculate_padding_length_bounds(2) [of ?a "length payload"] assms(6)
    by (simp add: block_def split: if_splits)
  define n where "n = length (frame payload padding) + (if ?a then 32 else 0)"
  have n: "0 < n" "n \<le> 35032" using len by (auto simp: n_def)
  have "\<exists>w'. transmit lib (frame payload padding) ?w = (Inr (), w') \<and>
      tx_script w' = after_accepting (tx_script ?w) n"
    using transmit_enough [OF docs(2,3), of ?w "frame payload padding"] len assms(4) assms(7) [OF n(2)]
    by (simp add: int_max_def n_def)
  then obtain w' where "transmit lib (frame payload padding) ?w = (Inr (), w')"
    "tx_script w' = after_accepting (tx_script w) n" by auto
  with assms(5) len n show ?thesis
    unfolding send_packet_run [OF docs(1)] Let_def
    by (intro exI [of _ "w'\<lparr>outgoing_sequence := outgoing_sequence w' + 1\<rparr>"] exI [of _ n])
       (simp add: comp_simps padding_def docs(1))
qed

text \<open>In particular a kernel that takes 35032 bytes at a time takes a whole packet at each call.\<close>

lemma send_packet_room:
  assumes "fills_buffers lib" "ctr_documented lib stream" "mac_documented lib"
    and "outgoing_encryption_active w \<longrightarrow> outgoing_cipher w \<noteq> None"
    and "payload \<noteq> []" "length payload \<le> 34976" and "tx_script w = Tx_accept 35032 # q"
  shows "\<exists>w'. send_packet lib payload w = (Inr (), w') \<and> tx_script w' = q"
proof -
  have "\<And>n. n \<le> 35032 \<Longrightarrow> accepts_all (tx_script w) n" by (simp add: assms(7))
  with send_packet_enough [OF assms(1-3), of w payload] assms(4-6) show ?thesis by (fastforce simp: assms(7))
qed

subsection \<open>Sequence numbers and cipher contexts\<close>

lemma keeps_transmit:
  assumes "\<And>w d q. I w \<Longrightarrow> I (w\<lparr>tx := tx w @ d, tx_script := q\<rparr>)" "\<And>w c. I w \<Longrightarrow> I (w\<lparr>outgoing_cipher := c\<rparr>)"
  shows "keeps I (transmit lib packet)"
  unfolding transmit_def encrypt_outgoing_packet_def Let_def
  by (intro keeps_intro keeps_write_exact assms)

lemma send_packet_sequence:
  assumes "fills_buffers lib"
  shows "hoare (\<lambda>w. outgoing_sequence w = n) (send_packet lib payload)
    (\<lambda>_ w. outgoing_sequence w = n + 1) (\<lambda>_ w. outgoing_sequence w = n)"
proof -
  have k: "keeps (\<lambda>w. outgoing_sequence w = n) (transmit lib packet)" for packet
    by (rule keeps_transmit) auto
  show ?thesis
    by (rule hoareI)
       (auto simp: send_packet_run [OF assms] Let_def bindC_eq_Inr bindC_eq_Inl comp_simps
         dest!: keepsD [OF k] split: if_splits)
qed

lemma receive_packet_sequence:
  "hoare (\<lambda>w. incoming_sequence w = n) (receive_packet lib)
    (\<lambda>_ w. incoming_sequence w = n + 1) (\<lambda>_ w. incoming_sequence w = n)"
  unfolding receive_packet_def receive_plain_code receive_encrypted_code decrypt_incoming_bytes_def Let_def
  by (intro hoare_commit hoare_keeps_bindC hoare_if hoare_stopC hoare_case_prod
      keeps_intro keeps_read_exact) auto

text \<open>
  The contexts that the object owns are exactly the live ones, beyond the \<open>n\<close> that existed before:
  \<open>enable_*\<close> replaces and releases, the destructor releases the rest.
\<close>

definition owned :: "('ctx, 'x) transport_scheme \<Rightarrow> int" where
  "owned w = of_bool (outgoing_cipher w \<noteq> None) + of_bool (incoming_cipher w \<noteq> None)"

definition no_leak :: "int \<Rightarrow> ('ctx, 'x) transport_scheme \<Rightarrow> bool" where
  "no_leak n w \<longleftrightarrow> ctx_live w = n + owned w"

lemma enable_encryption_no_leak:
  "keeps (no_leak n) (enable_outgoing_encryption lib iv key mac)"
  "keeps (no_leak n) (enable_incoming_encryption lib iv key mac)"
  by (auto simp: keeps_def no_leak_def owned_def enable_outgoing_encryption_def enable_incoming_encryption_def
      ctx_new_def ctx_free_def bindC_def comp_simps Let_def split: option.splits prod.splits)

lemma destroy_transport_releases: "no_leak n w \<Longrightarrow> ctx_live (snd (destroy_transport w)) = n"
  by (auto simp: no_leak_def owned_def destroy_transport_def ctx_free_def bindC_def comp_simps split: option.splits)

lemma cipher_no_leak:
  "keeps (no_leak n) (encrypt_outgoing_packet lib pk)" "keeps (no_leak n) (decrypt_incoming_bytes lib ct)"
  unfolding keeps_def encrypt_outgoing_packet_def decrypt_incoming_bytes_def
  by (auto simp: no_leak_def owned_def bindC_def comp_simps split: option.splits prod.splits)

lemma no_leak_frame [simp]:
  "no_leak n (w\<lparr>rx := q\<rparr>) = no_leak n w" "no_leak n (w\<lparr>tx := d, tx_script := q'\<rparr>) = no_leak n w"
  "no_leak n (w\<lparr>random_calls := k\<rparr>) = no_leak n w" "no_leak n (w\<lparr>incoming_sequence := i\<rparr>) = no_leak n w"
  "no_leak n (w\<lparr>outgoing_sequence := i\<rparr>) = no_leak n w"
  by (simp_all add: no_leak_def owned_def)

lemma packets_no_leak: "keeps (no_leak n) (send_packet lib payload)" "keeps (no_leak n) (receive_packet lib)"
  unfolding send_packet_def generate_padding_def receive_packet_def receive_plain_code receive_encrypted_code Let_def
  by (intro keeps_intro keeps_write_exact keeps_random_bytes keeps_read_exact cipher_no_leak; simp)+

text \<open>
  The contract by which the protocol steps of the client keep an assertion: they reach the connection only through
  packets, and the user through the console.
\<close>

locale packet_frame =
  fixes lib :: "'ctx crypto" and I :: "('ctx, 'x) transport_scheme \<Rightarrow> bool"
  assumes receive_keeps: "keeps I (receive_packet lib)"
    and send_keeps: "keeps I (send_packet lib payload)"
    and print_keeps: "keeps I (print out)"

interpretation leak_frame: packet_frame lib "no_leak n" for lib n
  by unfold_locales (rule packets_no_leak, rule packets_no_leak, simp add: keeps_def comp_simps no_leak_def owned_def)

interpretation descriptor_frame: packet_frame lib "\<lambda>w. closed_fds w = fds" for lib fds
  by unfold_locales (rule keeps_receive_packet, simp_all, rule keeps_send_packet, simp_all add: keeps_def comp_simps)

interpretation mode_frame: packet_frame lib "saved_mode t" for lib t
  by unfold_locales (rule keeps_receive_packet, simp_all add: saved_mode_def,
      rule keeps_send_packet, simp_all add: saved_mode_def keeps_def comp_simps)

subsection \<open>Sealed output\<close>

text \<open>
  What a sender that holds the MAC key \<open>key\<close>, the cipher context \<open>c\<close> and the sequence number \<open>n\<close> puts on the wire: encrypted
  packets, each followed by the MAC over its number and its plaintext. A packet may be cut short where the
  connection fails. The last two arguments are the context and the number after it.
\<close>

inductive sealed :: "'ctx crypto \<Rightarrow> bytes \<Rightarrow> 'ctx \<Rightarrow> u32 \<Rightarrow> bytes \<Rightarrow> 'ctx \<Rightarrow> u32 \<Rightarrow> bool"
  for lib :: "'ctx crypto" and key :: bytes and c :: 'ctx and n :: u32 where
  sealed_none: "sealed lib key c n [] c n"
| sealed_packet: "sealed lib key c n sent c1 n1 \<Longrightarrow> EVP_EncryptUpdate lib c1 packet = (1, ciphertext, c2) \<Longrightarrow>
    length ciphertext = length packet \<Longrightarrow> calculate_hmac lib n1 packet key = Inr hmac \<Longrightarrow>
    sealed lib key c n (sent @ ciphertext @ hmac) c2 (n1 + 1)"
| sealed_cut: "sealed lib key c n sent c1 n1 \<Longrightarrow> EVP_EncryptUpdate lib c1 packet = (1, ciphertext, c2) \<Longrightarrow>
    length ciphertext = length packet \<Longrightarrow> calculate_hmac lib n1 packet key = Inr hmac \<Longrightarrow> prefix d (ciphertext @ hmac) \<Longrightarrow>
    sealed lib key c n (sent @ d) c2 n1"
| sealed_failed: "sealed lib key c n sent c1 n1 \<Longrightarrow> EVP_EncryptUpdate lib c1 packet = (rc, ciphertext, c2) \<Longrightarrow>
    sealed lib key c n sent c2 n1"

text \<open>
  From the state \<open>v\<close> on, the connection has stayed encrypted in both directions under the keys of \<open>v\<close>, everything
  sent since is sealed with them, and the console has only grown.
\<close>

definition secured :: "'ctx crypto \<Rightarrow> ('ctx, 'x) transport_scheme \<Rightarrow> ('ctx, 'x) transport_scheme \<Rightarrow> bool" where
  "secured lib v w \<longleftrightarrow>
     outgoing_encryption_active w \<and> incoming_encryption_active w \<and>
     outgoing_mac_key w = outgoing_mac_key v \<and> incoming_mac_key w = incoming_mac_key v \<and>
     (\<exists>more. console w = console v @ more) \<and>
     (\<exists>c c' sent. outgoing_cipher v = Some c \<and> outgoing_cipher w = Some c' \<and> tx w = tx v @ sent \<and>
        sealed lib (outgoing_mac_key v) c (outgoing_sequence v) sent c' (outgoing_sequence w))"

lemma secured_start:
  "outgoing_encryption_active v \<Longrightarrow> incoming_encryption_active v \<Longrightarrow> outgoing_cipher v = Some c \<Longrightarrow> secured lib v v"
  by (auto simp: secured_def intro: sealed_none)

lemma secured_update [simp]:
  "secured lib v w \<Longrightarrow> secured lib v (w\<lparr>rx := q\<rparr>)" "secured lib v w \<Longrightarrow> secured lib v (w\<lparr>random_calls := k\<rparr>)"
  "secured lib v w \<Longrightarrow> secured lib v (w\<lparr>incoming_cipher := c\<rparr>)" "secured lib v w \<Longrightarrow> secured lib v (w\<lparr>incoming_sequence := i\<rparr>)"
  "secured lib v w \<Longrightarrow> secured lib v (w\<lparr>console := console w @ out\<rparr>)" "secured lib v w \<Longrightarrow> secured lib v (w\<lparr>tty := t\<rparr>)"
  "secured lib v w \<Longrightarrow> secured lib v (w\<lparr>tty_calls := k\<rparr>)" "secured lib v w \<Longrightarrow> secured lib v (w\<lparr>keyboard := q\<rparr>)"
  "secured lib v w \<Longrightarrow> secured lib v (w\<lparr>cin := ls, console := console w @ out\<rparr>)"
  "secured lib v w \<Longrightarrow> secured lib v (w\<lparr>original_settings := t\<rparr>)" "secured lib v w \<Longrightarrow> secured lib v (w\<lparr>raw_mode_active := b\<rparr>)"
  "secured lib v w \<Longrightarrow> secured lib v (w\<lparr>ctx_live := l\<rparr>)" "secured lib v w \<Longrightarrow> secured lib v (w\<lparr>closed_fds := fds\<rparr>)"
  by (auto simp: secured_def)

lemma secured_write:
  assumes s: "secured lib v w" and c: "outgoing_cipher w = Some c1"
    and e: "EVP_EncryptUpdate lib c1 packet = (1, ciphertext, c2)" "length ciphertext = length packet"
    and h: "calculate_hmac lib (outgoing_sequence w) packet (outgoing_mac_key w) = Inr hmac"
    and k: "write_exact (ciphertext @ hmac) (w\<lparr>outgoing_cipher := Some c2\<rparr>) = (r, w')"
  shows "secured lib v w'" and "r = Inr () \<Longrightarrow> secured lib v (w'\<lparr>outgoing_sequence := outgoing_sequence w' + 1\<rparr>)"
proof -
  from s obtain c0 sent where a: "outgoing_cipher v = Some c0" "tx w = tx v @ sent" "outgoing_mac_key w = outgoing_mac_key v"
    "sealed lib (outgoing_mac_key v) c0 (outgoing_sequence v) sent c1 (outgoing_sequence w)"
    using c by (auto simp: secured_def)
  from write_exact_frame [of "ciphertext @ hmac" "w\<lparr>outgoing_cipher := Some c2\<rparr>"] k obtain d q where
    w': "w' = w\<lparr>outgoing_cipher := Some c2, tx := tx w @ d, tx_script := q\<rparr>" "prefix d (ciphertext @ hmac)" by auto
  from sealed_cut [OF a(4) e h [unfolded a(3)] w'(2)] s a w' show "secured lib v w'" by (auto simp: secured_def)
  assume "r = Inr ()"
  with write_exact_Inr [of "ciphertext @ hmac" "w\<lparr>outgoing_cipher := Some c2\<rparr>"] k
  have "tx w' = tx w @ ciphertext @ hmac" by auto
  moreover have "tx w' = tx w @ d" by (simp add: w'(1))
  ultimately have "d = ciphertext @ hmac" by simp
  with sealed_packet [OF a(4) e h [unfolded a(3)]] s a w'
  show "secured lib v (w'\<lparr>outgoing_sequence := outgoing_sequence w' + 1\<rparr>)" by (auto simp: secured_def)
qed

lemma secured_encrypt:
  assumes "secured lib v w" "outgoing_cipher w = Some c1" "EVP_EncryptUpdate lib c1 packet = (rc, ciphertext, c2)"
  shows "secured lib v (w\<lparr>outgoing_cipher := Some c2\<rparr>)"
  using assms by (auto simp: secured_def intro: sealed_failed)

lemma keeps_secured_seal:
  "keeps (secured lib v) (bindC (bindC (getsC (\<lambda>w. (outgoing_sequence w, outgoing_mac_key w))) (\<lambda>(seq, mac_key).
     bindC (liftE (calculate_hmac lib seq packet mac_key)) (\<lambda>hmac.
     bindC (encrypt_outgoing_packet lib packet) (\<lambda>encrypted_packet.
     write_exact (encrypted_packet @ hmac))))) (\<lambda>_. modifyC (\<lambda>w. w\<lparr>outgoing_sequence := outgoing_sequence w + 1\<rparr>)))"
  (is "keeps _ ?m")
  unfolding keeps_def
proof (intro allI impI)
  fix w
  assume s: "secured lib v w"
  then obtain c1 where c: "outgoing_encryption_active w" "outgoing_cipher w = Some c1" by (auto simp: secured_def)
  obtain rc ciphertext c2 where e: "EVP_EncryptUpdate lib c1 packet = (rc, ciphertext, c2)" by (cases "EVP_EncryptUpdate lib c1 packet")
  note f = secured_encrypt [OF s c(2) e]
  show "secured lib v (snd (?m w))"
  proof (cases "calculate_hmac lib (outgoing_sequence w) packet (outgoing_mac_key w)")
    case (Inl x)
    with s show ?thesis by (simp add: bindC_def comp_simps)
  next
    case (Inr hmac)
    obtain r w' where k: "write_exact (ciphertext @ hmac) (w\<lparr>outgoing_cipher := Some c2\<rparr>) = (r, w')" by fastforce
    show ?thesis
    proof (cases "length packet \<le> int_max \<and> rc = 1 \<and> length ciphertext = length packet")
      case True
      with e have "EVP_EncryptUpdate lib c1 packet = (1, ciphertext, c2)" "length ciphertext = length packet" by simp_all
      note w = secured_write [OF s c(2) this Inr k]
      show ?thesis using True w c e Inr k by (cases r) (simp_all add: encrypt_outgoing_packet_def bindC_def comp_simps)
    next
      case False
      with s f c e Inr show ?thesis by (auto simp: encrypt_outgoing_packet_def bindC_def comp_simps)
    qed
  qed
qed

lemma keeps_secured_send: "keeps (secured lib v) (send_packet lib payload)"
  unfolding send_packet_def Let_def generate_padding_def
proof (rule keeps_bindC [OF keeps_liftE], rule keeps_getsC_bind, goal_cases)
  case (1 _ w)
  then have "outgoing_encryption_active w = True" by (simp add: secured_def)
  then show ?case by (simp only: if_True) (intro keeps_if keeps_stopC keeps_bindC [OF keeps_random_bytes] keeps_secured_seal; simp)
qed

interpretation secured_frame: packet_frame lib "secured lib v" for lib v
  by unfold_locales (rule keeps_receive_packet, simp_all add: keeps_secured_send, simp add: keeps_def comp_simps)

text \<open>A history of calls on one transport object, continued after a call that throws.\<close>

datatype transport_call =
  Send bytes | Receive | Key_outgoing bytes bytes bytes | Key_incoming bytes bytes bytes

fun perform :: "'ctx crypto \<Rightarrow> transport_call \<Rightarrow> ('ctx, 'x) transport_scheme \<Rightarrow> ('ctx, 'x) transport_scheme" where
  "perform lib (Send payload) w = snd (send_packet lib payload w)"
| "perform lib Receive w = snd (receive_packet lib w)"
| "perform lib (Key_outgoing iv key mac) w = snd (enable_outgoing_encryption lib iv key mac w)"
| "perform lib (Key_incoming iv key mac) w = snd (enable_incoming_encryption lib iv key mac w)"

lemma perform_no_leak: "no_leak n w \<Longrightarrow> no_leak n (perform lib c w)"
  by (cases c) (simp_all add: keeps_snd [OF packets_no_leak(1)] keeps_snd [OF packets_no_leak(2)]
      keeps_snd [OF enable_encryption_no_leak(1)] keeps_snd [OF enable_encryption_no_leak(2)])

lemma history_no_leak: "no_leak n w \<Longrightarrow> no_leak n (fold (perform lib) calls w)"
  by (induction calls arbitrary: w) (auto intro: perform_no_leak)

subsection \<open>Properties\<close>

text \<open>
  C24: The padding is what the packet format demands: at least four bytes, few enough for the
  one-byte length field, the packet a multiple of the block size (8, or 16 with
  encryption), and no shorter padding of at least four bytes would do.
\<close>

theorem padding_minimal:
  "4 \<le> calculate_padding_length active n \<and> calculate_padding_length active n \<le> 255 \<and>
   (4 + 1 + n + calculate_padding_length active n) mod (if active then 16 else 8) = 0 \<and>
   (\<forall>p. 4 \<le> p \<longrightarrow> (4 + 1 + n + p) mod (if active then 16 else 8) = 0 \<longrightarrow> calculate_padding_length active n \<le> p)"
proof (intro conjI allI impI)
  let ?c = "calculate_padding_length active n"
  show "4 \<le> ?c" "?c \<le> 255"
    using calculate_padding_length_bounds [of active n] by (auto simp: block_def split: if_splits)
  show al: "(4 + 1 + n + ?c) mod (if active then 16 else 8) = 0"
    using calculate_padding_length_aligned [of n active] by (simp add: block_def)
  fix p assume p: "4 \<le> p" "(4 + 1 + n + p) mod (if active then 16 else 8) = 0"
  have "?c < 4 + (if active then 16 else 8)"
    using calculate_padding_length_bounds(2) [of active n] by (simp add: block_def)
  with p al show "?c \<le> p" by (cases active; simp; presburger)
qed

theorem padding_minimal_witness:
  "(4 + 1 + 1 + 10) mod (if True then 16 else 8) = (0::nat) \<and> calculate_padding_length True 1 \<le> 10"
  using padding_minimal [of True 1] by simp

text \<open>
  C8: Two transports that are in step stay in step, and packets arrive complete and in order. If a
  sequence of payloads has been sent and the bytes written so far are what the peer has to
  read (cut into pieces in any way, followed by anything), then the peer receives exactly this
  sequence, in the clear as under AES-CTR and HMAC, and both sides are again in step.
\<close>

theorem packets_arrive_in_order:
  fixes s :: "('ctx, 'x) transport_scheme" and r :: "('ctx, 'y) transport_scheme"
  assumes "fills_buffers lib" and "ctr_documented lib stream" and "mac_documented lib"
    and "in_step stream s r"
    and "send_all (send_packet lib) payloads s = (Inr (), s')"
    and "pending (rx r) = drop (length (tx s)) (tx s') @ rest"
  shows "\<exists>r'. recv_all (receive_packet lib) (length payloads) r = (Inr payloads, r') \<and>
    pending (rx r') = rest \<and> in_step stream s' r'"
  using transport_link.recv_all_sent [OF _ assms(4-6)] assms(1-3) by blast

definition sample_transport :: "bool \<Rightarrow> nat transport" where
  "sample_transport active =
     \<lparr>rx = [], tx_script = [Tx_accept 35032, Tx_accept 35032], tx = [],
      keyboard = [], cin = [], console = [], files = Map.empty, tty = tty idle_machine, tty_calls = 0,
      random_calls = 0, ctx_calls = 2, ctx_live = (if active then 2 else 0), closed_fds = [],
      original_settings = tty idle_machine, raw_mode_active = False,
      incoming_sequence = 3, outgoing_sequence = 3,
      outgoing_encryption_active = active, incoming_encryption_active = active,
      outgoing_cipher = (if active then Some 0 else None),
      incoming_cipher = (if active then Some 0 else None),
      outgoing_mac_key = replicate 32 1, incoming_mac_key = replicate 32 1\<rparr>"

lemma pending_single [simp]: "pending [Rx_data bs] = bs"
  by simp

theorem packets_arrive_in_order_witness:
  "\<exists>s' r'. in_step (\<lambda>c i. of_nat (c + i)) (sample_transport True)
      (sample_transport True\<lparr>rx := [Rx_data (tx s')]\<rparr>) \<and>
     send_all (send_packet sample_crypto) [[21], [5, 6]] (sample_transport True) = (Inr (), s') \<and>
     recv_all (receive_packet sample_crypto) (length [[21], [5, 6 :: byte]])
       (sample_transport True\<lparr>rx := [Rx_data (tx s')]\<rparr>) = (Inr [[21], [5, 6]], r')"
proof -
  let ?s = "sample_transport True"
  note docs = sample_crypto_documented(1,3,2)
  from send_packet_room [OF docs, of ?s "[21]"] obtain s1
    where s1: "send_packet sample_crypto [21] ?s = (Inr (), s1)" "tx_script s1 = [Tx_accept 35032]"
    by (auto simp: sample_transport_def)
  from send_packet_Inr [OF docs s1(1)]
  have "outgoing_encryption_active s1 \<longrightarrow> outgoing_cipher s1 \<noteq> None" by (auto simp: sample_transport_def)
  from send_packet_room [OF docs this _ _ s1(2), of "[5, 6]"] obtain s'
    where "send_packet sample_crypto [5, 6] s1 = (Inr (), s')" by auto
  with s1 have s': "send_all (send_packet sample_crypto) [[21], [5, 6]] ?s = (Inr (), s')"
    by (simp add: comp_simps)
  let ?r = "?s\<lparr>rx := [Rx_data (tx s')]\<rparr>"
  have step: "in_step (\<lambda>c i. of_nat (c + i)) ?s ?r"
    by (simp add: in_step_def sample_transport_def)
  have "pending (rx ?r) = drop (length (tx ?s)) (tx s') @ []"
    by (simp add: sample_transport_def)
  from packets_arrive_in_order [OF docs step s' this] step s'
  show ?thesis by blast
qed

text \<open>
  C23: Without encryption, \<open>receive_packet\<close> accepts exactly the packets of the protocol: it returns
  \<open>payload\<close> and leaves \<open>rest\<close> unread if and only if the incoming stream starts with a frame around
  that payload, with at least four padding bytes, an aligned total length between 16 and
  35000 bytes and a non-empty payload. It then counts the packet and changes nothing else.
\<close>

theorem receive_plain_exact:
  assumes "\<not> incoming_encryption_active w"
  shows "(\<exists>q. receive_packet lib w = (Inr payload, w\<lparr>rx := q, incoming_sequence := incoming_sequence w + 1\<rparr>) \<and>
      pending q = rest) \<longleftrightarrow>
    (\<exists>padding. well_framed False payload padding \<and> pending (rx w) = frame payload padding @ rest)"
proof -
  have r: "receive_packet lib w = receive_plain w" using assms by (rule receive_packet_plain)
  show ?thesis
    unfolding r
  proof
    assume "\<exists>q. receive_plain w = (Inr payload, w\<lparr>rx := q, incoming_sequence := incoming_sequence w + 1\<rparr>) \<and> pending q = rest"
    then obtain q where q: "receive_plain w = (Inr payload, w\<lparr>rx := q, incoming_sequence := incoming_sequence w + 1\<rparr>)"
      "pending q = rest" by blast
    from receive_plain_sound [OF q(1)] obtain padding q' where "well_framed False payload padding"
      "pending (rx w) = frame payload padding @ pending q'"
      "w\<lparr>rx := q, incoming_sequence := incoming_sequence w + 1\<rparr> = w\<lparr>rx := q', incoming_sequence := incoming_sequence w + 1\<rparr>"
      by blast
    moreover from this(3) have "q = q'" by (drule_tac arg_cong [where f = rx]) simp
    ultimately show "\<exists>padding. well_framed False payload padding \<and> pending (rx w) = frame payload padding @ rest"
      using q(2) by blast
  qed (use receive_plain_complete in blast)
qed

theorem receive_plain_exact_witness:
  "\<not> incoming_encryption_active (sample_transport False\<lparr>rx := [Rx_data (frame [21] (replicate 10 0))]\<rparr>) \<and>
   well_framed False [21] (replicate 10 0) \<and>
   fst (receive_packet sample_crypto (sample_transport False\<lparr>rx := [Rx_data (frame [21] (replicate 10 0))]\<rparr>)) = Inr [21]"
proof -
  let ?w = "sample_transport False\<lparr>rx := [Rx_data (frame [21] (replicate 10 0))]\<rparr>"
  have a: "\<not> incoming_encryption_active ?w" by (simp add: sample_transport_def)
  have wf: "well_framed False [21] (replicate 10 0)" by (simp add: well_framed_def block_def)
  have "pending (rx ?w) = frame [21] (replicate 10 0) @ []" by simp
  then show ?thesis
    using receive_plain_exact [OF a, of sample_crypto "[21]" "[]"] wf a by fastforce
qed

text \<open>
  C7: With encryption, \<open>receive_packet\<close> returns \<open>payload\<close> and leaves \<open>rest\<close> unread if and only if the
  stream starts with the encryption of a well-formed frame around that payload, followed by the
  HMAC, under the session's key, of the current sequence number and the whole plaintext
  packet. A stream that departs from this in any bit is not accepted as that packet.
\<close>

theorem receive_encrypted_exact:
  assumes "ctr_documented lib stream" and "mac_documented lib"
    and "incoming_encryption_active w" and "incoming_cipher w = Some c"
  shows "(\<exists>w'. receive_packet lib w = (Inr payload, w') \<and> pending (rx w') = rest) \<longleftrightarrow>
    (\<exists>padding. well_framed True payload padding \<and>
       pending (rx w) = xor_stream (stream c) (frame payload padding) @
         snd (crypto_auth_hmacsha256 lib
           (encode_uint32 (incoming_sequence w) @ frame payload padding) (incoming_mac_key w)) @ rest)"
proof -
  have r: "receive_packet lib w = receive_encrypted lib w" using assms(3) by (simp add: receive_packet_def comp_simps)
  show ?thesis
    unfolding r packet_mac_def [symmetric]
  proof
    assume "\<exists>w'. receive_encrypted lib w = (Inr payload, w') \<and> pending (rx w') = rest"
    then show "\<exists>padding. well_framed True payload padding \<and>
        pending (rx w) = xor_stream (stream c) (frame payload padding) @
          packet_mac lib (incoming_sequence w) (frame payload padding) (incoming_mac_key w) @ rest"
      using receive_encrypted_sound [OF assms(1,2,4)] by blast
  next
    assume "\<exists>padding. well_framed True payload padding \<and>
        pending (rx w) = xor_stream (stream c) (frame payload padding) @
          packet_mac lib (incoming_sequence w) (frame payload padding) (incoming_mac_key w) @ rest"
    then obtain padding q c' where
      "receive_encrypted lib w = (Inr payload, w\<lparr>rx := q, incoming_cipher := Some c',
        incoming_sequence := incoming_sequence w + 1\<rparr>)" "pending q = rest"
      using receive_encrypted_complete [OF assms] by blast
    then show "\<exists>w'. receive_encrypted lib w = (Inr payload, w') \<and> pending (rx w') = rest" by auto
  qed
qed

definition sample_ciphertext :: bytes where
  "sample_ciphertext = xor_stream (\<lambda>i. of_nat (0 + i)) (frame [21] (replicate 10 0)) @
     snd (crypto_auth_hmacsha256 sample_crypto (encode_uint32 3 @ frame [21] (replicate 10 0)) (replicate 32 1))"

theorem receive_encrypted_exact_witness:
  "ctr_documented sample_crypto (\<lambda>c i. of_nat (c + i)) \<and> mac_documented sample_crypto \<and>
   well_framed True [21] (replicate 10 0) \<and>
   fst (receive_packet sample_crypto (sample_transport True\<lparr>rx := [Rx_data sample_ciphertext]\<rparr>)) = Inr [21]"
proof -
  let ?w = "sample_transport True\<lparr>rx := [Rx_data sample_ciphertext]\<rparr>"
  have a: "incoming_encryption_active ?w" "incoming_cipher ?w = Some 0" "incoming_sequence ?w = 3"
    "incoming_mac_key ?w = replicate 32 1" by (simp_all add: sample_transport_def)
  have wf: "well_framed True [21] (replicate 10 0)" by (simp add: well_framed_def block_def)
  have p: "pending (rx ?w) = xor_stream (\<lambda>i. of_nat (0 + i)) (frame [21] (replicate 10 0)) @
      snd (crypto_auth_hmacsha256 sample_crypto
        (encode_uint32 (incoming_sequence ?w) @ frame [21] (replicate 10 0)) (incoming_mac_key ?w)) @ []"
    unfolding a by (simp add: sample_ciphertext_def)
  have "\<exists>w'. receive_packet sample_crypto ?w = (Inr [21], w') \<and> pending (rx w') = []"
    by (rule receive_encrypted_exact [OF sample_crypto_documented(3,2) a(1,2), THEN iffD2])
       (use wf p in blast)
  with wf sample_crypto_documented show ?thesis by auto
qed

text \<open>
  Whatever the peer sends, and whatever the cryptographic library and the kernel answer, no
  packet operation reads or copies outside a buffer: an access that would is a \<open>Memory_error\<close> of the
  model, and none occurs. A received payload has at least one byte and at most 34991.
\<close>

lemma packets_memory_safe:
  "fst (receive_packet lib w) \<noteq> Inl (Raised Memory_error) \<and>
   fst (send_packet lib payload w) \<noteq> Inl (Raised Memory_error) \<and>
   (\<forall>p. fst (receive_packet lib w) = Inr p \<longrightarrow> 1 \<le> length p \<and> length p \<le> 34991)"
proof (intro conjI allI impI)
  show "fst (receive_packet lib w) \<noteq> Inl (Raised Memory_error)"
    "fst (send_packet lib payload w) \<noteq> Inl (Raised Memory_error)"
    using safeC_receive_packet [of lib] safeC_send_packet [of lib payload]
    unfolding safeC_def by (metis prod.collapse)+
  fix p assume "fst (receive_packet lib w) = Inr p"
  then obtain w' where "receive_packet lib w = (Inr p, w')" by (metis prod.collapse)
  from received_length [OF this] show "1 \<le> length p" "length p \<le> 34991" by auto
qed

text \<open>
  Each sequence number counts the packets of its direction modulo \<open>2^32\<close>: a packet that was
  sent or accepted advances the number by one, and one that was refused, or whose
  transmission failed, leaves it. The other direction's number never changes.
\<close>

lemma sequence_numbers_count:
  assumes "fills_buffers lib"
  shows "outgoing_sequence (snd (send_packet lib payload w)) =
      outgoing_sequence w + (case fst (send_packet lib payload w) of Inr _ \<Rightarrow> 1 | Inl _ \<Rightarrow> 0) \<and>
    incoming_sequence (snd (send_packet lib payload w)) = incoming_sequence w \<and>
    incoming_sequence (snd (receive_packet lib w)) =
      incoming_sequence w + (case fst (receive_packet lib w) of Inr _ \<Rightarrow> 1 | Inl _ \<Rightarrow> 0) \<and>
    outgoing_sequence (snd (receive_packet lib w)) = outgoing_sequence w"
proof -
  have k1: "keeps (\<lambda>w. incoming_sequence w = n) (send_packet lib payload)" for n
    by (rule keeps_send_packet) auto
  have k2: "keeps (\<lambda>w. outgoing_sequence w = n) (receive_packet lib)" for n
    by (rule keeps_receive_packet) auto
  have s: "outgoing_sequence (snd (send_packet lib payload w)) =
      outgoing_sequence w + (case fst (send_packet lib payload w) of Inr _ \<Rightarrow> 1 | Inl _ \<Rightarrow> 0)"
    using hoare_outcome [OF send_packet_sequence [OF assms] refl, of payload w] by (simp split: sum.splits)
  have r: "incoming_sequence (snd (receive_packet lib w)) =
      incoming_sequence w + (case fst (receive_packet lib w) of Inr _ \<Rightarrow> 1 | Inl _ \<Rightarrow> 0)"
    using hoare_outcome [OF receive_packet_sequence refl, of lib w] by (simp split: sum.splits)
  show ?thesis using s r keeps_snd [OF k1 refl] keeps_snd [OF k2 refl] by blast
qed

text \<open>
  C25: No cipher context leaks and none is released twice. After the constructor and any history of
  sends, receives and installations or replacements of keys, each of which may have failed in any
  way the library allows, the destructor leaves exactly the contexts alive that existed before.
\<close>

theorem contexts_released:
  "ctx_live (snd (destroy_transport (fold (perform lib) calls (snd (Transport w))))) = ctx_live w"
proof -
  have "no_leak (ctx_live w) (snd (Transport w))"
    by (simp add: Transport_def comp_simps no_leak_def owned_def)
  then show ?thesis by (intro destroy_transport_releases history_no_leak)
qed

end
