(* ===== verification/SSH_Kex.thy ===== *)
theory SSH_Kex
  imports SSH_Encoding SSH_Machine
begin

section \<open>Key exchange (\<open>kex/kex.cpp\<close>)\<close>

text \<open>
  The \<open>KEXINIT\<close> message in both directions, algorithm negotiation, the Curve25519 exchange, the
  exchange hash, the server's Ed25519 signature and the key derivation. The primitives are
  functions of the \<open>crypto\<close> parameter. A \<open>std::array\<close> of bytes is a byte list. A copy of a vector into an array
  is \<open>copy_array\<close>, with the size of the array; the copy of the first 16 bytes of one array of 32 into one of 16, where
  both sizes are fixed by the types, is \<open>take\<close>.
\<close>

subsection \<open>Data\<close>

record KexInit =
  raw_payload :: bytes
  cookie :: bytes
  kex_algorithms :: string
  host_key_algorithms :: string
  encryption_cs_algorithms :: string
  encryption_sc_algorithms :: string
  mac_cs_algorithms :: string
  mac_sc_algorithms :: string
  compression_cs_algorithms :: string
  compression_sc_algorithms :: string
  languages_cs :: string
  languages_sc :: string
  first_kex_packet_follows :: bool

record NegotiatedAlgorithms =
  kex_algorithm :: string
  host_key_algorithm :: string
  encryption_cs_algorithm :: string
  encryption_sc_algorithm :: string
  mac_cs_algorithm :: string
  mac_sc_algorithm :: string
  compression_cs_algorithm :: string
  compression_sc_algorithm :: string

record Curve25519State =
  client_private_key :: bytes
  client_public_key :: bytes
  shared_secret :: bytes

record EcdhReply =
  server_host_key :: bytes
  server_public_key :: bytes
  reply_signature :: bytes

record Ed25519VerificationData =
  public_key :: bytes
  signature :: bytes

record TransportKeyMaterial =
  iv_cs :: bytes
  iv_sc :: bytes
  encryption_key_cs :: bytes
  encryption_key_sc :: bytes
  mac_key_cs :: bytes
  mac_key_sc :: bytes

definition cookie_bytes :: nat where "cookie_bytes = 16"
definition length_of_key :: nat where "length_of_key = 32"

subsection \<open>Fields of a \<open>KEXINIT\<close> message\<close>

definition read_name_list :: "bytes \<Rightarrow> nat \<Rightarrow> (string \<times> nat) result" where
  "read_name_list payload position =
     (if position > length payload then throw ''SSH Payload missing expected bytes''
      else if size_minus (length payload) position < uint32_bytes then throw ''Expected list length''
      else bindE (copy_array uint32_bytes payload position uint32_bytes) (\<lambda>len.
        let list_length = decode_uint32 len;
            position' = position + uint32_bytes
        in if size_minus (length payload) position' < unat list_length then throw ''Expected list''
           else bindE (copy_n payload position' (unat list_length)) (\<lambda>list_text.
             Inr (string_of_bytes list_text, position' + unat list_length))))"

definition parse_boolean :: "bytes \<Rightarrow> nat \<Rightarrow> (bool \<times> nat) result" where
  "parse_boolean payload position =
     (if position > length payload then throw ''SSH Payload missing expected bytes''
      else if size_minus (length payload) position < 1 then throw ''Expected 1 byte''
      else bindE (at_index payload position) (\<lambda>b. Inr (b \<noteq> 0, position + 1)))"

definition append_name_list :: "bytes \<Rightarrow> string \<Rightarrow> bytes result" where
  "append_name_list payload list =
     (if length list > uint32_max then throw ''Length doesn't bit into 32 bits''
      else let length_array = encode_uint32 (of_nat (length list))
           in Inr ((payload @ length_array) @ bytes_of_string list))"

subsection \<open>\<open>KEXINIT\<close>\<close>

definition parse_kexinit :: "bytes \<Rightarrow> KexInit result" where
  "parse_kexinit payload =
     (if length payload < 1 then throw ''Payload should not be empty''
      else bindE (at_index payload 0) (\<lambda>message.
      if message \<noteq> KEXINIT then throw ''SSH KEXINIT packet was expected''
      else let position = 1 in
      if size_minus (length payload) position < cookie_bytes then throw ''Payload should contain a cookie''
      else bindE (copy_array cookie_bytes payload position cookie_bytes) (\<lambda>cookie'.
      let position = position + cookie_bytes in
      bindE (read_name_list payload position) (\<lambda>(kex, position).
      bindE (read_name_list payload position) (\<lambda>(host_key, position).
      bindE (read_name_list payload position) (\<lambda>(encryption_cs, position).
      bindE (read_name_list payload position) (\<lambda>(encryption_sc, position).
      bindE (read_name_list payload position) (\<lambda>(mac_cs, position).
      bindE (read_name_list payload position) (\<lambda>(mac_sc, position).
      bindE (read_name_list payload position) (\<lambda>(compression_cs, position).
      bindE (read_name_list payload position) (\<lambda>(compression_sc, position).
      bindE (read_name_list payload position) (\<lambda>(lang_cs, position).
      bindE (read_name_list payload position) (\<lambda>(lang_sc, position).
      bindE (parse_boolean payload position) (\<lambda>(first, position).
      if size_minus (length payload) position < uint32_bytes then throw ''4 reserved bytes expected''
      else bindE (copy_array uint32_bytes payload position uint32_bytes) (\<lambda>reserved.
      let reserved_value = decode_uint32 reserved;
          position = position + uint32_bytes in
      if reserved_value \<noteq> 0 then throw ''Reserved bytes expected to be equal to 0''
      else if length payload \<noteq> position then throw ''Additional bytes not expected''
      else Inr \<lparr>raw_payload = payload, cookie = cookie', kex_algorithms = kex,
        host_key_algorithms = host_key, encryption_cs_algorithms = encryption_cs,
        encryption_sc_algorithms = encryption_sc, mac_cs_algorithms = mac_cs,
        mac_sc_algorithms = mac_sc, compression_cs_algorithms = compression_cs,
        compression_sc_algorithms = compression_sc, languages_cs = lang_cs, languages_sc = lang_sc,
        first_kex_packet_follows = first\<rparr>)))))))))))))))"

definition client_kexinit :: "bytes \<Rightarrow> KexInit result" where
  "client_kexinit cookie' =
     (let result = \<lparr>raw_payload = [], cookie = cookie', kex_algorithms = ''curve25519-sha256'',
        host_key_algorithms = ''ssh-ed25519'', encryption_cs_algorithms = ''aes256-ctr'',
        encryption_sc_algorithms = ''aes256-ctr'', mac_cs_algorithms = ''hmac-sha2-256'',
        mac_sc_algorithms = ''hmac-sha2-256'', compression_cs_algorithms = ''none'',
        compression_sc_algorithms = ''none'', languages_cs = '''', languages_sc = '''',
        first_kex_packet_follows = False\<rparr>;
        raw = [KEXINIT] @ cookie'
      in bindE (append_name_list raw (kex_algorithms result)) (\<lambda>raw.
         bindE (append_name_list raw (host_key_algorithms result)) (\<lambda>raw.
         bindE (append_name_list raw (encryption_cs_algorithms result)) (\<lambda>raw.
         bindE (append_name_list raw (encryption_sc_algorithms result)) (\<lambda>raw.
         bindE (append_name_list raw (mac_cs_algorithms result)) (\<lambda>raw.
         bindE (append_name_list raw (mac_sc_algorithms result)) (\<lambda>raw.
         bindE (append_name_list raw (compression_cs_algorithms result)) (\<lambda>raw.
         bindE (append_name_list raw (compression_sc_algorithms result)) (\<lambda>raw.
         bindE (append_name_list raw (languages_cs result)) (\<lambda>raw.
         bindE (append_name_list raw (languages_sc result)) (\<lambda>raw.
         let raw = raw @ [of_bool (first_kex_packet_follows result)];
             reserved = encode_uint32 0
         in Inr (result\<lparr>raw_payload := raw @ reserved\<rparr>))))))))))))"

definition create_client_kexinit :: "'ctx crypto \<Rightarrow> ('x machine_scheme, KexInit) comp" where
  "create_client_kexinit lib =
     bindC (random_bytes lib cookie_bytes) (\<lambda>cookie'. liftE (client_kexinit cookie'))"

subsection \<open>Negotiation\<close>

text \<open>The two nested loops, left at the first match.\<close>

primrec match_server :: "string \<Rightarrow> string list \<Rightarrow> string option" where
  "match_server c [] = None"
| "match_server c (s # server) = (if c = s then Some c else match_server c server)"

primrec match_client :: "string list \<Rightarrow> string list \<Rightarrow> string option" where
  "match_client [] server = None"
| "match_client (c # client) server =
     (case match_server c server of Some a \<Rightarrow> Some a | None \<Rightarrow> match_client client server)"

definition choose_algorithm :: "string \<Rightarrow> string \<Rightarrow> string result" where
  "choose_algorithm client_list server_list =
     (let client = getlines (CHR '','') client_list;
          server = getlines (CHR '','') server_list
      in case match_client client server of
           Some a \<Rightarrow> Inr a
         | None \<Rightarrow> throw ''No mutually supported SSH algorithm'')"

definition negotiate :: "KexInit \<Rightarrow> KexInit \<Rightarrow> NegotiatedAlgorithms result" where
  "negotiate client server =
     bindE (choose_algorithm (kex_algorithms client) (kex_algorithms server)) (\<lambda>kex.
     bindE (choose_algorithm (host_key_algorithms client) (host_key_algorithms server)) (\<lambda>host_key.
     bindE (choose_algorithm (encryption_cs_algorithms client) (encryption_cs_algorithms server)) (\<lambda>encryption_cs.
     bindE (choose_algorithm (encryption_sc_algorithms client) (encryption_sc_algorithms server)) (\<lambda>encryption_sc.
     bindE (choose_algorithm (mac_cs_algorithms client) (mac_cs_algorithms server)) (\<lambda>mac_cs.
     bindE (choose_algorithm (mac_sc_algorithms client) (mac_sc_algorithms server)) (\<lambda>mac_sc.
     bindE (choose_algorithm (compression_cs_algorithms client) (compression_cs_algorithms server)) (\<lambda>compression_cs.
     bindE (choose_algorithm (compression_sc_algorithms client) (compression_sc_algorithms server)) (\<lambda>compression_sc.
     Inr \<lparr>kex_algorithm = kex, host_key_algorithm = host_key, encryption_cs_algorithm = encryption_cs,
       encryption_sc_algorithm = encryption_sc, mac_cs_algorithm = mac_cs, mac_sc_algorithm = mac_sc,
       compression_cs_algorithm = compression_cs, compression_sc_algorithm = compression_sc\<rparr>))))))))"

subsection \<open>The Curve25519 exchange\<close>

definition create_curve25519_keypair :: "'ctx crypto \<Rightarrow> ('x machine_scheme, Curve25519State) comp" where
  "create_curve25519_keypair lib =
     bindC (random_bytes lib 32) (\<lambda>private.
     let (result, public) = crypto_scalarmult_curve25519_base lib private in
     if result \<noteq> 0 then raiseC ''Curve25519 algorithm failed to generate keys''
     else returnC \<lparr>client_private_key = private, client_public_key = public,
       shared_secret = replicate 32 0\<rparr>)"

definition create_ecdh_init_payload :: "Curve25519State \<Rightarrow> bytes" where
  "create_ecdh_init_payload state =
     ([KEX_ECDH_INIT] @ encode_uint32 (of_nat length_of_key)) @ client_public_key state"

definition parse_ecdh_reply :: "bytes \<Rightarrow> EcdhReply result" where
  "parse_ecdh_reply payload =
     (if length payload < 1 then throw ''Payload should not be empty''
      else bindE (at_index payload 0) (\<lambda>message.
      if message \<noteq> KEX_ECDH_REPLY then throw ''SSH_MSG_KEX_ECDH_REPLY packet was expected''
      else bindE (read_string payload 1) (\<lambda>(host_key, position).
      bindE (read_string payload position) (\<lambda>(server_key, position).
      if length server_key \<noteq> 32 then throw ''Curve25519 server public key must be 32 bytes''
      else bindE (copy_array 32 server_key 0 (length server_key)) (\<lambda>server_key.
      bindE (read_string payload position) (\<lambda>(sig, position).
      if position \<noteq> length payload then throw ''No more bytes expected''
      else Inr \<lparr>server_host_key = host_key, server_public_key = server_key, reply_signature = sig\<rparr>))))))"

definition calculate_shared_secret ::
  "'ctx crypto \<Rightarrow> Curve25519State \<Rightarrow> bytes \<Rightarrow> Curve25519State result" where
  "calculate_shared_secret lib state server_key =
     (let (result, secret) = crypto_scalarmult_curve25519 lib (client_private_key state) server_key
      in if result = -1 then throw ''Invalid server public key''
         else Inr (state\<lparr>shared_secret := secret\<rparr>))"

subsection \<open>Exchange hash, host key and derived keys\<close>

primrec leading_zeros :: "bytes \<Rightarrow> nat" where
  "leading_zeros [] = 0"
| "leading_zeros (b # bs) = (if b = 0 then Suc (leading_zeros bs) else 0)"

definition append_positive_mpint :: "bytes \<Rightarrow> bytes \<Rightarrow> bytes result" where
  "append_positive_mpint destination value =
     (let count = leading_zeros value in
      bindE (copy_n value count (size_minus (length value) count)) (\<lambda>magnitude.
      bindE (if magnitude = [] then Inr False
             else bindE (at_index magnitude 0) (\<lambda>b. Inr (b AND 0x80 \<noteq> 0))) (\<lambda>negative.
      append_string destination (if negative then 0 # magnitude else magnitude))))"

definition calculate_exchange_hash ::
  "'ctx crypto \<Rightarrow> string \<Rightarrow> string \<Rightarrow> KexInit \<Rightarrow> KexInit \<Rightarrow> Curve25519State \<Rightarrow> EcdhReply \<Rightarrow> bytes result" where
  "calculate_exchange_hash lib client_identification server_identification ck sk curve_state reply =
     bindE (append_text [] client_identification) (\<lambda>destination.
     bindE (append_text destination server_identification) (\<lambda>destination.
     bindE (append_string destination (raw_payload ck)) (\<lambda>destination.
     bindE (append_string destination (raw_payload sk)) (\<lambda>destination.
     bindE (append_string destination (server_host_key reply)) (\<lambda>destination.
     bindE (append_string destination (client_public_key curve_state)) (\<lambda>destination.
     bindE (append_string destination (server_public_key reply)) (\<lambda>destination.
     bindE (append_positive_mpint destination (shared_secret curve_state)) (\<lambda>destination.
     Inr (crypto_hash_sha256 lib destination)))))))))"

definition parse_ed25519_verification_data :: "EcdhReply \<Rightarrow> string \<Rightarrow> Ed25519VerificationData result" where
  "parse_ed25519_verification_data reply negotiated_host_key_algorithm =
     bindE (read_string (server_host_key reply) 0) (\<lambda>(algorithm, position).
     let algorithm_name = string_of_bytes algorithm in
     if algorithm_name \<noteq> negotiated_host_key_algorithm \<or> algorithm_name \<noteq> ''ssh-ed25519''
     then throw ''Algorithm is not the negotiated ssh-ed25519.''
     else bindE (read_string (server_host_key reply) position) (\<lambda>(key, position).
     if length key \<noteq> 32 then throw ''Ed25519 public key must be 32 bytes''
     else bindE (copy_array 32 key 0 (length key)) (\<lambda>key.
     if position \<noteq> length (server_host_key reply) then throw ''Unexpected bytes in Ed25519 host key''
     else bindE (read_string (reply_signature reply) 0) (\<lambda>(algorithm_sig, position).
     let algorithm_sig_name = string_of_bytes algorithm_sig in
     if algorithm_name \<noteq> negotiated_host_key_algorithm \<or> algorithm_sig_name \<noteq> ''ssh-ed25519''
     then throw ''Algorithm is not the negotiated ssh-ed25519.''
     else bindE (read_string (reply_signature reply) position) (\<lambda>(signature_bytes, position).
     if length signature_bytes \<noteq> 64 then throw ''Ed25519 signature must be 64 bytes''
     else bindE (copy_array 64 signature_bytes 0 (length signature_bytes)) (\<lambda>signature_bytes.
     if position \<noteq> length (reply_signature reply) then throw ''Unexpected bytes in Ed25519 signature''
     else Inr \<lparr>public_key = key, signature = signature_bytes\<rparr>))))))"

definition verify_ed25519_signature :: "'ctx crypto \<Rightarrow> Ed25519VerificationData \<Rightarrow> bytes \<Rightarrow> unit result" where
  "verify_ed25519_signature lib data exchange_hash =
     (let result = crypto_sign_verify_detached lib (signature data) exchange_hash (public_key data)
      in if result \<noteq> 0 then throw ''Server Ed25519 signature verification failed'' else Inr ())"

definition calculate_host_key_fingerprint :: "'ctx crypto \<Rightarrow> bytes \<Rightarrow> bytes" where
  "calculate_host_key_fingerprint lib host_key = crypto_hash_sha256 lib host_key"

definition derive_key_material ::
  "'ctx crypto \<Rightarrow> bytes \<Rightarrow> bytes \<Rightarrow> byte \<Rightarrow> bytes \<Rightarrow> bytes result" where
  "derive_key_material lib secret exchange_hash letter session_id =
     bindE (append_positive_mpint [] secret) (\<lambda>input.
     let input = ((input @ exchange_hash) @ [letter]) @ session_id
     in Inr (crypto_hash_sha256 lib input))"

definition derive_transport_keys ::
  "'ctx crypto \<Rightarrow> bytes \<Rightarrow> bytes \<Rightarrow> bytes \<Rightarrow> TransportKeyMaterial result" where
  "derive_transport_keys lib secret exchange_hash session_id =
     bindE (derive_key_material lib secret exchange_hash (of_char (CHR ''A'')) session_id) (\<lambda>key1.
     bindE (derive_key_material lib secret exchange_hash (of_char (CHR ''B'')) session_id) (\<lambda>key2.
     bindE (derive_key_material lib secret exchange_hash (of_char (CHR ''C'')) session_id) (\<lambda>key3.
     bindE (derive_key_material lib secret exchange_hash (of_char (CHR ''D'')) session_id) (\<lambda>key4.
     bindE (derive_key_material lib secret exchange_hash (of_char (CHR ''E'')) session_id) (\<lambda>key5.
     bindE (derive_key_material lib secret exchange_hash (of_char (CHR ''F'')) session_id) (\<lambda>key6.
     Inr \<lparr>iv_cs = take 16 key1, iv_sc = take 16 key2, encryption_key_cs = key3, encryption_key_sc = key4,
       mac_key_cs = key5, mac_key_sc = key6\<rparr>))))))"

subsection \<open>Name lists\<close>

lemma read_name_list_eq:
  "read_name_list p pos = Inr (s, pos') \<longleftrightarrow> read_string p pos = Inr (bytes_of_string s, pos')"
  by (auto simp: read_name_list_def read_string_def result_iff Let_def string_of_bytes_eq_iff)

definition name_list :: "string \<Rightarrow> bytes" where
  "name_list s = ssh_string (bytes_of_string s)"

definition name_fits :: "string \<Rightarrow> bool" where
  "name_fits s \<longleftrightarrow> length s \<le> uint32_max"

lemma name_fits_eq: "name_fits s = string_fits (bytes_of_string s)"
  by (simp add: name_fits_def string_fits_def)

interpretation name_list_codec: field_codec name_fits name_list read_name_list
proof unfold_locales
  fix p pos
  show "safe (read_name_list p pos)"
    by (auto simp: read_name_list_def uint32_bytes_def Let_def intro!: safe_bindE)
qed (auto simp: name_list_def name_fits_eq read_name_list_eq string_codec.put_nonempty
    string_codec.get_complete dest: string_codec.get_sound)

lemma append_name_list_eq [result_iff]:
  "append_name_list d s = Inr r \<longleftrightarrow> name_fits s \<and> r = d @ name_list s"
  by (auto simp: append_name_list_def name_fits_def name_list_def ssh_string_def Let_def)

lemma append_name_list_fits: "name_fits s \<Longrightarrow> append_name_list d s = Inr (d @ name_list s)"
  by (simp add: append_name_list_eq)

lemma parse_boolean_eq [result_iff]:
  "parse_boolean p pos = Inr (b, pos') \<longleftrightarrow> pos < length p \<and> b = (p ! pos \<noteq> 0) \<and> pos' = Suc pos"
  by (auto simp: parse_boolean_def result_iff)

lemma safe_parse_boolean [simp]: "safe (parse_boolean p pos)"
  by (auto simp: parse_boolean_def intro!: safe_bindE)

subsection \<open>The layout of \<open>KEXINIT\<close>\<close>

definition kexinit_layout :: "KexInit \<Rightarrow> byte \<Rightarrow> bytes" where
  "kexinit_layout k flag =
     KEXINIT # cookie k @ name_list (kex_algorithms k) @ name_list (host_key_algorithms k) @
     name_list (encryption_cs_algorithms k) @ name_list (encryption_sc_algorithms k) @
     name_list (mac_cs_algorithms k) @ name_list (mac_sc_algorithms k) @
     name_list (compression_cs_algorithms k) @ name_list (compression_sc_algorithms k) @
     name_list (languages_cs k) @ name_list (languages_sc k) @ flag # encode_uint32 0"

definition kexinit_fits :: "KexInit \<Rightarrow> bool" where
  "kexinit_fits k \<longleftrightarrow>
     name_fits (kex_algorithms k) \<and> name_fits (host_key_algorithms k) \<and>
     name_fits (encryption_cs_algorithms k) \<and> name_fits (encryption_sc_algorithms k) \<and>
     name_fits (mac_cs_algorithms k) \<and> name_fits (mac_sc_algorithms k) \<and>
     name_fits (compression_cs_algorithms k) \<and> name_fits (compression_sc_algorithms k) \<and>
     name_fits (languages_cs k) \<and> name_fits (languages_sc k)"

lemma drop_Cons_nth: "pos < length p \<Longrightarrow> drop pos p = p ! pos # drop (Suc pos) p"
  by (simp add: Cons_nth_drop_Suc)

lemma take_four_all: "length p = pos + 4 \<Longrightarrow> take 4 (drop pos p) = drop pos p"
  by simp

lemma reserved_zero:
  assumes "length p = pos + 4" and "decode_uint32 (take 4 (drop pos p)) = 0"
  shows "drop pos p = encode_uint32 0"
  using assms encode_decode_uint32 [of "drop pos p"] by (simp add: take_four_all)

lemma parse_kexinit_sound:
  assumes "parse_kexinit payload = Inr k"
  shows "raw_payload k = payload \<and> length (cookie k) = 16 \<and> kexinit_fits k \<and>
    (\<exists>flag. first_kex_packet_follows k = (flag \<noteq> 0) \<and> payload = kexinit_layout k flag)"
proof -
  from assms obtain p1 p2 p3 p4 p5 p6 p7 p8 p9 p10 where
    m: "payload ! 0 = KEXINIT" "17 \<le> length payload" "cookie k = take 16 (drop 1 payload)" "raw_payload k = payload"
    and l: "read_name_list payload 17 = Inr (kex_algorithms k, p1)"
    "read_name_list payload p1 = Inr (host_key_algorithms k, p2)"
    "read_name_list payload p2 = Inr (encryption_cs_algorithms k, p3)"
    "read_name_list payload p3 = Inr (encryption_sc_algorithms k, p4)"
    "read_name_list payload p4 = Inr (mac_cs_algorithms k, p5)"
    "read_name_list payload p5 = Inr (mac_sc_algorithms k, p6)"
    "read_name_list payload p6 = Inr (compression_cs_algorithms k, p7)"
    "read_name_list payload p7 = Inr (compression_sc_algorithms k, p8)"
    "read_name_list payload p8 = Inr (languages_cs k, p9)"
    "read_name_list payload p9 = Inr (languages_sc k, p10)"
    and b: "p10 < length payload" "first_kex_packet_follows k = (payload ! p10 \<noteq> 0)"
    and z: "decode_uint32 (take 4 (drop (Suc p10) payload)) = 0" "length payload = Suc p10 + 4"
    unfolding parse_kexinit_def
    by (clarsimp simp: result_iff cookie_bytes_def uint32_bytes_def Let_def split: prod.splits)
  have fits: "kexinit_fits k"
    using l [THEN name_list_codec.get_field] by (simp add: kexinit_fits_def)
  have "payload = KEXINIT # drop 1 payload"
    using m(1,2) by (cases payload) auto
  also have "drop 1 payload = cookie k @ drop 17 payload"
    using m(3) append_take_drop_id [of 16 "drop 1 payload"] by simp
  also have "drop 17 payload = name_list (kex_algorithms k) @ name_list (host_key_algorithms k) @
     name_list (encryption_cs_algorithms k) @ name_list (encryption_sc_algorithms k) @
     name_list (mac_cs_algorithms k) @ name_list (mac_sc_algorithms k) @
     name_list (compression_cs_algorithms k) @ name_list (compression_sc_algorithms k) @
     name_list (languages_cs k) @ name_list (languages_sc k) @ drop p10 payload"
    using l [THEN name_list_codec.get_field] by simp
  also have "drop p10 payload = payload ! p10 # encode_uint32 0"
    using b(1) z reserved_zero [of payload "Suc p10"] by (simp add: drop_Cons_nth)
  finally have "payload = kexinit_layout k (payload ! p10)"
    by (simp add: kexinit_layout_def)
  with m fits b show ?thesis by auto
qed

lemma parse_kexinit_complete:
  assumes fits: "kexinit_fits k" and ck: "length (cookie k) = 16"
    and flag: "first_kex_packet_follows k = (flag \<noteq> 0)" and raw: "raw_payload k = kexinit_layout k flag"
  shows "parse_kexinit (raw_payload k) = Inr k"
proof -
  define p where "p = raw_payload k"
  have p: "p = kexinit_layout k flag" by (simp add: p_def raw)
  from fits have f: "name_fits (kex_algorithms k)" "name_fits (host_key_algorithms k)"
    "name_fits (encryption_cs_algorithms k)" "name_fits (encryption_sc_algorithms k)"
    "name_fits (mac_cs_algorithms k)" "name_fits (mac_sc_algorithms k)"
    "name_fits (compression_cs_algorithms k)" "name_fits (compression_sc_algorithms k)"
    "name_fits (languages_cs k)" "name_fits (languages_sc k)" by (simp_all add: kexinit_fits_def)
  have c: "length p = 17 + length (drop 17 p)" "p ! 0 = KEXINIT" "take 16 (drop 1 p) = cookie k"
    by (simp_all add: p kexinit_layout_def ck)
  have d0: "drop 17 p = name_list (kex_algorithms k) @ name_list (host_key_algorithms k) @
     name_list (encryption_cs_algorithms k) @ name_list (encryption_sc_algorithms k) @
     name_list (mac_cs_algorithms k) @ name_list (mac_sc_algorithms k) @
     name_list (compression_cs_algorithms k) @ name_list (compression_sc_algorithms k) @
     name_list (languages_cs k) @ name_list (languages_sc k) @ flag # encode_uint32 0"
    by (simp add: p kexinit_layout_def ck)
  note s1 = name_list_codec.get_step [OF f(1) d0]
  note s2 = name_list_codec.get_step [OF f(2) s1 [THEN conjunct2]]
  note s3 = name_list_codec.get_step [OF f(3) s2 [THEN conjunct2]]
  note s4 = name_list_codec.get_step [OF f(4) s3 [THEN conjunct2]]
  note s5 = name_list_codec.get_step [OF f(5) s4 [THEN conjunct2]]
  note s6 = name_list_codec.get_step [OF f(6) s5 [THEN conjunct2]]
  note s7 = name_list_codec.get_step [OF f(7) s6 [THEN conjunct2]]
  note s8 = name_list_codec.get_step [OF f(8) s7 [THEN conjunct2]]
  note s9 = name_list_codec.get_step [OF f(9) s8 [THEN conjunct2]]
  note s10 = name_list_codec.get_step [OF f(10) s9 [THEN conjunct2]]
  note reads = s1 s2 s3 s4 s5 s6 s7 s8 s9 s10
  define p10 where "p10 = 17 + length (name_list (kex_algorithms k)) + length (name_list (host_key_algorithms k)) +
    length (name_list (encryption_cs_algorithms k)) + length (name_list (encryption_sc_algorithms k)) +
    length (name_list (mac_cs_algorithms k)) + length (name_list (mac_sc_algorithms k)) +
    length (name_list (compression_cs_algorithms k)) + length (name_list (compression_sc_algorithms k)) +
    length (name_list (languages_cs k)) + length (name_list (languages_sc k))"
  have d10: "drop p10 p = flag # encode_uint32 0" using s10 by (simp only: p10_def)
  have len: "length p = p10 + 5" using arg_cong [OF d10, of length] by simp
  then have "p ! p10 = flag" "drop (Suc p10) p = encode_uint32 0"
    using d10 by (simp_all add: drop_Cons_nth)
  then have "parse_boolean p p10 = Inr (first_kex_packet_follows k, Suc p10)"
    "copy_n p (Suc p10) 4 = Inr (encode_uint32 0)"
    using len flag by (simp_all add: parse_boolean_eq)
  then have "parse_kexinit p = Inr k"
    unfolding parse_kexinit_def
    using c reads [THEN conjunct1] len
    by (simp add: cookie_bytes_def uint32_bytes_def Let_def p_def flip: p10_def)
  then show ?thesis by (simp add: p_def)
qed

lemma client_kexinit_layout:
  "\<exists>k. client_kexinit c = Inr k \<and> cookie k = c \<and> kexinit_fits k \<and> \<not> first_kex_packet_follows k \<and>
     raw_payload k = kexinit_layout k 0"
  by (simp add: client_kexinit_def append_name_list_fits name_fits_def uint32_max_def kexinit_fits_def
      kexinit_layout_def Let_def)

subsection \<open>The choice of an algorithm\<close>

lemma match_server_eq: "match_server c server = (if c \<in> set server then Some c else None)"
  by (induction server) auto

lemma match_client_eq: "match_client client server = find (\<lambda>c. c \<in> set server) client"
  by (induction client) (auto simp: match_server_eq)

lemma find_Some_split:
  "find P xs = Some x \<longleftrightarrow> (\<exists>pre post. xs = pre @ x # post \<and> P x \<and> (\<forall>y \<in> set pre. \<not> P y))"
proof (induction xs)
  case Nil
  show ?case by simp
next
  case (Cons a xs)
  show ?case
  proof (cases "P a")
    case True
    then show ?thesis by (auto simp: Cons_eq_append_conv)
  next
    case False
    show ?thesis
    proof
      assume "find P (a # xs) = Some x"
      with False Cons.IH obtain pre post where "xs = pre @ x # post" "P x" "\<forall>y \<in> set pre. \<not> P y" by auto
      with False show "\<exists>pre post. a # xs = pre @ x # post \<and> P x \<and> (\<forall>y \<in> set pre. \<not> P y)"
        by (intro exI [of _ "a # pre"] exI [of _ post]) auto
    next
      assume "\<exists>pre post. a # xs = pre @ x # post \<and> P x \<and> (\<forall>y \<in> set pre. \<not> P y)"
      then obtain pre post where s: "a # xs = pre @ x # post" "P x" "\<forall>y \<in> set pre. \<not> P y" by blast
      with False obtain pre' where "pre = a # pre'" by (cases pre) auto
      with s have "\<exists>pre post. xs = pre @ x # post \<and> P x \<and> (\<forall>y \<in> set pre. \<not> P y)" by auto
      with False Cons.IH show "find P (a # xs) = Some x" by simp
    qed
  qed
qed

lemma choose_single:
  "CHR '','' \<notin> set a \<Longrightarrow> a \<noteq> [] \<Longrightarrow>
     choose_algorithm a server_list =
       (if a \<in> set (getlines (CHR '','') server_list) then Inr a
        else throw ''No mutually supported SSH algorithm'')"
  by (simp add: choose_algorithm_def getlines_last match_client_eq)

subsection \<open>Multiple-precision integers\<close>

definition mpint_magnitude :: "bytes \<Rightarrow> bytes" where
  "mpint_magnitude value =
     (let m = dropWhile (\<lambda>b. b = 0) value in if m \<noteq> [] \<and> hd m AND 0x80 \<noteq> 0 then 0 # m else m)"

lemma drop_leading_zeros: "drop (leading_zeros v) v = dropWhile (\<lambda>b. b = 0) v"
  by (induction v) auto

lemma length_mpint_magnitude: "length (mpint_magnitude v) \<le> Suc (length v)"
  using length_dropWhile_le [of "\<lambda>b. b = 0" v] by (simp add: mpint_magnitude_def Let_def)

lemma append_positive_mpint_magnitude: "append_positive_mpint d v = append_string d (mpint_magnitude v)"
proof -
  define m where "m = dropWhile (\<lambda>b. b = 0) v"
  have "leading_zeros v \<le> length v" by (induction v) auto
  then have "copy_n v (leading_zeros v) (size_minus (length v) (leading_zeros v)) = Inr m"
    by (simp add: m_def drop_leading_zeros [symmetric])
  then show ?thesis
    unfolding append_positive_mpint_def mpint_magnitude_def Let_def m_def [symmetric] by (cases m) simp_all
qed

lemma append_positive_mpint_eq [result_iff]:
  "append_positive_mpint d v = Inr r \<longleftrightarrow>
     string_fits (mpint_magnitude v) \<and> r = d @ ssh_string (mpint_magnitude v)"
  unfolding append_positive_mpint_magnitude append_string_eq by simp

lemma mpint_fits: "length v \<le> 32 \<Longrightarrow> string_fits (mpint_magnitude v)"
  using length_mpint_magnitude [of v] by (simp add: string_fits_def uint32_max_def)

lemma append_positive_mpint_key:
  "length v \<le> 32 \<Longrightarrow> append_positive_mpint d v = Inr (d @ ssh_string (mpint_magnitude v))"
  by (simp add: append_positive_mpint_eq mpint_fits)

lemma be_value_zero_Cons [simp]: "be_value (0 # bs) = be_value bs"
  by (simp add: be_value_Cons)

lemma be_value_dropWhile_zero: "be_value (dropWhile (\<lambda>b. b = 0) v) = be_value v"
  by (induction v) auto

lemma be_value_mpint: "be_value (mpint_magnitude v) = be_value v"
  by (simp add: mpint_magnitude_def be_value_dropWhile_zero Let_def)

lemma be_value_inject: "length a = length b \<Longrightarrow> be_value a = be_value b \<Longrightarrow> a = b"
proof (induction a b rule: list_induct2)
  case Nil
  show ?case by simp
next
  case (Cons x xs y ys)
  from Cons.prems Cons.hyps have e: "unat x * 256 ^ length xs + be_value xs = unat y * 256 ^ length xs + be_value ys"
    by (simp add: be_value_Cons)
  from e have "(unat x * 256 ^ length xs + be_value xs) div 256 ^ length xs =
      (unat y * 256 ^ length xs + be_value ys) div 256 ^ length xs" by simp
  then have "unat x = unat y"
    using be_value_less [of xs] be_value_less [of ys] Cons.hyps by simp
  with e Cons.IH show ?case by (simp add: word_unat_eq_iff)
qed

lemma mpint_inject: "length a = length b \<Longrightarrow> mpint_magnitude a = mpint_magnitude b \<Longrightarrow> a = b"
  using be_value_mpint [of a] be_value_mpint [of b] by (auto intro: be_value_inject)

lemma dropWhile_zero_hd: "dropWhile (\<lambda>b. b = 0) v = c # cs \<Longrightarrow> c \<noteq> (0 :: byte)"
  using hd_dropWhile [of "\<lambda>b. b = 0" v] by auto

subsection \<open>The exchange hash and the derived keys\<close>

definition exchange_input ::
  "string \<Rightarrow> string \<Rightarrow> KexInit \<Rightarrow> KexInit \<Rightarrow> Curve25519State \<Rightarrow> EcdhReply \<Rightarrow> bytes" where
  "exchange_input client_id server_id ck sk curve reply =
     ssh_string (bytes_of_string client_id) @ ssh_string (bytes_of_string server_id) @
     ssh_string (raw_payload ck) @ ssh_string (raw_payload sk) @ ssh_string (server_host_key reply) @
     ssh_string (client_public_key curve) @ ssh_string (server_public_key reply) @
     ssh_string (mpint_magnitude (shared_secret curve))"

definition exchange_fits ::
  "string \<Rightarrow> string \<Rightarrow> KexInit \<Rightarrow> KexInit \<Rightarrow> Curve25519State \<Rightarrow> EcdhReply \<Rightarrow> bool" where
  "exchange_fits client_id server_id ck sk curve reply \<longleftrightarrow>
     string_fits (bytes_of_string client_id) \<and> string_fits (bytes_of_string server_id) \<and>
     string_fits (raw_payload ck) \<and> string_fits (raw_payload sk) \<and> string_fits (server_host_key reply) \<and>
     string_fits (client_public_key curve) \<and> string_fits (server_public_key reply) \<and>
     string_fits (mpint_magnitude (shared_secret curve))"

lemma calculate_exchange_hash_eq:
  "calculate_exchange_hash lib c s ck sk curve reply = Inr h \<longleftrightarrow>
     exchange_fits c s ck sk curve reply \<and> h = crypto_hash_sha256 lib (exchange_input c s ck sk curve reply)"
  unfolding calculate_exchange_hash_def exchange_fits_def exchange_input_def
  by (auto simp: result_iff)

lemma ssh_string_append_inject:
  "string_fits x \<Longrightarrow> string_fits y \<Longrightarrow> ssh_string x @ r = ssh_string y @ s \<longleftrightarrow> x = y \<and> r = s"
  using string_codec.parse_unique by blast

lemma ssh_string_inject:
  "string_fits x \<Longrightarrow> string_fits y \<Longrightarrow> ssh_string x = ssh_string y \<longleftrightarrow> x = y"
  using string_codec.put_inject by blast

lemma exchange_input_inject:
  assumes "exchange_fits c s ck sk curve reply" "exchange_fits c' s' ck' sk' curve' reply'"
    and "exchange_input c s ck sk curve reply = exchange_input c' s' ck' sk' curve' reply'"
  shows "c = c' \<and> s = s' \<and> raw_payload ck = raw_payload ck' \<and> raw_payload sk = raw_payload sk' \<and>
    server_host_key reply = server_host_key reply' \<and> client_public_key curve = client_public_key curve' \<and>
    server_public_key reply = server_public_key reply' \<and>
    mpint_magnitude (shared_secret curve) = mpint_magnitude (shared_secret curve')"
  using assms unfolding exchange_fits_def exchange_input_def
  by (simp add: ssh_string_append_inject ssh_string_inject)

lemma derive_key_material_eq:
  "length K \<le> 32 \<Longrightarrow> derive_key_material lib K H letter sid =
     Inr (crypto_hash_sha256 lib (ssh_string (mpint_magnitude K) @ H @ letter # sid))"
  by (simp add: derive_key_material_def append_positive_mpint_key Let_def)

subsection \<open>The server's reply\<close>

definition reply_layout :: "EcdhReply \<Rightarrow> bytes" where
  "reply_layout r =
     KEX_ECDH_REPLY # ssh_string (server_host_key r) @ ssh_string (server_public_key r) @ ssh_string (reply_signature r)"

lemma parse_ecdh_reply_sound:
  assumes "parse_ecdh_reply payload = Inr r"
  shows "payload = reply_layout r \<and> length (server_public_key r) = 32 \<and>
    string_fits (server_host_key r) \<and> string_fits (reply_signature r)"
proof -
  from assms obtain p1 p2 where m: "payload ! 0 = KEX_ECDH_REPLY" "0 < length payload"
    and l: "read_string payload 1 = Inr (server_host_key r, p1)"
      "read_string payload p1 = Inr (server_public_key r, p2)"
      "read_string payload p2 = Inr (reply_signature r, length payload)"
    and k: "length (server_public_key r) = 32"
    unfolding parse_ecdh_reply_def
    by (clarsimp simp: result_iff Let_def split: prod.splits)
  have "payload = KEX_ECDH_REPLY # drop 1 payload" using m by (cases payload) auto
  also have "drop 1 payload = ssh_string (server_host_key r) @ ssh_string (server_public_key r) @ ssh_string (reply_signature r)"
    using l [THEN string_codec.get_field] by simp
  finally show ?thesis using k l [THEN string_codec.get_field] by (simp add: reply_layout_def)
qed

lemma parse_ecdh_reply_complete:
  assumes "string_fits (server_host_key r)" "length (server_public_key r) = 32" "string_fits (reply_signature r)"
  shows "parse_ecdh_reply (reply_layout r) = Inr r"
proof -
  define p where "p = reply_layout r"
  have d0: "drop 1 p = ssh_string (server_host_key r) @ ssh_string (server_public_key r) @ ssh_string (reply_signature r) @ []"
    by (simp add: p_def reply_layout_def)
  have f2: "string_fits (server_public_key r)" using assms(2) by (simp add: string_fits_def uint32_max_def)
  note s1 = string_codec.get_step [OF assms(1) d0]
  note s2 = string_codec.get_step [OF f2 s1 [THEN conjunct2]]
  note s3 = string_codec.get_step [OF assms(3) s2 [THEN conjunct2]]
  have "length p = 1 + length (ssh_string (server_host_key r)) + length (ssh_string (server_public_key r)) +
      length (ssh_string (reply_signature r))" "p ! 0 = KEX_ECDH_REPLY"
    by (simp_all add: p_def reply_layout_def)
  then have "parse_ecdh_reply p = Inr r"
    unfolding parse_ecdh_reply_def using s1 s2 s3 assms(2) by simp
  then show ?thesis by (simp add: p_def)
qed

definition ed25519_name :: bytes where
  "ed25519_name = bytes_of_string ''ssh-ed25519''"

lemma string_fits_ed25519_name: "string_fits ed25519_name"
  by (simp add: ed25519_name_def string_fits_def uint32_max_def)

lemma parse_ed25519_sound:
  assumes "parse_ed25519_verification_data r alg = Inr d"
  shows "alg = ''ssh-ed25519'' \<and> length (public_key d) = 32 \<and> length (signature d) = 64 \<and>
    server_host_key r = ssh_string ed25519_name @ ssh_string (public_key d) \<and>
    reply_signature r = ssh_string ed25519_name @ ssh_string (signature d)"
proof -
  from assms obtain a p1 b p2 where
    n: "string_of_bytes a = ''ssh-ed25519''" "alg = ''ssh-ed25519''" "string_of_bytes b = ''ssh-ed25519''"
    and l: "read_string (server_host_key r) 0 = Inr (a, p1)"
      "read_string (server_host_key r) p1 = Inr (public_key d, length (server_host_key r))"
    and l': "read_string (reply_signature r) 0 = Inr (b, p2)"
      "read_string (reply_signature r) p2 = Inr (signature d, length (reply_signature r))"
    and k: "length (public_key d) = 32" "length (signature d) = 64"
    unfolding parse_ed25519_verification_data_def
    by (clarsimp simp: result_iff Let_def split: prod.splits)
  have "a = ed25519_name" "b = ed25519_name" using n by (simp_all add: string_of_bytes_eq_iff ed25519_name_def)
  then show ?thesis
    using n k l [THEN string_codec.get_field] l' [THEN string_codec.get_field] by simp
qed

lemma read_two_strings:
  assumes "string_fits x" "string_fits y"
  shows "read_string (ssh_string x @ ssh_string y) 0 = Inr (x, length (ssh_string x))"
    and "read_string (ssh_string x @ ssh_string y) (length (ssh_string x)) = Inr (y, length (ssh_string x @ ssh_string y))"
  using string_codec.get_context [OF assms(1), of "[]" "ssh_string y"]
    string_codec.get_context [OF assms(2), of "ssh_string x" "[]"] by simp_all

lemma parse_ed25519_complete:
  assumes "length (public_key d) = 32" "length (signature d) = 64"
    and "server_host_key r = ssh_string ed25519_name @ ssh_string (public_key d)"
    and "reply_signature r = ssh_string ed25519_name @ ssh_string (signature d)"
  shows "parse_ed25519_verification_data r ''ssh-ed25519'' = Inr d"
proof -
  have f: "string_fits (public_key d)" "string_fits (signature d)"
    using assms(1,2) by (simp_all add: string_fits_def uint32_max_def)
  have n: "string_of_bytes ed25519_name = ''ssh-ed25519''" by (simp add: ed25519_name_def)
  note reads = read_two_strings [OF string_fits_ed25519_name f(1)] read_two_strings [OF string_fits_ed25519_name f(2)]
  show ?thesis
    unfolding parse_ed25519_verification_data_def assms(3,4)
    using reads assms(1,2) n by (simp add: Let_def del: length_append length_ssh_string)
qed

subsection \<open>Memory safety\<close>

lemma safe_append_mpint [simp]: "safe (append_positive_mpint d v)"
  by (simp add: append_positive_mpint_magnitude)

lemma safe_append_name_list [simp]: "safe (append_name_list d v)"
  by (simp add: append_name_list_def Let_def)

lemma safe_choose [simp]: "safe (choose_algorithm c s)"
  by (simp add: choose_algorithm_def Let_def split: option.split)

lemmas safe_readers [simp] = name_list_codec.get_safe

lemma safe_case_prod: "(\<And>a b. p = (a, b) \<Longrightarrow> safe (f a b)) \<Longrightarrow> safe (case p of (a, b) \<Rightarrow> f a b)"
  by (cases p) auto

lemma safe_parse_kexinit [simp]: "safe (parse_kexinit p)"
  unfolding parse_kexinit_def Let_def
  by (intro safe_if [THEN iffD2] conjI impI safe_bindE safe_case_prod safe_throw safe_Inr)
     (auto simp: uint32_bytes_def cookie_bytes_def parse_boolean_eq Suc_le_eq)

lemma safe_parse_ecdh_reply [simp]: "safe (parse_ecdh_reply p)"
  unfolding parse_ecdh_reply_def
  by (intro safe_if [THEN iffD2] conjI impI safe_bindE safe_case_prod safe_throw safe_Inr) auto

lemma safe_kex_operations [simp]:
  "safe (client_kexinit c)" "safe (negotiate k k')" "safe (calculate_shared_secret lib state pk)"
  "safe (calculate_exchange_hash lib ci si k k' state reply)" "safe (parse_ed25519_verification_data reply alg)"
  "safe (verify_ed25519_signature lib d h)" "safe (derive_key_material lib K H l sid)"
  "safe (derive_transport_keys lib K H sid)"
  unfolding client_kexinit_def negotiate_def calculate_shared_secret_def calculate_exchange_hash_def
    parse_ed25519_verification_data_def verify_ed25519_signature_def derive_key_material_def
    derive_transport_keys_def Let_def
  by (intro safe_if [THEN iffD2] conjI impI safe_bindE safe_case_prod safe_throw safe_Inr; simp)+

subsection \<open>Properties\<close>

text \<open>
  C36: \<open>parse_kexinit\<close> accepts exactly the well-formed messages. It returns \<open>k\<close> if and only if the payload,
  which it keeps in \<open>raw_payload\<close>, is the message number, a 16-byte cookie, the ten name lists of \<open>k\<close> in
  their order, a flag byte, and a zero reserved word, with nothing behind it.
\<close>

theorem parse_kexinit_exact:
  "parse_kexinit payload = Inr k \<longleftrightarrow>
     raw_payload k = payload \<and> length (cookie k) = 16 \<and> kexinit_fits k \<and>
     (\<exists>flag. first_kex_packet_follows k = (flag \<noteq> 0) \<and> payload = kexinit_layout k flag)"
  using parse_kexinit_sound [of payload k] parse_kexinit_complete [of k] by auto

text \<open>
  The client's own \<open>KEXINIT\<close> is always created, and its payload, read back by the parser, gives
  the record it was built from, with the 16 random bytes as its cookie.
\<close>

lemma client_kexinit_roundtrip:
  assumes "fills_buffers lib"
  shows "\<exists>k. create_client_kexinit lib w = (Inr k, w\<lparr>random_calls := Suc (random_calls w)\<rparr>) \<and>
    parse_kexinit (raw_payload k) = Inr k \<and> cookie k = randombytes_buf lib (random_calls w) 16"
proof -
  let ?c = "randombytes_buf lib (random_calls w) 16"
  from client_kexinit_layout [of ?c] obtain k where k: "client_kexinit ?c = Inr k" "cookie k = ?c"
    "kexinit_fits k" "\<not> first_kex_packet_follows k" "raw_payload k = kexinit_layout k 0" by blast
  moreover have "parse_kexinit (raw_payload k) = Inr k"
    using k assms by (intro parse_kexinit_complete [of _ 0]) simp_all
  ultimately show ?thesis by (simp add: create_client_kexinit_def comp_simps cookie_bytes_def)
qed

text \<open>
  C37: \<open>choose_algorithm\<close> returns the first name of the client's list that the server also lists, and
  throws if and only if the lists have no name in common.
\<close>

theorem choose_algorithm_first_match:
  "(choose_algorithm client_list server_list = Inr a \<longleftrightarrow>
     (\<exists>pre post. getlines (CHR '','') client_list = pre @ a # post \<and>
        a \<in> set (getlines (CHR '','') server_list) \<and> set pre \<inter> set (getlines (CHR '','') server_list) = {})) \<and>
   (choose_algorithm client_list server_list = throw ''No mutually supported SSH algorithm'' \<longleftrightarrow>
     set (getlines (CHR '','') client_list) \<inter> set (getlines (CHR '','') server_list) = {})"
proof -
  let ?P = "\<lambda>c. c \<in> set (getlines (CHR '','') server_list)"
  have c: "choose_algorithm client_list server_list = (case find ?P (getlines (CHR '','') client_list) of
      Some a \<Rightarrow> Inr a | None \<Rightarrow> throw ''No mutually supported SSH algorithm'')"
    by (simp add: choose_algorithm_def match_client_eq)
  have "choose_algorithm client_list server_list = Inr a \<longleftrightarrow> find ?P (getlines (CHR '','') client_list) = Some a"
    unfolding c by (simp split: option.split)
  moreover have "choose_algorithm client_list server_list = throw ''No mutually supported SSH algorithm'' \<longleftrightarrow>
      find ?P (getlines (CHR '','') client_list) = None"
    unfolding c by (simp split: option.split)
  ultimately show ?thesis
    unfolding find_Some_split find_None_iff by (simp only: disjoint_iff) blast
qed

definition server_offers :: "KexInit \<Rightarrow> bool" where
  "server_offers server \<longleftrightarrow>
     ''curve25519-sha256'' \<in> set (getlines (CHR '','') (kex_algorithms server)) \<and>
     ''ssh-ed25519'' \<in> set (getlines (CHR '','') (host_key_algorithms server)) \<and>
     ''aes256-ctr'' \<in> set (getlines (CHR '','') (encryption_cs_algorithms server)) \<and>
     ''aes256-ctr'' \<in> set (getlines (CHR '','') (encryption_sc_algorithms server)) \<and>
     ''hmac-sha2-256'' \<in> set (getlines (CHR '','') (mac_cs_algorithms server)) \<and>
     ''hmac-sha2-256'' \<in> set (getlines (CHR '','') (mac_sc_algorithms server)) \<and>
     ''none'' \<in> set (getlines (CHR '','') (compression_cs_algorithms server)) \<and>
     ''none'' \<in> set (getlines (CHR '','') (compression_sc_algorithms server))"

definition client_suite :: NegotiatedAlgorithms where
  "client_suite = \<lparr>kex_algorithm = ''curve25519-sha256'', host_key_algorithm = ''ssh-ed25519'',
     encryption_cs_algorithm = ''aes256-ctr'', encryption_sc_algorithm = ''aes256-ctr'',
     mac_cs_algorithm = ''hmac-sha2-256'', mac_sc_algorithm = ''hmac-sha2-256'',
     compression_cs_algorithm = ''none'', compression_sc_algorithm = ''none''\<rparr>"

lemma client_kexinit_lists:
  assumes "client_kexinit c = Inr k"
  shows "kex_algorithms k = ''curve25519-sha256'' \<and> host_key_algorithms k = ''ssh-ed25519'' \<and>
    encryption_cs_algorithms k = ''aes256-ctr'' \<and> encryption_sc_algorithms k = ''aes256-ctr'' \<and>
    mac_cs_algorithms k = ''hmac-sha2-256'' \<and> mac_sc_algorithms k = ''hmac-sha2-256'' \<and>
    compression_cs_algorithms k = ''none'' \<and> compression_sc_algorithms k = ''none''"
  using assms by (auto simp: client_kexinit_def result_iff Let_def)

lemma negotiate_client:
  assumes "client_kexinit c = Inr k"
  shows "negotiate k server = Inr algorithms \<longleftrightarrow> server_offers server \<and> algorithms = client_suite"
  unfolding negotiate_def server_offers_def client_suite_def
  using client_kexinit_lists [OF assms] by (auto simp: choose_single result_iff)

text \<open>
  C16: Negotiating with the client's own lists succeeds exactly when the server offers each of the
  eight algorithms the client implements, and then selects these, whatever else and in whatever
  order the server lists: a server cannot talk the client into any other algorithm, such as no encryption.
\<close>

theorem negotiation_fixed:
  assumes "create_client_kexinit lib w = (Inr client, w')"
  shows "negotiate client server = Inr algorithms \<longleftrightarrow> server_offers server \<and> algorithms = client_suite"
  using assms negotiate_client by (auto simp: create_client_kexinit_def comp_simps result_iff)

theorem negotiation_fixed_witness:
  "\<exists>client w'. create_client_kexinit sample_crypto idle_machine = (Inr client, w') \<and>
     server_offers client \<and> negotiate client client = Inr client_suite"
proof -
  from client_kexinit_layout obtain client where k: "client_kexinit (randombytes_buf sample_crypto 0 16) = Inr client" by blast
  then have c: "create_client_kexinit sample_crypto idle_machine = (Inr client, idle_machine\<lparr>random_calls := 1\<rparr>)"
    by (simp add: create_client_kexinit_def comp_simps cookie_bytes_def idle_machine_def)
  have "server_offers client"
    unfolding server_offers_def using client_kexinit_lists [OF k] by (simp add: getlines_last)
  with c negotiation_fixed [OF c] show ?thesis by blast
qed

text \<open>
  C38: \<open>append_positive_mpint\<close> writes the canonical encoding of a positive integer: the bytes behind the
  length have the big-endian value of the argument, their first bit is clear, and no byte can be
  dropped from the front (zero is the empty string). It never fails on a 32-byte value.
\<close>

theorem mpint_canonical:
  assumes "length value = 32"
  shows "\<exists>m. append_positive_mpint destination value = Inr (destination @ ssh_string m) \<and>
    be_value m = be_value value \<and> (m = [] \<or> \<not> bit (hd m) 7) \<and>
    (case m of [] \<Rightarrow> be_value value = 0 | [b] \<Rightarrow> b \<noteq> 0 | b # c # _ \<Rightarrow> b \<noteq> 0 \<or> bit c 7)"
proof (intro exI [of _ "mpint_magnitude value"] conjI)
  show "append_positive_mpint destination value = Inr (destination @ ssh_string (mpint_magnitude value))"
    using assms by (simp add: append_positive_mpint_key)
  show v: "be_value (mpint_magnitude value) = be_value value" by (rule be_value_mpint)
  have top: "b AND 0x80 \<noteq> 0 \<longleftrightarrow> bit b 7" for b :: byte
    using and_exp_eq_0_iff_not_bit [of b 7] by simp
  show "mpint_magnitude value = [] \<or> \<not> bit (hd (mpint_magnitude value)) 7"
    unfolding mpint_magnitude_def Let_def top by auto
  show "case mpint_magnitude value of [] \<Rightarrow> be_value value = 0 | [b] \<Rightarrow> b \<noteq> 0 | b # c # _ \<Rightarrow> b \<noteq> 0 \<or> bit c 7"
  proof (cases "dropWhile (\<lambda>b. b = 0) value")
    case Nil
    then have "mpint_magnitude value = []" by (simp only: mpint_magnitude_def Let_def) simp
    with v show ?thesis by simp
  next
    case (Cons b bs)
    with dropWhile_zero_hd [OF Cons] show ?thesis
      by (simp only: mpint_magnitude_def Let_def top) (auto split: list.split)
  qed
qed

theorem mpint_canonical_witness:
  "length (replicate 31 0 @ [0x80 :: byte]) = 32 \<and>
   (\<exists>m. append_positive_mpint [] (replicate 31 0 @ [0x80]) = Inr ([] @ ssh_string m) \<and> be_value m = 128)"
proof -
  have v: "be_value (replicate 31 0 @ [0x80 :: byte]) = 128"
    by (simp add: numeral_eq_Suc) (simp add: be_value_def)
  have "length (replicate 31 0 @ [0x80 :: byte]) = 32" by simp
  from mpint_canonical [OF this, of "[]"] v show ?thesis by auto
qed

text \<open>
  C14: The exchange hash binds the whole handshake. If two runs obtain the same hash, then they agree on
  both identification strings, both \<open>KEXINIT\<close> payloads, the host key, both public keys and the
  shared secret, or their two hash inputs are a collision of SHA-256: no two different handshakes have the
  same hash input.
\<close>

theorem exchange_hash_binds:
  assumes "calculate_exchange_hash lib c s ck sk curve reply = Inr h"
    and "calculate_exchange_hash lib c' s' ck' sk' curve' reply' = Inr h"
    and "length (shared_secret curve) = 32" and "length (shared_secret curve') = 32"
  shows "c = c' \<and> s = s' \<and> raw_payload ck = raw_payload ck' \<and> raw_payload sk = raw_payload sk' \<and>
      server_host_key reply = server_host_key reply' \<and> client_public_key curve = client_public_key curve' \<and>
      server_public_key reply = server_public_key reply' \<and> shared_secret curve = shared_secret curve' \<or>
    exchange_input c s ck sk curve reply \<noteq> exchange_input c' s' ck' sk' curve' reply' \<and>
      crypto_hash_sha256 lib (exchange_input c s ck sk curve reply) = crypto_hash_sha256 lib (exchange_input c' s' ck' sk' curve' reply')"
proof (cases "exchange_input c s ck sk curve reply = exchange_input c' s' ck' sk' curve' reply'")
  case True
  from assms(1,2) have "exchange_fits c s ck sk curve reply" "exchange_fits c' s' ck' sk' curve' reply'"
    by (simp_all add: calculate_exchange_hash_eq)
  from exchange_input_inject [OF this True] assms(3,4) show ?thesis
    using mpint_inject [of "shared_secret curve" "shared_secret curve'"] by auto
next
  case False
  moreover have "crypto_hash_sha256 lib (exchange_input c s ck sk curve reply) =
      crypto_hash_sha256 lib (exchange_input c' s' ck' sk' curve' reply')"
    using assms(1,2) by (simp add: calculate_exchange_hash_eq)
  ultimately show ?thesis by blast
qed

definition sample_curve :: Curve25519State where
  "sample_curve = \<lparr>client_private_key = replicate 32 1, client_public_key = replicate 32 2, shared_secret = replicate 32 3\<rparr>"

definition sample_reply :: EcdhReply where
  "sample_reply = \<lparr>server_host_key = [4], server_public_key = replicate 32 5, reply_signature = [6]\<rparr>"

definition sample_kexinit :: KexInit where
  "sample_kexinit = \<lparr>raw_payload = [20], cookie = replicate 16 0, kex_algorithms = [], host_key_algorithms = [],
     encryption_cs_algorithms = [], encryption_sc_algorithms = [], mac_cs_algorithms = [], mac_sc_algorithms = [],
     compression_cs_algorithms = [], compression_sc_algorithms = [], languages_cs = [], languages_sc = [],
     first_kex_packet_follows = False\<rparr>"

theorem exchange_hash_binds_witness:
  "\<exists>h. calculate_exchange_hash (sample_crypto\<lparr>crypto_hash_sha256 := id\<rparr>) ''a'' ''b'' sample_kexinit
       sample_kexinit sample_curve sample_reply = Inr h \<and>
     (\<forall>s. calculate_exchange_hash (sample_crypto\<lparr>crypto_hash_sha256 := id\<rparr>) ''a'' s sample_kexinit
       sample_kexinit sample_curve sample_reply = Inr h \<longrightarrow> ''b'' = s)"
proof -
  let ?lib = "sample_crypto\<lparr>crypto_hash_sha256 := id\<rparr>"
  have f: "exchange_fits ''a'' ''b'' sample_kexinit sample_kexinit sample_curve sample_reply"
    by (simp add: exchange_fits_def mpint_fits sample_curve_def)
       (simp add: string_fits_def uint32_max_def sample_kexinit_def sample_reply_def)
  then obtain h where h: "calculate_exchange_hash ?lib ''a'' ''b'' sample_kexinit sample_kexinit sample_curve sample_reply = Inr h"
    by (simp add: calculate_exchange_hash_eq)
  have l: "length (shared_secret sample_curve) = 32" by (simp add: sample_curve_def)
  have "''b'' = s" if "calculate_exchange_hash ?lib ''a'' s sample_kexinit sample_kexinit sample_curve sample_reply = Inr h" for s
    using exchange_hash_binds [OF h that l l] by simp
  with h show ?thesis by blast
qed

text \<open>The input of the hash from which a key is derived (RFC 4253, section 7.2).\<close>

definition key_input :: "bytes \<Rightarrow> bytes \<Rightarrow> byte \<Rightarrow> bytes \<Rightarrow> bytes" where
  "key_input K H letter sid = ssh_string (mpint_magnitude K) @ H @ letter # sid"

text \<open>
  C15: The six keys of a session are separate and determine where they come from. \<open>derive_transport_keys\<close> gives each key the
  hash of the shared secret, the exchange hash, a letter and the session identifier, with the letters A to F in the
  order of the protocol and the two initialisation vectors cut to 16 bytes; and two such inputs are the same only if
  shared secret, exchange hash, letter and session identifier are all the same. So two 32-byte keys of a session, or of two
  sessions with different inputs, can only coincide through a collision of SHA-256.
\<close>

theorem session_keys_bind:
  assumes "length K = 32" and "length K' = 32" and "length H = 32" and "length H' = 32"
  shows "derive_transport_keys lib K H sid = Inr
      \<lparr>iv_cs = take 16 (crypto_hash_sha256 lib (key_input K H 65 sid)),
       iv_sc = take 16 (crypto_hash_sha256 lib (key_input K H 66 sid)),
       encryption_key_cs = crypto_hash_sha256 lib (key_input K H 67 sid),
       encryption_key_sc = crypto_hash_sha256 lib (key_input K H 68 sid),
       mac_key_cs = crypto_hash_sha256 lib (key_input K H 69 sid),
       mac_key_sc = crypto_hash_sha256 lib (key_input K H 70 sid)\<rparr> \<and>
    (key_input K H l sid = key_input K' H' l' sid' \<longleftrightarrow> K = K' \<and> H = H' \<and> l = l' \<and> sid = sid')"
proof
  show "derive_transport_keys lib K H sid = Inr
      \<lparr>iv_cs = take 16 (crypto_hash_sha256 lib (key_input K H 65 sid)),
       iv_sc = take 16 (crypto_hash_sha256 lib (key_input K H 66 sid)),
       encryption_key_cs = crypto_hash_sha256 lib (key_input K H 67 sid),
       encryption_key_sc = crypto_hash_sha256 lib (key_input K H 68 sid),
       mac_key_cs = crypto_hash_sha256 lib (key_input K H 69 sid),
       mac_key_sc = crypto_hash_sha256 lib (key_input K H 70 sid)\<rparr>"
    using assms(1) by (simp add: derive_transport_keys_def derive_key_material_eq key_input_def)
  have "K = K' \<and> H = H' \<and> l = l' \<and> sid = sid'" if "key_input K H l sid = key_input K' H' l' sid'"
  proof -
    have "mpint_magnitude K = mpint_magnitude K' \<and> H @ l # sid = H' @ l' # sid'"
      using that assms(1,2) unfolding key_input_def by (intro string_codec.parse_unique) (simp_all add: mpint_fits)
    with assms mpint_inject [of K K'] show ?thesis by simp
  qed
  then show "key_input K H l sid = key_input K' H' l' sid' \<longleftrightarrow> K = K' \<and> H = H' \<and> l = l' \<and> sid = sid'" by blast
qed

theorem session_keys_bind_witness:
  "\<exists>keys. derive_transport_keys (sample_crypto\<lparr>crypto_hash_sha256 := id\<rparr>) (replicate 32 1) (replicate 32 2) [3] = Inr keys \<and>
     encryption_key_cs keys \<noteq> encryption_key_sc keys \<and> mac_key_cs keys \<noteq> mac_key_sc keys \<and> encryption_key_cs keys \<noteq> mac_key_cs keys"
proof -
  let ?lib = "sample_crypto\<lparr>crypto_hash_sha256 := id\<rparr>" and ?K = "replicate 32 1 :: bytes" and ?H = "replicate 32 2 :: bytes"
  have l: "length ?K = 32" "length ?H = 32" by simp_all
  note b = session_keys_bind [OF l(1,1,2,2)]
  have "key_input ?K ?H 67 [3] \<noteq> key_input ?K ?H 68 [3]" "key_input ?K ?H 69 [3] \<noteq> key_input ?K ?H 70 [3]"
    "key_input ?K ?H 67 [3] \<noteq> key_input ?K ?H 69 [3]"
    using b [THEN conjunct2, of 67 "[3]" 68 "[3]"] b [THEN conjunct2, of 69 "[3]" 70 "[3]"] b [THEN conjunct2, of 67 "[3]" 69 "[3]"]
    by simp_all
  with b [THEN conjunct1, of ?lib "[3]"] show ?thesis by simp
qed

text \<open>
  C35: The server's reply is accepted exactly in its canonical form: \<open>parse_ecdh_reply\<close> and then
  \<open>parse_ed25519_verification_data\<close> return a host key and a signature if and only if the payload is the
  reply message with an \<open>ssh-ed25519\<close> key blob of 32 bytes, a 32-byte Curve25519 key and an
  \<open>ssh-ed25519\<close> signature blob of 64 bytes, and \<open>ssh-ed25519\<close> was negotiated; nothing may precede, follow or
  stand between these fields.
\<close>

theorem server_reply_exact:
  "bindE (parse_ecdh_reply payload) (\<lambda>r. bindE (parse_ed25519_verification_data r algorithm) (\<lambda>d.
       Inr (server_public_key r, d))) = Inr (pk, d) \<longleftrightarrow>
     algorithm = ''ssh-ed25519'' \<and> length pk = 32 \<and> length (public_key d) = 32 \<and> length (signature d) = 64 \<and>
     payload = KEX_ECDH_REPLY # ssh_string (ssh_string ed25519_name @ ssh_string (public_key d)) @ ssh_string pk @
       ssh_string (ssh_string ed25519_name @ ssh_string (signature d))"
  (is "?L \<longleftrightarrow> ?R")
proof
  assume ?L
  then obtain r where "parse_ecdh_reply payload = Inr r" "parse_ed25519_verification_data r algorithm = Inr d"
    "server_public_key r = pk" by (auto simp: result_iff)
  with parse_ecdh_reply_sound [of payload r] parse_ed25519_sound [of r algorithm d] show ?R
    by (simp add: reply_layout_def)
next
  assume R: ?R
  define r where "r = \<lparr>server_host_key = ssh_string ed25519_name @ ssh_string (public_key d), server_public_key = pk,
    reply_signature = ssh_string ed25519_name @ ssh_string (signature d)\<rparr>"
  from R have "payload = reply_layout r" by (simp add: r_def reply_layout_def)
  moreover have "parse_ecdh_reply (reply_layout r) = Inr r"
    using R by (intro parse_ecdh_reply_complete)
      (simp_all add: r_def string_fits_def uint32_max_def ed25519_name_def)
  moreover have "parse_ed25519_verification_data r ''ssh-ed25519'' = Inr d"
    using R by (intro parse_ed25519_complete) (simp_all add: r_def)
  ultimately show ?L using R by (simp add: r_def)
qed

end
