(* ===== verification/SSH_Known_Hosts.thy ===== *)
theory SSH_Known_Hosts
  imports SSH_Machine
begin

section \<open>Known hosts (\<open>known_hosts/known_hosts.cpp\<close>)\<close>

text \<open>
  The file of trusted host keys: \<open>check\<close> looks a host up, \<open>add\<close> appends an entry for a new one. The file
  system is the field \<open>files\<close> of the machine. The locale \<open>trust_store\<close> states what the key exchange
  relies on: an added key matches from then on, other hosts are unaffected, and a key that has
  been stored for a host is never replaced.
\<close>

datatype HostKeyStatus = Unknown | Match | Changed

subsection \<open>Whitespace-separated fields\<close>

definition is_space :: "char \<Rightarrow> bool" where
  "is_space c \<longleftrightarrow> c = CHR '' '' \<or> (9 \<le> (of_char c :: nat) \<and> (of_char c :: nat) \<le> 13)"

text \<open>\<open>stream >> word\<close>: skip white space, then take characters up to the next white space.\<close>

definition read_word :: "string \<Rightarrow> (string \<times> string) option" where
  "read_word input =
     (let rest = dropWhile is_space input
      in if rest = [] then None
         else Some (takeWhile (\<lambda>c. \<not> is_space c) rest, dropWhile (\<lambda>c. \<not> is_space c) rest))"

definition read_fields :: "string \<Rightarrow> (string \<times> string \<times> string) option" where
  "read_fields line =
     (case read_word line of None \<Rightarrow> None | Some (saved_hostname, rest) \<Rightarrow>
      case read_word rest of None \<Rightarrow> None | Some (saved_algorithm, rest) \<Rightarrow>
      case read_word rest of None \<Rightarrow> None | Some (saved_key, rest) \<Rightarrow>
      Some (saved_hostname, saved_algorithm, saved_key))"

subsection \<open>Operations\<close>

definition encode_base64 :: "'ctx crypto \<Rightarrow> bytes \<Rightarrow> string result" where
  "encode_base64 lib bytes =
     (if bytes = [] then throw ''Cannot encode an empty host key''
      else case sodium_bin2base64 lib ORIGINAL bytes of
        None \<Rightarrow> throw ''Failed to encode host key''
      | Some encoded \<Rightarrow> Inr encoded)"

text \<open>
  The lines that \<open>std::getline\<close> delivers before it fails: all of them, the last one with or without its newline, or,
  when an error occurs at some position, the complete lines before this position. A line in which the error
  occurs is not delivered.
\<close>

definition lines_read :: "nat option \<Rightarrow> string \<Rightarrow> string list" where
  "lines_read failure contents = (case failure of
     None \<Rightarrow> getlines (CHR ''\<newline>'') contents
   | Some n \<Rightarrow> getlines (CHR ''\<newline>'') (rev (dropWhile (\<lambda>c. c \<noteq> CHR ''\<newline>'') (rev (take n contents)))))"

text \<open>The loop over the lines of the file; \<open>None\<close> when it runs to the end.\<close>

fun check_lines :: "string \<Rightarrow> string \<Rightarrow> string \<Rightarrow> string list \<Rightarrow> HostKeyStatus option result" where
  "check_lines hostname algorithm encoded_key [] = Inr None"
| "check_lines hostname algorithm encoded_key (line # lines) =
     (if line = [] then check_lines hostname algorithm encoded_key lines
      else case read_fields line of
        None \<Rightarrow> throw ''Malformed known-hosts entry''
      | Some (saved_hostname, saved_algorithm, saved_key) \<Rightarrow>
          if saved_hostname \<noteq> hostname then check_lines hostname algorithm encoded_key lines
          else if saved_algorithm = algorithm \<and> saved_key = encoded_key then Inr (Some Match)
          else Inr (Some Changed))"

definition check ::
  "posix \<Rightarrow> 'ctx crypto \<Rightarrow> string \<Rightarrow> (string \<rightharpoonup> string) \<Rightarrow> string \<Rightarrow> string \<Rightarrow> bytes \<Rightarrow> HostKeyStatus result" where
  "check os lib file_path fs hostname algorithm host_key =
     bindE (encode_base64 lib host_key) (\<lambda>encoded_key.
     if \<not> file_status_ok os file_path then Inl Filesystem_error
     else case fs file_path of
       None \<Rightarrow> Inr Unknown
     | Some contents \<Rightarrow>
         if \<not> file_readable os file_path then throw ''Failed to open known-hosts file''
         else bindE (check_lines hostname algorithm encoded_key (lines_read (file_read_error os file_path) contents)) (\<lambda>found.
           case found of
             Some status \<Rightarrow> Inr status
           | None \<Rightarrow>
               if file_read_error os file_path \<noteq> None then throw ''Failed while reading known-hosts file''
               else Inr Unknown))"

definition parent_path :: "string \<Rightarrow> string" where
  "parent_path path =
     (let directory = rev (dropWhile (\<lambda>c. c \<noteq> CHR ''/'') (rev path));
          stripped = rev (dropWhile (\<lambda>c. c = CHR ''/'') (rev directory))
      in if stripped = [] then directory else stripped)"

definition add ::
  "posix \<Rightarrow> 'ctx crypto \<Rightarrow> string \<Rightarrow> string \<Rightarrow> string \<Rightarrow> bytes \<Rightarrow> ('x machine_scheme, unit) comp" where
  "add os lib file_path hostname algorithm host_key =
     bindC (getsC files) (\<lambda>fs.
     bindC (liftE (check os lib file_path fs hostname algorithm host_key)) (\<lambda>status.
     if status = Match then returnC ()
     else if status = Changed then raiseC ''Refusing to replace existing host key''
     else
       let directory = parent_path file_path in
       if directory \<noteq> [] \<and> \<not> create_directories_ok os directory then stopC (Raised Filesystem_error)
       else if \<not> file_writable os file_path then raiseC ''Failed to open known-hosts file for writing''
       else
         bindC (liftE (encode_base64 lib host_key)) (\<lambda>encoded_key.
         let old = (case fs file_path of None \<Rightarrow> [] | Some contents \<Rightarrow> contents);
             (good, written) = file_append os file_path
               (hostname @ '' '' @ algorithm @ '' '' @ encoded_key @ ''\<newline>'')
         in bindC (modifyC (\<lambda>w. w\<lparr>files := fs(file_path \<mapsto> old @ written)\<rparr>)) (\<lambda>_.
            if \<not> good then raiseC ''Failed to write known-hosts entry'' else returnC ()))))"

subsection \<open>Words\<close>

definition is_word :: "string \<Rightarrow> bool" where
  "is_word s \<longleftrightarrow> s \<noteq> [] \<and> \<not> list_ex is_space s"

lemma read_word_space:
  assumes "is_word x" and "r = [] \<or> is_space (hd r)"
  shows "read_word (x @ r) = Some (x, r)"
proof -
  from assms(1) obtain c cs where x: "x = c # cs" "\<not> is_space c" by (cases x) (auto simp: is_word_def)
  have all: "\<forall>c \<in> set x. \<not> is_space c" using assms(1) by (simp add: is_word_def list_ex_iff)
  then have "takeWhile (\<lambda>c. \<not> is_space c) (x @ r) = x @ takeWhile (\<lambda>c. \<not> is_space c) r"
    "dropWhile (\<lambda>c. \<not> is_space c) (x @ r) = dropWhile (\<lambda>c. \<not> is_space c) r"
    by (simp_all add: takeWhile_append2 dropWhile_append2)
  moreover have "takeWhile (\<lambda>c. \<not> is_space c) r = []" "dropWhile (\<lambda>c. \<not> is_space c) r = r"
    using assms(2) by (cases r; simp)+
  moreover have "dropWhile is_space (x @ r) = x @ r" using x by simp
  ultimately show ?thesis using x by (simp add: read_word_def Let_def)
qed

lemma read_word_skip: "is_space c \<Longrightarrow> read_word (c # s) = read_word s"
  by (simp add: read_word_def)

lemma is_space_blank [simp]: "is_space (CHR '' '')" "is_space (CHR ''\<newline>'')"
  by (simp_all add: is_space_def)

lemma read_fields_entry:
  assumes "is_word h" "is_word a" "is_word k"
  shows "read_fields (h @ CHR '' '' # a @ CHR '' '' # k) = Some (h, a, k)"
  using read_word_space [of h "CHR '' '' # a @ CHR '' '' # k"] read_word_space [of a "CHR '' '' # k"]
    read_word_space [of k "[]"] assms
  by (simp add: read_fields_def read_word_skip)

subsection \<open>The loop over the lines\<close>

text \<open>A line that the search for \<open>hostname\<close> passes over.\<close>

definition skipped :: "string \<Rightarrow> string \<Rightarrow> bool" where
  "skipped hostname line \<longleftrightarrow>
     line = [] \<or> (case read_fields line of None \<Rightarrow> False | Some (h, _, _) \<Rightarrow> h \<noteq> hostname)"

lemma check_lines_skip: "list_all (skipped h) pre \<Longrightarrow> check_lines h a k (pre @ ls) = check_lines h a k ls"
  by (induction pre) (auto simp: skipped_def split: option.splits)

lemma check_lines_None: "check_lines h a k ls = Inr None \<longleftrightarrow> list_all (skipped h) ls"
  by (induction ls) (auto simp: skipped_def split: option.splits)

lemma check_lines_hit:
  "line \<noteq> [] \<Longrightarrow> read_fields line = Some (h, a', k') \<Longrightarrow>
     check_lines h a k (line # post) = Inr (Some (if a' = a \<and> k' = k then Match else Changed))"
  by simp

lemma check_lines_Some:
  "check_lines h a k ls = Inr (Some st) \<longleftrightarrow>
     (\<exists>pre line post a' k'. ls = pre @ line # post \<and> list_all (skipped h) pre \<and> line \<noteq> [] \<and>
        read_fields line = Some (h, a', k') \<and> st = (if a' = a \<and> k' = k then Match else Changed))"
proof
  assume "check_lines h a k ls = Inr (Some st)"
  then show "\<exists>pre line post a' k'. ls = pre @ line # post \<and> list_all (skipped h) pre \<and> line \<noteq> [] \<and>
        read_fields line = Some (h, a', k') \<and> st = (if a' = a \<and> k' = k then Match else Changed)"
  proof (induction ls)
    case Nil
    then show ?case by simp
  next
    case (Cons l ls)
    show ?case
    proof (cases "skipped h l")
      case True
      with Cons.prems have "check_lines h a k ls = Inr (Some st)"
        using check_lines_skip [of h "[l]" a k ls] by simp
      from Cons.IH [OF this] obtain pre line post a' k' where o: "ls = pre @ line # post"
        "list_all (skipped h) pre" "line \<noteq> []" "read_fields line = Some (h, a', k')"
        "st = (if a' = a \<and> k' = k then Match else Changed)" by blast
      have "l # ls = (l # pre) @ line # post" "list_all (skipped h) (l # pre)" using True o(1,2) by simp_all
      with o(3-5) show ?thesis by blast
    next
      case False
      with Cons.prems obtain a' k' where "l \<noteq> []" "read_fields l = Some (h, a', k')"
        by (auto simp: skipped_def split: option.splits)
      moreover from this Cons.prems have "st = (if a' = a \<and> k' = k then Match else Changed)" by (simp split: if_splits)
      moreover have "l # ls = [] @ l # ls" "list_all (skipped h) []" by simp_all
      ultimately show ?thesis by blast
    qed
  qed
next
  assume "\<exists>pre line post a' k'. ls = pre @ line # post \<and> list_all (skipped h) pre \<and> line \<noteq> [] \<and>
        read_fields line = Some (h, a', k') \<and> st = (if a' = a \<and> k' = k then Match else Changed)"
  then show "check_lines h a k ls = Inr (Some st)"
    by (elim exE conjE) (simp only: check_lines_skip, rule check_lines_hit)
qed

lemma check_lines_other:
  "h' \<noteq> h \<Longrightarrow> read_fields line = Some (h, a, k) \<Longrightarrow>
     check_lines h' a' k' (ls @ [line]) = check_lines h' a' k' ls"
  by (induction ls) (auto split: option.splits)

lemma check_lines_key: "check_lines h a k ls = Inr (Some st) \<Longrightarrow> \<exists>st'. check_lines h a' k' ls = Inr (Some st')"
  unfolding check_lines_Some by blast

lemma check_lines_not_Unknown: "check_lines h a k ls \<noteq> Inr (Some Unknown)"
  by (auto simp: check_lines_Some split: if_splits)

lemma check_lines_Match_unique:
  "check_lines h a k ls = Inr (Some Match) \<Longrightarrow> check_lines h a k' ls = Inr (Some Match) \<Longrightarrow> k = k'"
  by (induction ls) (auto split: option.splits if_splits)

lemma safe_check_lines [simp]: "safe (check_lines h a k ls)"
  by (induction ls) (auto split: option.splits)

lemma safe_check [simp]: "safe (check os lib path fs h a k)"
  by (auto simp: check_def encode_base64_def safe_def bindE_eq_Inl split: option.splits if_splits)
     (use safe_check_lines in \<open>auto simp: safe_def\<close>)

subsection \<open>The file as a trust store\<close>

definition disk_reliable :: "posix \<Rightarrow> string \<Rightarrow> bool" where
  "disk_reliable os path \<longleftrightarrow>
     file_status_ok os path \<and> file_readable os path \<and> file_read_error os path = None \<and>
     (\<forall>t. file_append os path t = (True, t))"

text \<open>
  Documented of \<open>sodium_bin2base64\<close>: it encodes every buffer, injectively, in letters, digits and
  signs, so in particular without white space.
\<close>

definition base64_documented :: "'ctx crypto \<Rightarrow> bool" where
  "base64_documented lib \<longleftrightarrow>
     (\<forall>bs. bs \<noteq> [] \<longrightarrow> (\<exists>s. sodium_bin2base64 lib ORIGINAL bs = Some s \<and> is_word s)) \<and>
     inj (sodium_bin2base64 lib ORIGINAL)"

definition closed_file :: "string \<Rightarrow> (string \<rightharpoonup> string) \<Rightarrow> bool" where
  "closed_file path fs \<longleftrightarrow> (case fs path of None \<Rightarrow> True | Some contents \<Rightarrow> terminated (CHR ''\<newline>'') contents)"

definition file_lines :: "string \<Rightarrow> (string \<rightharpoonup> string) \<Rightarrow> string list" where
  "file_lines path fs = (case fs path of None \<Rightarrow> [] | Some contents \<Rightarrow> getlines (CHR ''\<newline>'') contents)"

lemma encode_base64_documented:
  assumes "base64_documented lib"
  shows "bs \<noteq> [] \<Longrightarrow> \<exists>s. encode_base64 lib bs = Inr s \<and> is_word s"
    and "encode_base64 lib bs = Inr s \<Longrightarrow> bs \<noteq> [] \<and> is_word s"
    and "encode_base64 lib bs = Inr s \<Longrightarrow> encode_base64 lib bs' = Inr s \<Longrightarrow> bs = bs'"
proof -
  note doc = assms [unfolded base64_documented_def]
  show 1: "\<exists>s. encode_base64 lib bs = Inr s \<and> is_word s" if "bs \<noteq> []" for bs
  proof -
    from doc that obtain s where "sodium_bin2base64 lib ORIGINAL bs = Some s" "is_word s" by blast
    with that show ?thesis by (simp add: encode_base64_def)
  qed
  show "bs \<noteq> [] \<and> is_word s" if e: "encode_base64 lib bs = Inr s"
  proof -
    have "bs \<noteq> []" using e by (auto simp: encode_base64_def)
    with 1 [of bs] e show ?thesis by auto
  qed
  have e: "sodium_bin2base64 lib ORIGINAL bs = Some s" if "encode_base64 lib bs = Inr s" for bs
    using that by (simp add: encode_base64_def split: option.splits if_splits)
  show "bs = bs'" if "encode_base64 lib bs = Inr s" "encode_base64 lib bs' = Inr s"
    using injD [OF doc [THEN conjunct2], of bs bs'] e [OF that(1)] e [OF that(2)] by simp
qed

text \<open>On a reliable disk \<open>check\<close> is the search through the lines of the file.\<close>

lemma check_reliable:
  assumes "disk_reliable os path"
  shows "check os lib path fs h a key =
    bindE (encode_base64 lib key) (\<lambda>k. bindE (check_lines h a k (file_lines path fs))
      (\<lambda>found. Inr (case found of Some st \<Rightarrow> st | None \<Rightarrow> Unknown)))"
  using assms
  by (auto simp: check_def disk_reliable_def file_lines_def lines_read_def bindE_def split: option.split sum.split)

lemma check_known:
  assumes "disk_reliable os path" "check os lib path fs h a' key' = Inr st" "st \<noteq> Unknown"
  shows "check os lib path fs h a key \<noteq> Inr Unknown"
proof
  assume "check os lib path fs h a key = Inr Unknown"
  then obtain k f where "check_lines h a k (file_lines path fs) = Inr f" and f: "(case f of Some st \<Rightarrow> st | None \<Rightarrow> Unknown) = Unknown"
    by (auto simp: check_reliable [OF assms(1)] result_iff)
  moreover from assms(2,3) obtain k' where "check_lines h a' k' (file_lines path fs) = Inr (Some st)"
    by (auto simp: check_reliable [OF assms(1)] result_iff split: option.splits)
  then obtain st' where "check_lines h a k (file_lines path fs) = Inr (Some st')"
    using check_lines_key by blast
  moreover from this have "st' \<noteq> Unknown" by (auto simp: check_lines_Some split: if_splits)
  ultimately show False by (auto split: option.splits)
qed

text \<open>Any other key than the stored one counts as changed.\<close>

lemma check_other_key:
  assumes "disk_reliable os path" "base64_documented lib" "check os lib path fs h a key = Inr Match" "key' \<noteq> key" "key' \<noteq> []"
  shows "check os lib path fs h a key' = Inr Changed"
proof -
  from assms(3) obtain k1 where k1: "encode_base64 lib key = Inr k1"
    "check_lines h a k1 (file_lines path fs) = Inr (Some Match)"
    by (auto simp: check_reliable [OF assms(1)] result_iff split: option.splits)
  from encode_base64_documented(1) [OF assms(2,5)] obtain k2 where k2: "encode_base64 lib key' = Inr k2" by blast
  with k1(1) assms(4) encode_base64_documented(3) [OF assms(2)] have "k1 \<noteq> k2" by blast
  with k1(2) have "check_lines h a k2 (file_lines path fs) = Inr (Some Changed)"
    using check_lines_key [OF k1(2), of a k2] check_lines_Match_unique check_lines_not_Unknown
    by (metis HostKeyStatus.exhaust)
  with k2 show ?thesis by (simp add: check_reliable [OF assms(1)])
qed

lemma run_add_not_unknown:
  "check os lib path (files w) h a key \<noteq> Inr Unknown \<Longrightarrow> snd (add os lib path h a key w) = w"
proof (cases "check os lib path (files w) h a key")
  case (Inl e)
  then show ?thesis by (simp add: add_def comp_simps)
next
  case (Inr st)
  then show "check os lib path (files w) h a key \<noteq> Inr Unknown \<Longrightarrow> ?thesis"
    by (cases st) (simp_all add: add_def comp_simps)
qed

lemma add_known:
  "check os lib path (files w) h a' key' = Inr st \<Longrightarrow> st \<noteq> Unknown \<Longrightarrow> disk_reliable os path \<Longrightarrow>
     snd (add os lib path h a key w) = w"
  by (intro run_add_not_unknown check_known)

lemma add_changed:
  "check os lib path (files w) h a key = Inr Changed \<Longrightarrow>
     add os lib path h a key w = (Inl (Raised (Runtime_error ''Refusing to replace existing host key'')), w)"
  by (simp add: add_def comp_simps)

definition entry :: "string \<Rightarrow> string \<Rightarrow> string \<Rightarrow> string" where
  "entry h a k = h @ CHR '' '' # a @ CHR '' '' # k"

lemma add_outcome:
  assumes "disk_reliable os path"
  shows "snd (add os lib path h a key w) = w \<or>
    (\<exists>k. check os lib path (files w) h a key = Inr Unknown \<and> encode_base64 lib key = Inr k \<and>
       snd (add os lib path h a key w) = w\<lparr>files := (files w)(path \<mapsto>
         (case files w path of None \<Rightarrow> [] | Some c \<Rightarrow> c) @ entry h a k @ [CHR ''\<newline>''])\<rparr>)"
proof (cases "check os lib path (files w) h a key = Inr Unknown")
  case False
  then show ?thesis by (simp add: run_add_not_unknown)
next
  case True
  then obtain k where k: "encode_base64 lib key = Inr k" by (auto simp: check_def result_iff)
  have f: "file_append os path t = (True, t)" for t using assms by (simp add: disk_reliable_def)
  show ?thesis
    using True k by (auto simp: add_def comp_simps Let_def f entry_def)
qed

lemma entry_lines:
  assumes "is_word h" "is_word a" "is_word k"
  shows "getlines (CHR ''\<newline>'') (entry h a k @ [CHR ''\<newline>'']) = [entry h a k]"
    and "entry h a k \<noteq> []" and "read_fields (entry h a k) = Some (h, a, k)"
proof -
  have "CHR ''\<newline>'' \<notin> set x" if "is_word x" for x
    using that is_space_blank(2) by (auto simp: is_word_def list_ex_iff)
  with assms have "CHR ''\<newline>'' \<notin> set (entry h a k)" by (auto simp: entry_def)
  then show "getlines (CHR ''\<newline>'') (entry h a k @ [CHR ''\<newline>'']) = [entry h a k]"
    by (simp add: getlines_item)
  show "entry h a k \<noteq> []" by (simp add: entry_def)
  show "read_fields (entry h a k) = Some (h, a, k)"
    using read_fields_entry [OF assms] by (simp add: entry_def)
qed

text \<open>What \<open>add\<close> does to the lines of the file.\<close>

lemma add_lines:
  fixes w :: "'x machine_scheme" and key :: bytes
  assumes "disk_reliable os path" "base64_documented lib" "is_word h" "is_word a" "closed_file path (files w)"
  defines "w' \<equiv> snd (add os lib path h a key w)"
  shows "closed_file path (files w') \<and> (w' = w \<or> (\<exists>k. encode_base64 lib key = Inr k \<and>
     check os lib path (files w) h a key = Inr Unknown \<and>
     file_lines path (files w') = file_lines path (files w) @ [entry h a k] \<and>
     read_fields (entry h a k) = Some (h, a, k) \<and> entry h a k \<noteq> []))"
proof -
  from add_outcome [OF assms(1), of lib h a key w] consider (same) "w' = w"
    | (new) k where "check os lib path (files w) h a key = Inr Unknown" "encode_base64 lib key = Inr k"
      "w' = w\<lparr>files := (files w)(path \<mapsto>
         (case files w path of None \<Rightarrow> [] | Some c \<Rightarrow> c) @ entry h a k @ [CHR ''\<newline>''])\<rparr>"
    unfolding w'_def by blast
  then show ?thesis
  proof cases
    case same
    with assms(5) show ?thesis by simp
  next
    case new
    have k: "is_word k" using encode_base64_documented(2) [OF assms(2) new(2)] by simp
    note e = entry_lines [OF assms(3,4) k]
    have "closed_file path (files w')" by (simp add: new(3) closed_file_def terminated_def)
    moreover have "file_lines path (files w') = file_lines path (files w) @ [entry h a k]"
      using assms(5) e(1)
      by (auto simp: new(3) file_lines_def closed_file_def getlines_append split: option.splits)
    ultimately show ?thesis using new(1,2) e(2,3) by blast
  qed
qed

lemma check_lines_unknown_append:
  "list_all (skipped h) ls \<Longrightarrow> line \<noteq> [] \<Longrightarrow> read_fields line = Some (h, a, k) \<Longrightarrow>
     check_lines h a' k' (ls @ [line]) = Inr (Some (if a = a' \<and> k = k' then Match else Changed))"
  by (simp only: check_lines_skip, rule check_lines_hit)

lemma check_unknown:
  assumes "disk_reliable os path" "check os lib path fs h a key = Inr Unknown"
  shows "list_all (skipped h) (file_lines path fs)"
proof -
  from assms obtain k f where "check_lines h a k (file_lines path fs) = Inr f"
    and f: "(case f of Some st \<Rightarrow> st | None \<Rightarrow> Unknown) = Unknown"
    by (auto simp: check_reliable result_iff)
  then have "f = None" by (cases f) (auto simp: check_lines_Some split: if_splits)
  with \<open>check_lines h a k (file_lines path fs) = Inr f\<close> show ?thesis by (simp add: check_lines_None)
qed

subsection \<open>The contract\<close>

locale trust_store =
  fixes status :: "'s \<Rightarrow> 'h \<Rightarrow> 'e \<Rightarrow> HostKeyStatus result"
    and insert :: "'h \<Rightarrow> 'e \<Rightarrow> ('s, unit) comp"
    and wf :: "'s \<Rightarrow> bool"
    and storable :: "'h \<Rightarrow> 'e \<Rightarrow> bool"
  assumes insert_match:
      "wf s \<Longrightarrow> storable h e \<Longrightarrow> insert h e s = (Inr u, s') \<Longrightarrow> status s' h e = Inr Match"
    and insert_other:
      "wf s \<Longrightarrow> storable h e \<Longrightarrow> h' \<noteq> h \<Longrightarrow> status (snd (insert h e s)) h' e' = status s h' e'"
    and insert_wf: "wf s \<Longrightarrow> storable h e \<Longrightarrow> wf (snd (insert h e s))"
    and insert_known:
      "wf s \<Longrightarrow> storable h e \<Longrightarrow> status s h e' = Inr st \<Longrightarrow> st \<noteq> Unknown \<Longrightarrow> snd (insert h e s) = s"
begin

lemma insert_persists:
  assumes "wf s" "storable h' e'" "status s h e = Inr st" "st \<noteq> Unknown"
  shows "status (snd (insert h' e' s)) h e = Inr st"
  using assms insert_known [of s h' e' e st] insert_other [of s h' e' h e] by (cases "h' = h") auto

lemma history_persists:
  assumes "list_all (\<lambda>(h, e). storable h e) entries" "wf s" "status s h e = Inr st" "st \<noteq> Unknown"
  shows "status (fold (\<lambda>(h, e) s. snd (insert h e s)) entries s) h e = Inr st"
  using assms
proof (induction entries arbitrary: s)
  case Nil
  then show ?case by simp
next
  case (Cons he entries)
  obtain h' e' where he: "he = (h', e')" by (cases he)
  with Cons.prems have "storable h' e'" by simp
  with Cons.prems he show ?case
    using Cons.IH [of "snd (insert h' e' s)"] insert_persists [of s h' e' h e st] insert_wf [of s h' e'] by simp
qed

end

definition entry_storable :: "posix \<Rightarrow> 'ctx crypto \<Rightarrow> string \<Rightarrow> string \<Rightarrow> string \<times> bytes \<Rightarrow> bool" where
  "entry_storable os lib path h e \<longleftrightarrow>
     disk_reliable os path \<and> base64_documented lib \<and> is_word h \<and> is_word (fst e)"

lemma add_returns_match:
  assumes "disk_reliable os path" "base64_documented lib" "is_word h" "is_word a" "closed_file path (files w)"
    and "add os lib path h a key w = (Inr u, w')"
  shows "check os lib path (files w') h a key = Inr Match"
proof (cases "check os lib path (files w) h a key = Inr Match")
  case True
  then show ?thesis using assms(6) by (simp add: add_def comp_simps)
next
  case False
  from assms(6) obtain st where st: "check os lib path (files w) h a key = Inr st" by (auto simp: add_def result_iff)
  have "st \<noteq> Changed" using assms(6) st add_changed [of os lib path w h a key] by auto
  with False st have U: "check os lib path (files w) h a key = Inr Unknown" by (cases st) auto
  then obtain k where k: "encode_base64 lib key = Inr k" by (auto simp: check_def result_iff)
  have "file_lines path (files w') = file_lines path (files w) @ [entry h a k]"
  proof -
    have "w' \<noteq> w"
    proof
      assume "w' = w"
      have f: "file_append os path t = (True, t)" for t using assms(1) by (simp add: disk_reliable_def)
      from assms(6) U k have "files w' = (files w)(path \<mapsto>
          (case files w path of None \<Rightarrow> [] | Some c \<Rightarrow> c) @ entry h a k @ [CHR ''\<newline>''])"
        by (auto simp: add_def comp_simps f Let_def entry_def split: if_splits)
      then have "files w' path \<noteq> files w path" by (auto split: option.splits)
      with \<open>w' = w\<close> show False by simp
    qed
    with add_lines [OF assms(1-5), of key] assms(6) k show ?thesis by auto
  qed
  moreover have "is_word k" using encode_base64_documented(2) [OF assms(2) k] by simp
  note e = entry_lines [OF assms(3,4) this]
  ultimately show ?thesis
    using check_lines_unknown_append [OF check_unknown [OF assms(1) U] e(2,3)] k
    by (simp add: check_reliable [OF assms(1)])
qed

interpretation known_hosts: trust_store
  "\<lambda>(w :: 'x machine_scheme) h (a, key). check os lib path (files w) h a key"
  "\<lambda>h (a, key). add os lib path h a key"
  "\<lambda>w. closed_file path (files w)" "entry_storable os lib path" for os lib path
proof unfold_locales
  fix s s' :: "'x machine_scheme" and h e u
  assume "closed_file path (files s)" "entry_storable os lib path h e"
    "(case e of (a, key) \<Rightarrow> add os lib path h a key) s = (Inr u, s')"
  then show "(case e of (a, key) \<Rightarrow> check os lib path (files s') h a key) = Inr Match"
    by (cases e) (auto simp: entry_storable_def intro: add_returns_match)
next
  fix s :: "'x machine_scheme" and h e and h' :: string and e' :: "string \<times> bytes"
  assume a: "closed_file path (files s)" "entry_storable os lib path h e" "h' \<noteq> h"
  obtain alg key alg' key' where e: "e = (alg, key)" "e' = (alg', key')" by (cases e, cases e')
  from a(2) have d: "disk_reliable os path" "base64_documented lib" "is_word h" "is_word alg" by (auto simp: entry_storable_def e)
  from add_lines [OF d a(1), of key] a(3) show
    "(case e' of (a, key) \<Rightarrow> check os lib path (files (snd ((case e of (a, key) \<Rightarrow> add os lib path h a key) s))) h' a key) =
     (case e' of (a, key) \<Rightarrow> check os lib path (files s) h' a key)"
    by (auto simp: e check_reliable [OF d(1)] check_lines_other)
next
  fix s :: "'x machine_scheme" and h e
  assume a: "closed_file path (files s)" "entry_storable os lib path h e"
  obtain alg key where e: "e = (alg, key)" by (cases e)
  from a(2) have d: "disk_reliable os path" "base64_documented lib" "is_word h" "is_word alg" by (auto simp: entry_storable_def e)
  from add_lines [OF d a(1), of key]
  show "closed_file path (files (snd ((case e of (a, key) \<Rightarrow> add os lib path h a key) s)))" by (simp add: e)
next
  fix s :: "'x machine_scheme" and h e e' st
  assume a: "entry_storable os lib path h e"
    "(case e' of (a, key) \<Rightarrow> check os lib path (files s) h a key) = Inr st" "st \<noteq> Unknown"
  then show "snd ((case e of (a, key) \<Rightarrow> add os lib path h a key) s) = s"
    by (cases e; cases e') (auto simp: entry_storable_def intro: add_known)
qed

subsection \<open>Properties\<close>

lemma is_word_sample_base64: "bs \<noteq> [] \<Longrightarrow> is_word (concat (map (\<lambda>b :: byte.
    [char_of (97 + unat b div 16), char_of (97 + unat b mod 16)]) bs))"
proof -
  have "\<not> is_space (char_of (97 + n))" if "n < 16" for n :: nat
  proof -
    have v: "(of_char (char_of (97 + n) :: char) :: nat) = 97 + n" using that by (simp add: of_char_of)
    have "char_of (97 + n) \<noteq> CHR '' ''"
    proof
      assume "char_of (97 + n) = CHR '' ''"
      with v have "(of_char (CHR '' '') :: nat) = 97 + n" by (simp only:)
      then show False by simp
    qed
    then show ?thesis unfolding is_space_def v by simp
  qed
  moreover have "unat b div 16 < 16" "unat b mod 16 < 16" for b :: byte
    using unat_byte_less [of b] by auto
  ultimately show "bs \<noteq> [] \<Longrightarrow> ?thesis" by (auto simp: is_word_def list_ex_iff neq_Nil_conv)
qed

lemma sample_base64_inject:
  "concat (map (\<lambda>b :: byte. [char_of (97 + unat b div 16), char_of (97 + unat b mod 16)]) bs) =
   concat (map (\<lambda>b. [char_of (97 + unat b div 16), char_of (97 + unat b mod 16)]) bs') \<Longrightarrow> bs = bs'"
proof (induction bs arbitrary: bs')
  case Nil
  then show ?case by (cases bs') auto
next
  case (Cons b bs)
  then obtain b' bs'' where bs': "bs' = b' # bs''" by (cases bs') auto
  have c: "m = n" if "char_of (97 + m) = (char_of (97 + n) :: char)" "m < 16" "n < 16" for m n :: nat
    using arg_cong [OF that(1), of "of_char :: char \<Rightarrow> nat"] that(2,3) by (simp add: of_char_of)
  from Cons.prems bs' have "unat b div 16 = unat b' div 16" "unat b mod 16 = unat b' mod 16"
    using unat_byte_less [of b] unat_byte_less [of b'] by (auto intro!: c)
  then have "unat b = unat b'" by (metis div_mult_mod_eq)
  with Cons.IH [of bs''] Cons.prems bs' show ?case by (simp add: word_unat_eq_iff)
qed

lemma sample_base64_documented: "base64_documented sample_crypto"
  unfolding base64_documented_def inj_def
  by (auto simp: sample_crypto_def is_word_sample_base64 dest: sample_base64_inject)

lemma willing_disk_reliable: "disk_reliable willing_posix path"
  by (simp add: disk_reliable_def willing_posix_def)




text \<open>
  C18: Trust is never replaced, as long as the disk works and the last line of the file is complete to begin with. After any
  sequence of calls of \<open>add\<close>, for any hosts and algorithms without white space and any keys, whether they succeed or
  throw, a key that matched still matches; and an attempt to store a
  different key for its host throws and changes nothing. Without a complete last line this fails, see below.
\<close>

theorem trusted_key_stays:
  assumes "disk_reliable os path" and "base64_documented lib"
    and "list_all (\<lambda>(h, a, k). is_word h \<and> is_word a) entries"
    and "closed_file path (files w)" and "check os lib path (files w) hostname algorithm key = Inr Match"
    and "w' = fold (\<lambda>(h, a, k) w. snd (add os lib path h a k w)) entries w"
  shows "check os lib path (files w') hostname algorithm key = Inr Match \<and>
    (key' = key \<or> key' = [] \<or> add os lib path hostname algorithm key' w' =
       (Inl (Raised (Runtime_error ''Refusing to replace existing host key'')), w'))"
proof -
  have "list_all (\<lambda>(h, e). entry_storable os lib path h e) entries"
    using assms(1-3) by (auto simp: list_all_iff entry_storable_def)
  from known_hosts.history_persists [OF this assms(4), of hostname "(algorithm, key)" Match] assms(5)
  have m: "check os lib path (files w') hostname algorithm key = Inr Match"
    by (simp add: assms(6) split_def)
  from check_other_key [OF assms(1,2) m] add_changed m show ?thesis by blast
qed

theorem trusted_key_stays_witness:
  "check willing_posix sample_crypto ''f'' (files (idle_machine\<lparr>files := [''f'' \<mapsto> ''h a ab'' @ [CHR ''\<newline>'']]\<rparr>)) ''h'' ''a'' [1] = Inr Match \<and>
   check willing_posix sample_crypto ''f'' (files (fold (\<lambda>(h, a, k) w. snd (add willing_posix sample_crypto ''f'' h a k w))
     [(''h'', ''a'', [2]), (''g'', ''a'', [3])] (idle_machine\<lparr>files := [''f'' \<mapsto> ''h a ab'' @ [CHR ''\<newline>'']]\<rparr>))) ''h'' ''a'' [1] = Inr Match"
proof -
  let ?w = "idle_machine\<lparr>files := [''f'' \<mapsto> ''h a ab'' @ [CHR ''\<newline>'']]\<rparr>"
  have cl: "closed_file ''f'' (files ?w)" by (simp add: closed_file_def terminated_def)
  have wd: "is_word ''h''" "is_word ''a''" "is_word ''g''" "is_word ''ab''" by (simp_all add: is_word_def is_space_def)
  have l: "getlines (CHR ''\<newline>'') (''h a ab'' @ [CHR ''\<newline>'']) = [''h a ab'']"
    using getlines_item [of "CHR ''\<newline>''" "''h a ab''" "[]"] by simp
  have f: "read_fields ''h a ab'' = Some (''h'', ''a'', ''ab'')" using read_fields_entry [OF wd(1,2,4)] by simp
  have b: "encode_base64 sample_crypto [1] = Inr ''ab''" by code_simp
  have c: "check willing_posix sample_crypto ''f'' (files ?w) ''h'' ''a'' [1] = Inr Match"
    by (simp add: check_reliable [OF willing_disk_reliable] file_lines_def l f b del: append.simps)
  have e: "list_all (\<lambda>(h, a, k). is_word h \<and> is_word a) [(''h'', ''a'', [2 :: byte]), (''g'', ''a'', [3])]" using wd by simp
  show ?thesis
    using c trusted_key_stays [OF willing_disk_reliable sample_base64_documented e cl c refl] by blast
qed

text \<open>
  The last line has to be complete: \<open>add\<close> does not check it, and an entry appended to a line without its
  newline merges with that line, so that the host just added stays unknown, and the key stored in
  that line counts as changed.
\<close>

lemma unterminated_file_loses_entry:
  "let w' = snd (add willing_posix sample_crypto ''f'' ''h'' ''a'' [1] (idle_machine\<lparr>files := [''f'' \<mapsto> ''g a b'']\<rparr>))
   in files w' ''f'' = Some (''g a bh a ab'' @ [CHR ''\<newline>'']) \<and>
      check willing_posix sample_crypto ''f'' (files w') ''h'' ''a'' [1] = Inr Unknown"
  by code_simp

lemma unterminated_file_changes_entry:
  "let w = idle_machine\<lparr>files := [''f'' \<mapsto> ''h a ab'']\<rparr>; w' = snd (add willing_posix sample_crypto ''f'' ''g'' ''a'' [3] w)
   in check willing_posix sample_crypto ''f'' (files w) ''h'' ''a'' [1] = Inr Match \<and>
      check willing_posix sample_crypto ''f'' (files w') ''h'' ''a'' [1] = Inr Changed"
  by code_simp

end
