(* ===== verification/SSH_Auth.thy ===== *)
theory SSH_Auth
  imports SSH_Encoding
begin

section \<open>User authentication (\<open>auth/auth.cpp\<close>)\<close>

text \<open>
  The messages of the \<open>ssh-userauth\<close> service: requests as byte strings, responses parsed or validated.
  The lemmas give the exact payloads that each function creates and accepts.
\<close>

record AuthFailure =
  available_methods :: string
  partial_success :: bool

definition create_service_request :: "bytes result" where
  "create_service_request = append_text [SERVICE_REQUEST] ''ssh-userauth''"

definition validate_service_accept :: "bytes \<Rightarrow> unit result" where
  "validate_service_accept payload =
     (if payload = [] then throw ''Payload cannot be empty''
      else bindE (at_index payload 0) (\<lambda>message.
      if message \<noteq> SERVICE_ACCEPT then throw ''SSH_MSG_SERVICE_ACCEPT was expected''
      else bindE (read_string payload 1) (\<lambda>(service_bytes, position).
      let service_name = string_of_bytes service_bytes in
      if service_name \<noteq> ''ssh-userauth'' then throw ''String doesn't match ssh-userauth''
      else if position \<noteq> length payload then throw ''Extra bytes received''
      else Inr ())))"

definition create_none_auth_request :: "string \<Rightarrow> bytes result" where
  "create_none_auth_request username =
     bindE (append_text [USERAUTH_REQUEST] username) (\<lambda>payload.
     bindE (append_text payload ''ssh-connection'') (\<lambda>payload.
     append_text payload ''none''))"

definition parse_auth_failure :: "bytes \<Rightarrow> AuthFailure result" where
  "parse_auth_failure payload =
     (if payload = [] then throw ''SSH_MSG_USERAUTH_FAILURE expected''
      else bindE (at_index payload 0) (\<lambda>message.
      if message \<noteq> USERAUTH_FAILURE then throw ''SSH_MSG_USERAUTH_FAILURE expected''
      else bindE (read_string payload 1) (\<lambda>(authentication_method_vctr, position).
      if size_minus (length payload) position \<noteq> 1 then throw ''One byte expected''
      else bindE (at_index payload position) (\<lambda>flag.
      let position = position + 1 in
      if position \<noteq> length payload then throw ''No more bytes expected''
      else Inr \<lparr>available_methods = string_of_bytes authentication_method_vctr,
                partial_success = (flag \<noteq> 0)\<rparr>))))"

definition create_password_auth_request :: "string \<Rightarrow> string \<Rightarrow> bytes result" where
  "create_password_auth_request username password =
     bindE (append_text [USERAUTH_REQUEST] username) (\<lambda>payload.
     bindE (append_text payload ''ssh-connection'') (\<lambda>payload.
     bindE (append_text payload ''password'') (\<lambda>payload.
     append_text (payload @ [0]) password)))"

definition validate_auth_success :: "bytes \<Rightarrow> unit result" where
  "validate_auth_success payload =
     bindE (if length payload \<noteq> 1 then Inr True
            else bindE (at_index payload 0) (\<lambda>b. Inr (b \<noteq> USERAUTH_SUCCESS))) (\<lambda>wrong.
     if wrong then throw ''SSH_MSG_USERAUTH_SUCCESS expected'' else Inr ())"

subsection \<open>Memory safety\<close>

lemma safe_auth [simp]:
  "safe create_service_request" "safe (validate_service_accept p)" "safe (create_none_auth_request u)"
  "safe (parse_auth_failure p)" "safe (create_password_auth_request u pw)" "safe (validate_auth_success p)"
  unfolding create_service_request_def validate_service_accept_def create_none_auth_request_def
    parse_auth_failure_def create_password_auth_request_def validate_auth_success_def Let_def
  by (auto intro!: safe_bindE simp: codec_iff split: prod.splits)

subsection \<open>The requests\<close>

lemma create_service_request_eq: "create_service_request = Inr (SERVICE_REQUEST # text_field ''ssh-userauth'')"
  by (simp add: create_service_request_def append_text_fits short_text_fits text_field_def)

lemma create_none_auth_request_eq [result_iff]:
  "create_none_auth_request u = Inr p \<longleftrightarrow> length u \<le> uint32_max \<and>
     p = USERAUTH_REQUEST # text_field u @ text_field ''ssh-connection'' @ text_field ''none''"
  by (auto simp: create_none_auth_request_def result_iff short_text_fits text_field_def)
     (auto simp: string_fits_def)

lemma create_password_auth_request_eq [result_iff]:
  "create_password_auth_request u pw = Inr p \<longleftrightarrow> length u \<le> uint32_max \<and> length pw \<le> uint32_max \<and>
     p = USERAUTH_REQUEST # text_field u @ text_field ''ssh-connection'' @ text_field ''password'' @ 0 # text_field pw"
  by (auto simp: create_password_auth_request_def result_iff short_text_fits text_field_def)
     (auto simp: string_fits_def)

subsection \<open>The responses\<close>

lemma validate_service_accept_eq [result_iff]:
  "validate_service_accept payload = Inr u \<longleftrightarrow> payload = SERVICE_ACCEPT # text_field ''ssh-userauth''"
proof
  assume "validate_service_accept payload = Inr u"
  then obtain b where m: "payload \<noteq> []" "payload ! 0 = SERVICE_ACCEPT" and r: "read_string payload 1 = Inr (b, length payload)"
    and b: "string_of_bytes b = ''ssh-userauth''"
    by (auto simp: validate_service_accept_def result_iff Let_def split: prod.splits)
  have "drop 1 payload = ssh_string b" using string_codec.get_field [OF r] by simp
  with message_payload [OF m] b show "payload = SERVICE_ACCEPT # text_field ''ssh-userauth''"
    by (simp add: text_field_def string_of_bytes_eq_iff)
next
  define b where "b = bytes_of_string ''ssh-userauth''"
  assume p: "payload = SERVICE_ACCEPT # text_field ''ssh-userauth''"
  have "string_fits b" by (simp add: b_def short_text_fits)
  moreover have "drop 1 payload = ssh_string b @ []" by (simp add: p text_field_def b_def)
  ultimately have "read_string payload 1 = Inr (b, length payload)"
    using string_codec.get_complete [of b 1 payload "[]"] by (simp add: p text_field_def b_def)
  moreover have "string_of_bytes b = ''ssh-userauth''" by (simp add: b_def)
  moreover have "payload ! 0 = SERVICE_ACCEPT" "payload \<noteq> []" by (simp_all add: p)
  ultimately show "validate_service_accept payload = Inr u"
    unfolding validate_service_accept_def by (simp add: Let_def)
qed

lemma parse_auth_failure_eq [result_iff]:
  "parse_auth_failure payload = Inr f \<longleftrightarrow> length (available_methods f) \<le> uint32_max \<and>
     (\<exists>flag. partial_success f = (flag \<noteq> 0) \<and> payload = USERAUTH_FAILURE # text_field (available_methods f) @ [flag])"
proof
  assume "parse_auth_failure payload = Inr f"
  then obtain b pos where m: "payload \<noteq> []" "payload ! 0 = USERAUTH_FAILURE" and r: "read_string payload 1 = Inr (b, pos)"
    and pos: "Suc pos = length payload" and f: "f = \<lparr>available_methods = string_of_bytes b, partial_success = (payload ! pos \<noteq> 0)\<rparr>"
    by (auto simp: parse_auth_failure_def result_iff Let_def split: prod.splits)
  have d: "string_fits b" "drop 1 payload = ssh_string b @ drop pos payload" using string_codec.get_field [OF r] by auto
  moreover have "drop pos payload = [payload ! pos]"
    using pos Cons_nth_drop_Suc [of pos payload] by simp
  ultimately have "payload = USERAUTH_FAILURE # ssh_string b @ [payload ! pos]" using message_payload [OF m] by simp
  with d(1) show "length (available_methods f) \<le> uint32_max \<and>
     (\<exists>flag. partial_success f = (flag \<noteq> 0) \<and> payload = USERAUTH_FAILURE # text_field (available_methods f) @ [flag])"
    by (auto simp: f text_field_def string_fits_def)
next
  assume a: "length (available_methods f) \<le> uint32_max \<and>
     (\<exists>flag. partial_success f = (flag \<noteq> 0) \<and> payload = USERAUTH_FAILURE # text_field (available_methods f) @ [flag])"
  then obtain flag where flag: "partial_success f = (flag \<noteq> 0)"
    and p: "payload = USERAUTH_FAILURE # text_field (available_methods f) @ [flag]" by blast
  define b where "b = bytes_of_string (available_methods f)"
  have "string_fits b" using a by (simp add: b_def string_fits_def)
  moreover have "drop 1 payload = ssh_string b @ [flag]" by (simp add: p text_field_def b_def)
  ultimately have "read_string payload 1 = Inr (b, 1 + length (ssh_string b))" by (rule string_codec.get_complete)
  moreover have "payload ! (1 + length (ssh_string b)) = flag" "length payload = 2 + length (ssh_string b)"
    "payload ! 0 = USERAUTH_FAILURE" "payload \<noteq> []"
    by (simp_all add: p text_field_def b_def nth_append)
  ultimately show "parse_auth_failure payload = Inr f"
    using flag unfolding parse_auth_failure_def by (simp add: Let_def b_def)
qed

lemma validate_auth_success_eq [result_iff]: "validate_auth_success payload = Inr u \<longleftrightarrow> payload = [USERAUTH_SUCCESS]"
  by (cases payload) (auto simp: validate_auth_success_def)

subsection \<open>Properties\<close>

text \<open>
  C33: Each response parser accepts exactly one message format: the service accept names \<open>ssh-userauth\<close>
  and nothing else, a failure carries a method list and one flag byte, and success is a single
  byte. No trailing or missing byte is tolerated, so no other payload can be taken for an accepted login.
\<close>

theorem auth_responses_exact:
  "(validate_service_accept payload = Inr () \<longleftrightarrow> payload = SERVICE_ACCEPT # text_field ''ssh-userauth'') \<and>
   (parse_auth_failure payload = Inr f \<longleftrightarrow> length (available_methods f) \<le> uint32_max \<and>
     (\<exists>flag. partial_success f = (flag \<noteq> 0) \<and>
        payload = USERAUTH_FAILURE # text_field (available_methods f) @ [flag])) \<and>
   (validate_auth_success payload = Inr () \<longleftrightarrow> payload = [USERAUTH_SUCCESS])"
  by (simp add: validate_service_accept_eq parse_auth_failure_eq validate_auth_success_eq)

text \<open>
  C34: The password request is unambiguous: two requests with the same bytes have the same user name
  and password, whatever bytes these contain, and no password request is at the same time a
  request of method \<open>none\<close>.
\<close>

theorem password_request_unambiguous:
  assumes "create_password_auth_request username password = Inr payload"
  shows "(create_password_auth_request username' password' = Inr payload \<longleftrightarrow> username' = username \<and> password' = password) \<and>
    create_none_auth_request username' \<noteq> Inr payload"
proof -
  have n: "text_field ''password'' @ r \<noteq> text_field ''none''" for r
    using text_field_inject [of "''password''" "''none''" r "[]"] by (simp add: uint32_max_def)
  have p: "text_field x = text_field y \<longleftrightarrow> x = y" if "length x \<le> uint32_max" "length y \<le> uint32_max" for x y
    using text_field_inject [OF that, of "[]" "[]"] by simp
  from assms n show ?thesis by (auto simp: result_iff text_field_inject p)
qed

theorem password_request_unambiguous_witness:
  "\<exists>payload. create_password_auth_request ''u'' ''p'' = Inr payload \<and> create_none_auth_request ''u'' \<noteq> Inr payload"
proof -
  obtain payload where "create_password_auth_request ''u'' ''p'' = Inr payload"
    by (simp add: create_password_auth_request_eq uint32_max_def)
  with password_request_unambiguous [OF this, of "''u''"] show ?thesis by blast
qed

end
