(* ===== verification/SSH_Script.thy ===== *)
theory SSH_Script
  imports SSH_Transport
begin

section \<open>Runs against a scripted server\<close>

text \<open>
  A server whose packets are already queued, and a kernel that takes a whole packet at each call, let
  every packet operation succeed, in the clear and under the keys of the session. The lemmas run the
  client's steps against such a server; they show that the protocol steps complete.
\<close>

definition sendable :: "bytes \<Rightarrow> bool" where
  "sendable p \<longleftrightarrow> p \<noteq> [] \<and> length p \<le> 34976"

definition server_frame :: "bool \<Rightarrow> bytes \<Rightarrow> bytes" where
  "server_frame a p = frame p (replicate (calculate_padding_length a (length p)) 0)"

text \<open>The bytes a server sends for a list of payloads, in the clear and with a key stream and a MAC key.\<close>

definition script :: "bytes list \<Rightarrow> bytes" where
  "script ps = concat (map (server_frame False) ps)"

fun wire :: "'ctx crypto \<Rightarrow> (nat \<Rightarrow> byte) \<Rightarrow> u32 \<Rightarrow> bytes \<Rightarrow> bytes list \<Rightarrow> bytes" where
  "wire lib ks seq key [] = []"
| "wire lib ks seq key (p # ps) =
     xor_stream ks (server_frame True p) @ packet_mac lib seq (server_frame True p) key @
     wire lib (\<lambda>i. ks (length (server_frame True p) + i)) (seq + 1) key ps"

text \<open>What is documented of the functions a packet uses.\<close>

definition documented :: "'ctx crypto \<Rightarrow> ('ctx \<Rightarrow> nat \<Rightarrow> byte) \<Rightarrow> bool" where
  "documented lib stream \<longleftrightarrow> fills_buffers lib \<and> ctr_documented lib stream \<and> mac_documented lib"

lemma documentedD:
  assumes "documented lib stream"
  shows "fills_buffers lib" "ctr_documented lib stream" "mac_documented lib"
  using assms by (simp_all add: documented_def)

lemma sample_documented: "documented sample_crypto (\<lambda>c i. of_nat (c + i))"
  using sample_crypto_documented by (simp add: documented_def)

text \<open>
  The next packets of the peer are \<open>ps\<close>, followed by the bytes \<open>rest\<close>, and the kernel accepts \<open>n\<close> more
  packets.
\<close>

definition scripted ::
  "'ctx crypto \<Rightarrow> ('ctx \<Rightarrow> nat \<Rightarrow> byte) \<Rightarrow> bytes list \<Rightarrow> bytes \<Rightarrow> nat \<Rightarrow> ('ctx, 'x) transport_scheme \<Rightarrow> bool" where
  "scripted lib stream ps rest n w \<longleftrightarrow>
     list_all sendable ps \<and> tx_script w = replicate n (Tx_accept 35032) \<and>
     (outgoing_encryption_active w \<longrightarrow> outgoing_cipher w \<noteq> None) \<and>
     (if incoming_encryption_active w
      then \<exists>c. incoming_cipher w = Some c \<and>
             pending (rx w) = wire lib (stream c) (incoming_sequence w) (incoming_mac_key w) ps @ rest
      else pending (rx w) = script ps @ rest)"

lemma server_frame_well_framed:
  assumes "sendable p"
  shows "well_framed a p (replicate (calculate_padding_length a (length p)) 0)"
proof (rule send_well_framed)
  show "p \<noteq> []" using assms by (simp add: sendable_def)
  show "5 + length p + length (replicate (calculate_padding_length a (length p)) 0) \<le> 35000"
    using assms calculate_padding_length_bounds(2) [of a "length p"]
    by (simp add: sendable_def block_def split: if_splits)
qed simp

lemma scripted_receive:
  assumes docs: "documented lib stream" and s: "scripted lib stream (p # ps) rest n w"
  shows "\<exists>q c. receive_packet lib w = (Inr p, w\<lparr>rx := q, incoming_cipher := c, incoming_sequence := incoming_sequence w + 1\<rparr>) \<and>
    scripted lib stream ps rest n (w\<lparr>rx := q, incoming_cipher := c, incoming_sequence := incoming_sequence w + 1\<rparr>)"
proof -
  let ?a = "incoming_encryption_active w" and ?pad = "\<lambda>a. replicate (calculate_padding_length a (length p)) 0"
  have p: "sendable p" using s by (simp add: scripted_def)
  define rest' where "rest' = (if ?a
    then wire lib (\<lambda>i. stream (the (incoming_cipher w)) (length (server_frame True p) + i)) (incoming_sequence w + 1)
           (incoming_mac_key w) ps @ rest
    else script ps @ rest)"
  have d: "?a \<longrightarrow> incoming_cipher w = Some (the (incoming_cipher w))" using s by (auto simp: scripted_def split: if_splits)
  have "pending (rx w) = on_wire lib stream ?a (Some (the (incoming_cipher w))) (incoming_sequence w)
      (incoming_mac_key w) (frame p (?pad ?a)) @ rest'"
    using s by (auto simp: scripted_def on_wire_def rest'_def server_frame_def script_def split: if_splits)
  from receive_packet_complete [OF documentedD(2,3) [OF docs] server_frame_well_framed [OF p] d this]
  obtain q c where r: "receive_packet lib w = (Inr p, w\<lparr>rx := q, incoming_cipher := c,
      incoming_sequence := incoming_sequence w + 1\<rparr>)" "pending q = rest'"
    "?a \<longrightarrow> (\<exists>c'. c = Some c' \<and> stream c' = (\<lambda>i. stream (the (incoming_cipher w)) (length (frame p (?pad ?a)) + i)))" by blast
  have "scripted lib stream ps rest n (w\<lparr>rx := q, incoming_cipher := c, incoming_sequence := incoming_sequence w + 1\<rparr>)"
    using s r(2,3) by (auto simp: scripted_def rest'_def server_frame_def split: if_splits)
  with r(1) show ?thesis by blast
qed

lemma scripted_send:
  assumes docs: "documented lib stream" and s: "scripted lib stream ps rest (Suc n) w" "sendable p"
  shows "\<exists>d c. send_packet lib p w = (Inr (), w\<lparr>random_calls := Suc (random_calls w), outgoing_cipher := c,
      tx := d, tx_script := replicate n (Tx_accept 35032), outgoing_sequence := outgoing_sequence w + 1\<rparr>) \<and>
    scripted lib stream ps rest n (w\<lparr>random_calls := Suc (random_calls w), outgoing_cipher := c,
      tx := d, tx_script := replicate n (Tx_accept 35032), outgoing_sequence := outgoing_sequence w + 1\<rparr>)"
proof -
  note docs = documentedD [OF docs]
  have o: "outgoing_encryption_active w \<longrightarrow> outgoing_cipher w \<noteq> None"
    and t: "tx_script w = Tx_accept 35032 # replicate n (Tx_accept 35032)"
    using s(1) by (auto simp: scripted_def)
  have "p \<noteq> []" "length p \<le> 34976" using s(2) by (auto simp: sendable_def)
  from send_packet_room [OF docs o this t] obtain w' where
    w: "send_packet lib p w = (Inr (), w')" "tx_script w' = replicate n (Tx_accept 35032)" by blast
  from send_packet_Inr [OF docs w(1)] obtain q cipher d where
    w': "w' = w\<lparr>random_calls := Suc (random_calls w), outgoing_cipher := cipher, tx := d, tx_script := q,
      outgoing_sequence := outgoing_sequence w + 1\<rparr>" "outgoing_encryption_active w \<longrightarrow> cipher \<noteq> None" by blast
  with w(2) have "q = replicate n (Tx_accept 35032)" by simp
  with w(1) w' s(1) show ?thesis by (intro exI [of _ d] exI [of _ cipher]) (simp add: scripted_def)
qed

text \<open>The incoming keys take effect behind the last packet in the clear.\<close>

lemma scripted_keys:
  assumes "scripted lib stream [] (wire lib (stream c) (incoming_sequence w) key ps @ rest) n w"
    and "\<not> incoming_encryption_active w" "list_all sendable ps"
  shows "scripted lib stream ps rest n
    (w\<lparr>ctx_calls := k, ctx_live := l, incoming_cipher := Some c, incoming_mac_key := key, incoming_encryption_active := True\<rparr>)"
  using assms by (simp add: scripted_def script_def)

lemma scripted_frame [simp]:
  "scripted lib stream ps rest n (w\<lparr>random_calls := k\<rparr>) = scripted lib stream ps rest n w"
  "scripted lib stream ps rest n (w\<lparr>files := fs\<rparr>) = scripted lib stream ps rest n w"
  "scripted lib stream ps rest n (w\<lparr>cin := ls\<rparr>) = scripted lib stream ps rest n w"
  "scripted lib stream ps rest n (w\<lparr>console := out\<rparr>) = scripted lib stream ps rest n w"
  "scripted lib stream ps rest n (w\<lparr>tty_calls := k\<rparr>) = scripted lib stream ps rest n w"
  "scripted lib stream ps rest n (w\<lparr>tty := t\<rparr>) = scripted lib stream ps rest n w"
  "scripted lib stream ps rest n (w\<lparr>original_settings := t\<rparr>) = scripted lib stream ps rest n w"
  "scripted lib stream ps rest n (w\<lparr>raw_mode_active := b\<rparr>) = scripted lib stream ps rest n w"
  by (simp_all add: scripted_def)

end
