(* ===== verification/SSH_Client.thy ===== *)
theory SSH_Client
  imports SSH_Transport SSH_Kex SSH_Known_Hosts SSH_Auth SSH_Script
begin

section \<open>The client up to the session: configuration, key exchange, login (\<open>main.cpp\<close>, lines 23 to 168 and 331 to 445)\<close>

text \<open>
  Command line, identification strings, the key exchange with the host-key decision, and the
  password login. The lemmas show which command lines and identification lines are accepted and
  what a completed key exchange has established.
\<close>

subsection \<open>Configuration\<close>

record ClientConfig =
  hostname :: string
  port :: u16
  username :: string
  identification :: string
  known_hosts_relative_path :: string

definition DEFAULT_SSH_PORT :: u16 where "DEFAULT_SSH_PORT = 22"
definition NEWKEYS_PAYLOAD_SIZE :: nat where "NEWKEYS_PAYLOAD_SIZE = 1"

text \<open>\<open>std::string::find\<close> from an index; \<open>None\<close> is \<open>npos\<close>.\<close>

definition find_from :: "char \<Rightarrow> string \<Rightarrow> nat \<Rightarrow> nat option" where
  "find_from c s i =
     (if i > length s then None
      else let k = length (takeWhile (\<lambda>x. x \<noteq> c) (drop i s))
           in if i + k < length s then Some (i + k) else None)"

definition is_digit :: "char \<Rightarrow> bool" where
  "is_digit c \<longleftrightarrow> 48 \<le> (of_char c :: nat) \<and> (of_char c :: nat) \<le> 57"

definition decimal_value :: "string \<Rightarrow> nat" where
  "decimal_value ds = foldl (\<lambda>v c. v * 10 + (of_char c - 48)) 0 ds"

text \<open>
  \<open>std::stoul\<close> (\<open>strtoul\<close> in base ten): leading white space, a sign, digits. It throws without
  digits and beyond \<open>ULONG_MAX\<close>; a minus sign negates modulo \<open>2^64\<close>. The second component is the
  number of characters it consumed.
\<close>

definition stoul :: "string \<Rightarrow> (nat \<times> nat) option" where
  "stoul s =
     (let r = dropWhile is_space s;
          signed = (r \<noteq> [] \<and> (hd r = CHR ''-'' \<or> hd r = CHR ''+''));
          negative = (r \<noteq> [] \<and> hd r = CHR ''-'');
          body = (if signed then tl r else r);
          ds = takeWhile is_digit body;
          v = decimal_value ds
      in if ds = [] then None
         else if v \<ge> 2 ^ 64 then None
         else Some (if negative then (2 ^ 64 - v) mod 2 ^ 64 else v,
                    length s - length body + length ds))"

definition parse_client_config :: "string list \<Rightarrow> ClientConfig result" where
  "parse_client_config argv =
     (if length argv \<noteq> 2 \<and> length argv \<noteq> 3 then throw ''Usage: ssh <username>@<host> [port]''
      else bindE (at_index argv 1) (\<lambda>target. let
        config = \<lparr>hostname = [], port = DEFAULT_SSH_PORT, username = [],
          identification = ''SSH-2.0-ConorSSH_0.1'',
          known_hosts_relative_path = ''/.conorssh/known_hosts''\<rparr>
      in case find_from (CHR ''@'') target 0 of
        None \<Rightarrow> throw ''Target must use the format <username>@<host>''
      | Some separator \<Rightarrow>
          if separator = 0 \<or> separator = size_minus (length target) 1
             \<or> find_from (CHR ''@'') target (separator + 1) \<noteq> None
          then throw ''Target must use the format <username>@<host>''
          else let config = config\<lparr>username := take separator target,
                                   hostname := drop (separator + 1) target\<rparr>
          in if length argv = 3
             then bindE (at_index argv 2) (\<lambda>port_text. case stoul port_text of
               None \<Rightarrow> throw ''Port must be an integer from 1 to 65535''
             | Some (parsed_port, parsed_characters) \<Rightarrow>
                 if parsed_characters \<noteq> length port_text \<or> parsed_port = 0 \<or> parsed_port > 65535
                 then throw ''Port must be an integer from 1 to 65535''
                 else Inr (config\<lparr>port := of_nat parsed_port\<rparr>))
             else Inr config))"

text \<open>\<open>std::to_string\<close> of an unsigned integer.\<close>

fun to_string :: "nat \<Rightarrow> string" where
  "to_string n = (if n < 10 then [char_of (48 + n)] else to_string (n div 10) @ [char_of (48 + n mod 10)])"

declare to_string.simps [simp del]

definition known_host_identifier :: "ClientConfig \<Rightarrow> string" where
  "known_host_identifier config =
     (if port config = DEFAULT_SSH_PORT then hostname config
      else ''['' @ hostname config @ '']:'' @ to_string (unat (port config)))"

text \<open>The result of \<open>sodium_bin2base64\<close> is not checked here; on failure the zeroed buffer is the empty string.\<close>

definition format_sha256_fingerprint :: "'ctx crypto \<Rightarrow> bytes \<Rightarrow> string" where
  "format_sha256_fingerprint lib fingerprint =
     ''SHA256:'' @ (case sodium_bin2base64 lib ORIGINAL_NO_PADDING fingerprint of Some s \<Rightarrow> s | None \<Rightarrow> [])"

subsection \<open>Identification\<close>

record IdentificationExchange =
  client :: string
  server :: string

function read_version_loop :: "string \<Rightarrow> 'x machine_scheme \<Rightarrow> (stop + string) \<times> 'x machine_scheme" where
  "read_version_loop version w =
     bindC (read_exact 1) (\<lambda>bytes.
     bindC (liftE (at_index bytes 0)) (\<lambda>byte v.
       if byte = 10 then returnC version v
       else read_version_loop (if byte \<noteq> 13 then version @ [char_of (unat byte)] else version) v)) w"
  by pat_completeness auto
termination
  by (relation "measure (\<lambda>(version, w). rx_size (rx w))")
     (auto simp: result_iff dest!: read_exact_Inr)

declare read_version_loop.simps [simp del]

definition read_version :: "('x machine_scheme, string) comp" where
  "read_version = read_version_loop []"

definition exchange_identification :: "string \<Rightarrow> ('x machine_scheme, IdentificationExchange) comp" where
  "exchange_identification client_version =
     bindC read_version (\<lambda>server_version.
     if take 7 server_version \<noteq> ''SSH-2.0'' then raiseC (''Not SSH-2.0: '' @ server_version)
     else let line = client_version @ [char_of (13 :: nat), char_of (10 :: nat)] in
       bindC (write_exact (bytes_of_string line)) (\<lambda>_.
       returnC \<lparr>client = client_version, server = server_version\<rparr>))"

subsection \<open>Key exchange\<close>

definition send_kexinit :: "'ctx crypto \<Rightarrow> (('ctx, 'x) transport_scheme, KexInit) comp" where
  "send_kexinit lib =
     bindC (create_client_kexinit lib) (\<lambda>payload.
     bindC (send_packet lib (raw_payload payload)) (\<lambda>_. returnC payload))"

definition receive_kexinit :: "'ctx crypto \<Rightarrow> (('ctx, 'x) transport_scheme, KexInit) comp" where
  "receive_kexinit lib =
     bindC (receive_packet lib) (\<lambda>payload.
     if payload = [] then raiseC ''SSH Packet is empty''
     else bindC (liftE (at_index payload 0)) (\<lambda>message.
     if message \<noteq> KEXINIT then raiseC ''SSH Packet doesn't contain expected KEX information''
     else liftE (parse_kexinit payload)))"

text \<open>The decision on the host key (lines 365 to 389).\<close>

definition decide_host_key ::
  "posix \<Rightarrow> 'ctx crypto \<Rightarrow> string \<Rightarrow> string \<Rightarrow> string \<Rightarrow> bytes \<Rightarrow> ('x machine_scheme, unit) comp" where
  "decide_host_key os lib file_path host algorithm host_key =
     (let fingerprint = calculate_host_key_fingerprint lib host_key;
          fingerprint_text = format_sha256_fingerprint lib fingerprint in
      bindC (getsC files) (\<lambda>fs.
      bindC (liftE (check os lib file_path fs host algorithm host_key)) (\<lambda>host_status.
      if host_status = Match then print (Cout (''Server host key matches known host'' @ [CHR ''\<newline>'']))
      else if host_status = Changed then
        bindC (print (Cerr (''WARNING: Server host key has changed!'' @ [CHR ''\<newline>'']))) (\<lambda>_.
        bindC (print (Cerr (''Received fingerprint: '' @ fingerprint_text @ [CHR ''\<newline>'']))) (\<lambda>_.
        raiseC ''Refusing connection due to changed host key''))
      else
        bindC (print (Cout (''Unknown server host key'' @ [CHR ''\<newline>'']))) (\<lambda>_.
        bindC (print (Cout (''Fingerprint: '' @ fingerprint_text @ [CHR ''\<newline>'']))) (\<lambda>_.
        bindC (print (Cout ''Do you trust this host key? [yes/no]: '')) (\<lambda>_.
        bindC getline_cin (\<lambda>line.
        let answer = (case line of Some l \<Rightarrow> l | None \<Rightarrow> []) in
        if answer \<noteq> ''yes'' then raiseC ''Host key was not trusted''
        else bindC (add os lib file_path host algorithm host_key) (\<lambda>_.
             print (Cout (''Host key saved'' @ [CHR ''\<newline>'']))))))))))"

definition perform_key_exchange ::
  "posix \<Rightarrow> 'ctx crypto \<Rightarrow> IdentificationExchange \<Rightarrow> string \<Rightarrow> string \<Rightarrow>
     (('ctx, 'x) transport_scheme, unit) comp" where
  "perform_key_exchange os lib ident known_hosts_path host =
     bindC (send_kexinit lib) (\<lambda>ck.
     bindC (receive_kexinit lib) (\<lambda>sk.
     bindC (liftE (negotiate ck sk)) (\<lambda>algorithms.
     bindC (if kex_algorithm algorithms = ''curve25519-sha256'' then create_curve25519_keypair lib
            else raiseC ''Negotiated algorithm not implemented'') (\<lambda>keypair.
     let ecdh_init = create_ecdh_init_payload keypair in
     bindC (send_packet lib ecdh_init) (\<lambda>_.
     bindC (receive_packet lib) (\<lambda>reply.
     if reply = [] then raiseC ''Empty SSH reply''
     else bindC (liftE (at_index reply 0)) (\<lambda>message.
     if message \<noteq> KEX_ECDH_REPLY then raiseC ''Expected an SSH_MSG_KEX_ECDH_REPLY''
     else bindC (liftE (parse_ecdh_reply reply)) (\<lambda>ecdh_reply.
     bindC (liftE (calculate_shared_secret lib keypair (server_public_key ecdh_reply))) (\<lambda>keypair.
     bindC (liftE (calculate_exchange_hash lib (client ident) (server ident) ck sk keypair ecdh_reply)) (\<lambda>exchange_hash.
     bindC (liftE (parse_ed25519_verification_data ecdh_reply (host_key_algorithm algorithms))) (\<lambda>verification_data.
     bindC (liftE (verify_ed25519_signature lib verification_data exchange_hash)) (\<lambda>_.
     bindC (decide_host_key os lib known_hosts_path host (host_key_algorithm algorithms)
              (server_host_key ecdh_reply)) (\<lambda>_.
     let session_id = exchange_hash in
     bindC (liftE (derive_transport_keys lib (shared_secret keypair) exchange_hash session_id)) (\<lambda>keys.
     bindC (send_packet lib [NEWKEYS]) (\<lambda>_.
     bindC (enable_outgoing_encryption lib (iv_cs keys) (encryption_key_cs keys) (mac_key_cs keys)) (\<lambda>_.
     bindC (receive_packet lib) (\<lambda>server_newkeys.
     if length server_newkeys \<noteq> NEWKEYS_PAYLOAD_SIZE then raiseC ''Expected a packet of length 1 byte''
     else bindC (liftE (at_index server_newkeys 0)) (\<lambda>message.
     if message \<noteq> NEWKEYS then raiseC ''Expected a SSH_MSG_NEWKEYS packet''
     else enable_incoming_encryption lib (iv_sc keys) (encryption_key_sc keys) (mac_key_sc keys)))))))))))))))))))"

subsection \<open>Login\<close>

definition authenticate_user :: "posix \<Rightarrow> 'ctx crypto \<Rightarrow> string \<Rightarrow> (('ctx, 'x) transport_scheme, unit) comp" where
  "authenticate_user os lib user =
     bindC (liftE create_service_request) (\<lambda>payload.
     bindC (send_packet lib payload) (\<lambda>_.
     bindC (receive_packet lib) (\<lambda>auth_response.
     bindC (liftE (validate_service_accept auth_response)) (\<lambda>_.
     bindC (liftE (create_none_auth_request user)) (\<lambda>none_request.
     bindC (send_packet lib none_request) (\<lambda>_.
     bindC (receive_packet lib) (\<lambda>none_response.
     bindC (liftE (parse_auth_failure none_response)) (\<lambda>_.
     bindC (read_hidden_input os ''Password: '') (\<lambda>password.
     bindC (liftE (create_password_auth_request user password)) (\<lambda>auth_request.
     bindC (send_packet lib auth_request) (\<lambda>_.
     bindC (receive_packet lib) (\<lambda>auth_response.
     if auth_response = [] then raiseC ''Packet contained 0 bytes''
     else bindC (liftE (at_index auth_response 0)) (\<lambda>message.
     if message = USERAUTH_SUCCESS
     then bindC (liftE (validate_auth_success auth_response)) (\<lambda>_.
          print (Cout (''Authentication Complete'' @ [CHR ''\<newline>''])))
     else if message = USERAUTH_FAILURE
     then bindC (liftE (parse_auth_failure auth_response)) (\<lambda>_. raiseC ''Password authentication rejected'')
     else raiseC ''Unexpected response - authentication'')))))))))))))"

subsection \<open>The command line\<close>

lemma takeWhile_absent: "c \<notin> set u \<Longrightarrow> takeWhile (\<lambda>x. x \<noteq> c) u = u"
  by (auto simp: takeWhile_eq_all_conv)

lemma find_from_first:
  "c \<notin> set u \<Longrightarrow> find_from c (u @ c # v) 0 = Some (length u)"
  by (simp add: find_from_def takeWhile_tail takeWhile_absent Let_def)

lemma find_from_Some:
  assumes "find_from c s 0 = Some i"
  shows "s = take i s @ c # drop (Suc i) s \<and> c \<notin> set (take i s) \<and> i < length s"
proof -
  let ?k = "length (takeWhile (\<lambda>x. x \<noteq> c) s)"
  have i: "i = ?k" "?k < length s" using assms by (auto simp: find_from_def Let_def split: if_splits)
  then have "s ! i = c" using nth_length_takeWhile [of "\<lambda>x. x \<noteq> c" s] by simp
  moreover have "take i s = takeWhile (\<lambda>x. x \<noteq> c) s" unfolding i by (rule takeWhile_eq_take [symmetric])
  moreover have "s = take i s @ s ! i # drop (Suc i) s" using i by (intro id_take_nth_drop) simp
  ultimately show ?thesis using i(2) by (auto simp: i(1) [symmetric] dest: set_takeWhileD)
qed

lemma find_from_None: "i \<le> length s \<Longrightarrow> find_from c s i = None \<longleftrightarrow> c \<notin> set (drop i s)"
proof -
  assume i: "i \<le> length s"
  have "length (takeWhile (\<lambda>x. x \<noteq> c) (drop i s)) < length (drop i s) \<longleftrightarrow> c \<in> set (drop i s)"
    by (metis (mono_tags, lifting) length_takeWhile_le linorder_not_less nat_less_le set_takeWhileD takeWhile_eq_all_conv takeWhile_eq_take take_all_iff)
  with i show ?thesis by (auto simp: find_from_def Let_def)
qed

lemma digit_char: "n < 10 \<Longrightarrow> is_digit (char_of (48 + n)) \<and> of_char (char_of (48 + n) :: char) = (48 + n :: nat)"
  by (simp add: is_digit_def of_char_of)

lemma to_string_digits: "to_string n \<noteq> [] \<and> list_all is_digit (to_string n) \<and> decimal_value (to_string n) = n"
proof (induction n rule: to_string.induct)
  case (1 n)
  show ?case
  proof (cases "n < 10")
    case True
    then show ?thesis using digit_char [of n] by (simp add: to_string.simps [of n] decimal_value_def)
  next
    case False
    with 1 have "list_all is_digit (to_string (n div 10))" "decimal_value (to_string (n div 10)) = n div 10" by simp_all
    moreover have "n mod 10 < 10" by simp
    ultimately show ?thesis
      using False digit_char [of "n mod 10"] by (simp add: to_string.simps [of n] decimal_value_def)
  qed
qed

lemma to_string_inject: "to_string m = to_string n \<longleftrightarrow> m = n"
  using to_string_digits by metis

lemma digit_not: "is_digit c \<Longrightarrow> \<not> is_space c \<and> c \<noteq> CHR ''-'' \<and> c \<noteq> CHR ''+'' \<and> c \<noteq> CHR '']'' \<and> c \<noteq> CHR '':''"
  by (auto simp: is_digit_def is_space_def)

text \<open>
  The texts that \<open>std::stoul\<close> reads to their end, and the number it makes of them: white space, a sign or none, and
  decimal digits of a value below \<open>2^64\<close>, which a minus sign negates modulo \<open>2^64\<close>.
\<close>

definition denotes :: "string \<Rightarrow> nat \<Rightarrow> bool" where
  "denotes s n \<longleftrightarrow>
     (\<exists>blank sign ds. s = blank @ sign @ ds \<and> list_all is_space blank \<and> ds \<noteq> [] \<and> list_all is_digit ds \<and>
        decimal_value ds < 2 ^ 64 \<and>
        ((sign = [] \<or> sign = ''+'') \<and> n = decimal_value ds \<or> sign = ''-'' \<and> n = (2 ^ 64 - decimal_value ds) mod 2 ^ 64))"

lemma stoul_whole_denotes: "stoul s = Some (n, length s) \<Longrightarrow> denotes s n"
proof -
  assume s: "stoul s = Some (n, length s)"
  define r where "r = dropWhile is_space s"
  define sign where "sign = (if r \<noteq> [] \<and> (hd r = CHR ''-'' \<or> hd r = CHR ''+'') then [hd r] else [])"
  define body where "body = (if r \<noteq> [] \<and> (hd r = CHR ''-'' \<or> hd r = CHR ''+'') then tl r else r)"
  define ds where "ds = takeWhile is_digit body"
  have sr: "s = takeWhile is_space s @ sign @ body" by (simp add: sign_def body_def r_def)
  then have "length body \<le> length s" by (metis length_append le_add2 order_trans)
  moreover have "stoul s = (if ds = [] then None else if decimal_value ds \<ge> 2 ^ 64 then None
      else Some (if sign = ''-'' then (2 ^ 64 - decimal_value ds) mod 2 ^ 64 else decimal_value ds,
        length s - length body + length ds))"
    by (simp add: stoul_def Let_def r_def body_def ds_def sign_def)
  with s have v: "ds \<noteq> []" "decimal_value ds < 2 ^ 64"
    "n = (if sign = ''-'' then (2 ^ 64 - decimal_value ds) mod 2 ^ 64 else decimal_value ds)"
    "length s - length body + length ds = length s"
    by (auto split: if_splits)
  ultimately have "length ds = length body" by simp
  then have ds: "ds = body" unfolding ds_def by (metis takeWhile_eq_take take_all order_refl)
  then have "list_all is_digit ds" by (metis ds_def list_all_iff set_takeWhileD)
  moreover have "list_all is_space (takeWhile is_space s)" by (auto simp: list_all_iff dest: set_takeWhileD)
  moreover have "sign = [] \<or> sign = ''+'' \<or> sign = ''-''" by (auto simp: sign_def)
  ultimately show ?thesis unfolding denotes_def using sr v ds
    by (intro exI [of _ "takeWhile is_space s"] exI [of _ sign] exI [of _ ds]) auto
qed

lemma stoul_whole: "stoul s = Some (n, length s) \<longleftrightarrow> denotes s n"
proof
  assume "denotes s n"
  then obtain blank sign ds where s: "s = blank @ sign @ ds" "list_all is_space blank" "ds \<noteq> []" "list_all is_digit ds"
    "decimal_value ds < 2 ^ 64" and n: "(sign = [] \<or> sign = ''+'') \<and> n = decimal_value ds \<or>
      sign = ''-'' \<and> n = (2 ^ 64 - decimal_value ds) mod 2 ^ 64"
    unfolding denotes_def by blast
  from s obtain d ds' where d: "ds = d # ds'" "is_digit d" by (cases ds) auto
  have blank: "\<forall>c \<in> set blank. is_space c" using s(2) by (simp add: list_all_iff)
  have "dropWhile is_space (blank @ sign @ ds) = dropWhile is_space (sign @ ds)"
    using blank by (simp add: dropWhile_append2)
  also have "\<dots> = sign @ ds" using n d digit_not [of d] by (auto simp: is_space_def)
  finally have r: "dropWhile is_space s = sign @ ds" by (simp add: s(1))
  have t: "takeWhile is_digit ds = ds" using s(4) by (simp add: takeWhile_eq_all_conv list_all_iff)
  then have t': "takeWhile is_digit ds' = ds'" using d by simp
  from n show "stoul s = Some (n, length s)"
    unfolding stoul_def r Let_def using s(1,3,5) d digit_not [of d] by (elim disjE conjE) (simp_all add: t')
qed (rule stoul_whole_denotes)

text \<open>A target splits at its only separator into two non-empty parts.\<close>

lemma target_parts:
  "(find_from (CHR ''@'') target 0 = Some i \<and> i \<noteq> 0 \<and> i \<noteq> size_minus (length target) 1 \<and>
     find_from (CHR ''@'') target (i + 1) = None) \<longleftrightarrow>
   target = take i target @ CHR ''@'' # drop (Suc i) target \<and> take i target \<noteq> [] \<and> drop (Suc i) target \<noteq> [] \<and>
     CHR ''@'' \<notin> set (take i target) \<and> CHR ''@'' \<notin> set (drop (Suc i) target) \<and> i < length target"
  (is "?l \<longleftrightarrow> ?r")
proof
  assume l: ?l
  then have f: "target = take i target @ CHR ''@'' # drop (Suc i) target" "CHR ''@'' \<notin> set (take i target)" "i < length target"
    using find_from_Some [of "CHR ''@''" target i] by blast+
  then have "drop (Suc i) target \<noteq> []" using l by (auto simp: size_minus_def split: if_splits)
  moreover have "CHR ''@'' \<notin> set (drop (Suc i) target)" using l f find_from_None [of "i + 1" target "CHR ''@''"] by simp
  ultimately show ?r using f l by auto
next
  assume r: ?r
  define u v where "u = take i target" and "v = drop (Suc i) target"
  have t: "target = u @ CHR ''@'' # v" "length u = i" "u \<noteq> []" "v \<noteq> []" "CHR ''@'' \<notin> set u" "CHR ''@'' \<notin> set v"
    using r by (simp_all add: u_def v_def)
  have "find_from (CHR ''@'') target (i + 1) = None"
    using t find_from_None [of "i + 1" target "CHR ''@''"] by simp
  moreover have "i \<noteq> size_minus (length target) 1" using t by (auto simp: size_minus_def)
  ultimately show ?l using find_from_first [OF t(5)] t by auto
qed


text \<open>The configuration that a target and a port stand for.\<close>

definition configures :: "ClientConfig \<Rightarrow> string \<Rightarrow> u16 \<Rightarrow> bool" where
  "configures c target p \<longleftrightarrow>
     target = username c @ CHR ''@'' # hostname c \<and> username c \<noteq> [] \<and> hostname c \<noteq> [] \<and>
     CHR ''@'' \<notin> set (username c) \<and> CHR ''@'' \<notin> set (hostname c) \<and> port c = p \<and>
     identification c = ''SSH-2.0-ConorSSH_0.1'' \<and> known_hosts_relative_path c = ''/.conorssh/known_hosts''"

lemma parse_target:
  assumes "length argv = 2 \<or> length argv = 3"
  shows "parse_client_config argv = Inr c \<longleftrightarrow>
    (if length argv = 3
     then \<exists>p. stoul (argv ! 2) = Some (p, length (argv ! 2)) \<and> p \<noteq> 0 \<and> p \<le> 65535 \<and> configures c (argv ! 1) (of_nat p)
     else configures c (argv ! 1) DEFAULT_SSH_PORT)"
proof (cases "\<exists>i. find_from (CHR ''@'') (argv ! 1) 0 = Some i \<and> i \<noteq> 0 \<and> i \<noteq> size_minus (length (argv ! 1)) 1 \<and>
     find_from (CHR ''@'') (argv ! 1) (i + 1) = None")
  case True
  define target where "target = argv ! 1"
  from True obtain i where i: "find_from (CHR ''@'') target 0 = Some i \<and> i \<noteq> 0 \<and> i \<noteq> size_minus (length target) 1 \<and>
     find_from (CHR ''@'') target (i + 1) = None" by (auto simp: target_def)
  note tp = i [unfolded target_parts]
  have conf: "configures c target p \<longleftrightarrow> c = \<lparr>hostname = drop (i + 1) target, port = p, username = take i target,
      identification = ''SSH-2.0-ConorSSH_0.1'', known_hosts_relative_path = ''/.conorssh/known_hosts''\<rparr>" for p
  proof
    assume c: "configures c target p"
    then have "find_from (CHR ''@'') target 0 = Some (length (username c))" by (simp add: configures_def find_from_first)
    with i have "length (username c) = i" by simp
    with c show "c = \<lparr>hostname = drop (i + 1) target, port = p, username = take i target,
      identification = ''SSH-2.0-ConorSSH_0.1'', known_hosts_relative_path = ''/.conorssh/known_hosts''\<rparr>"
      by (cases c) (auto simp: configures_def)
  next
    assume "c = \<lparr>hostname = drop (i + 1) target, port = p, username = take i target,
      identification = ''SSH-2.0-ConorSSH_0.1'', known_hosts_relative_path = ''/.conorssh/known_hosts''\<rparr>"
    with tp show "configures c target p" by (simp add: configures_def)
  qed
  show ?thesis
    unfolding parse_client_config_def conf [unfolded target_def]
    using assms i [unfolded target_def] by (auto simp: Let_def split: option.splits prod.splits)
next
  case False
  have "\<not> configures c (argv ! 1) p" for p
  proof
    assume c: "configures c (argv ! 1) p"
    have "take (length (username c)) (argv ! 1) = username c" "drop (Suc (length (username c))) (argv ! 1) = hostname c"
      using c by (simp_all add: configures_def)
    with c target_parts [of "argv ! 1" "length (username c)"] False show False by (auto simp: configures_def)
  qed
  moreover have "parse_client_config argv \<noteq> Inr c"
    using assms False by (auto simp: parse_client_config_def Let_def split: option.splits if_splits)
  ultimately show ?thesis by auto
qed

lemma parse_errors:
  "parse_client_config argv = Inl e \<Longrightarrow> e \<in> Runtime_error ` {''Usage: ssh <username>@<host> [port]'',
     ''Target must use the format <username>@<host>'', ''Port must be an integer from 1 to 65535''}"
  by (auto simp: parse_client_config_def Let_def split: if_splits option.splits prod.splits)

text \<open>
  C30: The command line is understood exactly. It is accepted if and only if it has one or two arguments, the first
  a user name and a host name, both non-empty, around its only \<open>@\<close>, and the second, if present, in its whole
  length a text that \<open>std::stoul\<close> reads as a number from 1 to 65535: white space, an optional sign and
  digits, where a minus sign negates modulo \<open>2^64\<close>. The configuration has these names and this port, or port 22.
  Any other number of arguments gives the usage message, and every refusal is one of the three messages.
\<close>

theorem client_config_exact:
  "(parse_client_config argv = Inr c \<longleftrightarrow>
     (\<exists>prog target. argv = [prog, target] \<and> configures c target 22) \<or>
     (\<exists>prog target port_text p. argv = [prog, target, port_text] \<and> denotes port_text p \<and> 1 \<le> p \<and> p \<le> 65535 \<and>
        configures c target (of_nat p))) \<and>
   (length argv = 2 \<or> length argv = 3 \<or> parse_client_config argv = throw ''Usage: ssh <username>@<host> [port]'') \<and>
   ((\<exists>c. parse_client_config argv = Inr c) \<or>
    (\<exists>m \<in> {''Usage: ssh <username>@<host> [port]'', ''Target must use the format <username>@<host>'',
       ''Port must be an integer from 1 to 65535''}. parse_client_config argv = throw m))"
proof (intro conjI)
  show "parse_client_config argv = Inr c \<longleftrightarrow>
     (\<exists>prog target. argv = [prog, target] \<and> configures c target 22) \<or>
     (\<exists>prog target port_text p. argv = [prog, target, port_text] \<and> denotes port_text p \<and> 1 \<le> p \<and> p \<le> 65535 \<and>
        configures c target (of_nat p))"
  proof (cases "length argv = 2 \<or> length argv = 3")
    case True
    then obtain prog target more where "argv = prog # target # more" "length more \<le> 1" by (auto simp: numeral_eq_Suc length_Suc_conv)
    moreover have "more = [] \<or> (\<exists>t. more = [t])" using calculation(2) by (cases more) auto
    ultimately show ?thesis
      using True by (auto simp: parse_target stoul_whole DEFAULT_SSH_PORT_def)
  next
    case False
    then show ?thesis by (auto simp: parse_client_config_def)
  qed
  show "length argv = 2 \<or> length argv = 3 \<or> parse_client_config argv = throw ''Usage: ssh <username>@<host> [port]''"
    by (auto simp: parse_client_config_def)
  show "(\<exists>c. parse_client_config argv = Inr c) \<or>
    (\<exists>m \<in> {''Usage: ssh <username>@<host> [port]'', ''Target must use the format <username>@<host>'',
       ''Port must be an integer from 1 to 65535''}. parse_client_config argv = throw m)"
    using parse_errors [of argv] by (cases "parse_client_config argv") auto
qed

subsection \<open>Identification\<close>

text \<open>What is kept of a line: everything but carriage returns.\<close>

definition version_of :: "bytes \<Rightarrow> string" where
  "version_of line = string_of_bytes (filter (\<lambda>b. b \<noteq> 13) line)"

lemma read_version_loop_line:
  "10 \<notin> set line \<Longrightarrow> pending (rx w) = line @ 10 # rest \<Longrightarrow>
     \<exists>q. read_version_loop version w = (Inr (version @ version_of line), w\<lparr>rx := q\<rparr>) \<and> pending q = rest"
proof (induction line arbitrary: version w)
  case Nil
  from read_exact_enough [of 1 w] Nil.prems(2) obtain q where q: "read_exact 1 w = (Inr [10], w\<lparr>rx := q\<rparr>)" "pending q = rest" by auto
  then show ?case
    by (intro exI [of _ q]) (simp add: read_version_loop.simps [of version w] comp_simps version_of_def string_of_bytes_def)
next
  case (Cons b line)
  from read_exact_enough [of 1 w] Cons.prems(2) obtain q where
    q: "read_exact 1 w = (Inr [b], w\<lparr>rx := q\<rparr>)" "pending q = line @ 10 # rest" by auto
  have b: "b \<noteq> 10" using Cons.prems(1) by auto
  let ?v = "if b \<noteq> 13 then version @ [char_of (unat b)] else version"
  have "read_version_loop version w = read_version_loop ?v (w\<lparr>rx := q\<rparr>)"
    using q(1) b by (simp add: read_version_loop.simps [of version w] comp_simps)
  moreover obtain q' where "read_version_loop ?v (w\<lparr>rx := q\<rparr>) = (Inr (?v @ version_of line), w\<lparr>rx := q'\<rparr>)" "pending q' = rest"
    using Cons.IH [of "w\<lparr>rx := q\<rparr>" ?v] Cons.prems(1) q(2) by auto
  ultimately show ?case by (auto simp: version_of_def string_of_bytes_def)
qed

text \<open>
  C31: The identification exchange reads the server's first line up to the newline and not one byte further, whatever
  follows; it drops carriage returns, refuses a server that does not announce version 2.0, and otherwise
  sends the client's line, ended by carriage return and newline.
\<close>

theorem identification_exact:
  assumes "pending (rx w) = line @ 10 # rest" and "10 \<notin> set line"
  shows "\<exists>q. pending q = rest \<and> exchange_identification client_version w =
    (if take 7 (version_of line) = ''SSH-2.0''
     then bindC (write_exact (bytes_of_string client_version @ [13, 10]))
       (\<lambda>_. returnC \<lparr>client = client_version, server = version_of line\<rparr>) (w\<lparr>rx := q\<rparr>)
     else (Inl (Raised (Runtime_error (''Not SSH-2.0: '' @ version_of line))), w\<lparr>rx := q\<rparr>))"
proof -
  from read_version_loop_line [OF assms(2,1), of "[]"] obtain q where
    q: "read_version w = (Inr (version_of line), w\<lparr>rx := q\<rparr>)" "pending q = rest" by (auto simp: read_version_def)
  have "bytes_of_string (client_version @ [char_of (13 :: nat), char_of (10 :: nat)]) = bytes_of_string client_version @ [13, 10]"
    by (simp add: bytes_of_string_def) code_simp
  with q show ?thesis by (intro exI [of _ q]) (simp add: exchange_identification_def comp_simps Let_def)
qed

theorem identification_exact_witness:
  "pending (rx (idle_machine\<lparr>rx := [Rx_data [83, 83, 72, 45, 50, 46, 48, 45, 120, 13, 10, 7]], tx_script := [Tx_accept 50]\<rparr>)) =
     [83, 83, 72, 45, 50, 46, 48, 45, 120, 13] @ 10 # [7] \<and>
   version_of [83, 83, 72, 45, 50, 46, 48, 45, 120, 13] = ''SSH-2.0-x'' \<and>
   (\<exists>q. pending q = [7] \<and> exchange_identification ''SSH-2.0-y''
     (idle_machine\<lparr>rx := [Rx_data [83, 83, 72, 45, 50, 46, 48, 45, 120, 13, 10, 7]], tx_script := [Tx_accept 50]\<rparr>) =
     bindC (write_exact (bytes_of_string ''SSH-2.0-y'' @ [13, 10])) (\<lambda>_. returnC \<lparr>client = ''SSH-2.0-y'', server = ''SSH-2.0-x''\<rparr>)
       (idle_machine\<lparr>tx_script := [Tx_accept 50], rx := q\<rparr>))"
proof -
  let ?w = "idle_machine\<lparr>rx := [Rx_data [83, 83, 72, 45, 50, 46, 48, 45, 120, 13, 10, 7]], tx_script := [Tx_accept 50]\<rparr>"
  have p: "pending (rx ?w) = [83, 83, 72, 45, 50, 46, 48, 45, 120, 13] @ 10 # [7]" by simp
  have n: "(10 :: byte) \<notin> set [83, 83, 72, 45, 50, 46, 48, 45, 120, 13]" by simp
  have v: "version_of [83, 83, 72, 45, 50, 46, 48, 45, 120, 13] = ''SSH-2.0-x''" by code_simp
  from identification_exact [OF p n, of "''SSH-2.0-y''"] p show ?thesis unfolding v by simp
qed

subsection \<open>Host identifiers\<close>

text \<open>
  C32: Different servers have different entries: two configurations whose host names do not begin with a bracket share the
  identifier under which a host key is stored only if they name the same host and the same port.
\<close>

theorem host_identifier_injective:
  assumes "take 1 (hostname c) \<noteq> ''[''" and "take 1 (hostname c') \<noteq> ''[''"
    and "known_host_identifier c = known_host_identifier c'"
  shows "hostname c = hostname c' \<and> port c = port c'"
proof (cases "port c = DEFAULT_SSH_PORT \<or> port c' = DEFAULT_SSH_PORT")
  case True
  have h: "hostname d \<noteq> CHR ''['' # x" if "take 1 (hostname d) \<noteq> ''[''" for d x using that by auto
  note n = h [OF assms(1)] h [OF assms(2)]
  show ?thesis using True assms(3) by (auto simp: known_host_identifier_def n n [THEN not_sym] split: if_splits)
next
  case False
  let ?s = "\<lambda>c. to_string (unat (port c))"
  from False assms(3) have e: "hostname c @ '']:'' @ ?s c = hostname c' @ '']:'' @ ?s c'" by (simp add: known_host_identifier_def)
  have n: "CHR '':'' \<notin> set (?s d)" for d using to_string_digits [of "unat (port d)"] digit_not by (auto simp: list_all_iff)
  have t: "takeWhile (\<lambda>x. x \<noteq> CHR '':'') (rev (h @ '']:'' @ ?s d)) = rev (?s d)" for h d
    using n [of d] by (simp add: takeWhile_tail takeWhile_absent)
  have "?s c = ?s c'" using arg_cong [OF e, of "\<lambda>x. takeWhile (\<lambda>x. x \<noteq> CHR '':'') (rev x)"] unfolding t by simp
  then have "port c = port c'" by (simp add: to_string_inject word_unat_eq_iff)
  with e show ?thesis by simp
qed

theorem host_identifier_injective_witness:
  "\<exists>c c'. parse_client_config [''ssh'', ''u@h'', ''2222''] = Inr c \<and> parse_client_config [''ssh'', ''u@h''] = Inr c' \<and>
     known_host_identifier c = ''[h]:2222'' \<and> known_host_identifier c' = ''h'' \<and>
     (known_host_identifier c = known_host_identifier c' \<longrightarrow> port c = port c')"
proof -
  obtain c c' where p: "parse_client_config [''ssh'', ''u@h'', ''2222''] = Inr c" "parse_client_config [''ssh'', ''u@h''] = Inr c'"
    "hostname c = ''h''" "hostname c' = ''h''" "port c = 2222" "port c' = 22"
    by (simp add: parse_client_config_def find_from_def stoul_def is_digit_def is_space_def decimal_value_def DEFAULT_SSH_PORT_def Let_def)
  then have "take 1 (hostname c) \<noteq> ''[''" "take 1 (hostname c') \<noteq> ''[''" by simp_all
  note i = host_identifier_injective [OF this]
  have "(char_of (50 :: nat) :: char) = CHR ''2''" by code_simp
  then have "known_host_identifier c = ''[h]:2222''" "known_host_identifier c' = ''h''"
    using p by (simp_all add: known_host_identifier_def DEFAULT_SSH_PORT_def to_string.simps)
  with p i show ?thesis by blast
qed

subsection \<open>The host-key decision\<close>

text \<open>The answer to the host-key question: the key is on file, or unknown and confirmed by the user.\<close>

definition host_key_accepted ::
  "posix \<Rightarrow> 'ctx crypto \<Rightarrow> string \<Rightarrow> string \<Rightarrow> (string \<rightharpoonup> string) \<Rightarrow> string list \<Rightarrow> bytes \<Rightarrow> bool" where
  "host_key_accepted os lib path host fs input key \<longleftrightarrow>
     check os lib path fs host ''ssh-ed25519'' key = Inr Match \<or>
     check os lib path fs host ''ssh-ed25519'' key = Inr Unknown \<and> input \<noteq> [] \<and> hd input = ''yes''"

text \<open>The two ways in which the decision returns.\<close>

lemma decide_host_key_cases:
  assumes "decide_host_key os lib path host alg key w = (Inr (), w')"
  obtains (known) c where "check os lib path (files w) host alg key = Inr Match" "w' = w\<lparr>console := c\<rparr>"
  | (confirmed) rest c c' w1 where "check os lib path (files w) host alg key = Inr Unknown" "cin w = ''yes'' # rest"
      "add os lib path host alg key (w\<lparr>cin := rest, console := c\<rparr>) = (Inr (), w1)" "w' = w1\<lparr>console := c'\<rparr>"
proof -
  from assms obtain st where st: "check os lib path (files w) host alg key = Inr st"
    by (auto simp: decide_host_key_def result_iff Let_def)
  show ?thesis
  proof (cases st)
    case Match
    with assms st show ?thesis by (intro known) (auto simp: decide_host_key_def comp_simps Let_def)
  next
    case Changed
    with assms st show ?thesis by (simp add: decide_host_key_def comp_simps Let_def)
  next
    case Unknown
    with assms st obtain rest c c' w1 where "cin w = ''yes'' # rest"
      "add os lib path host alg key (w\<lparr>cin := rest, console := c\<rparr>) = (Inr (), w1)" "w' = w1\<lparr>console := console w1 @ [c']\<rparr>"
      by (auto simp: decide_host_key_def comp_simps result_iff Let_def bindC_eq_Inr split: list.splits if_splits)
    with st Unknown show ?thesis by (intro confirmed) auto
  qed
qed

lemma decide_host_key_accepted:
  assumes "decide_host_key os lib path host ''ssh-ed25519'' key w = (Inr (), w')"
  shows "host_key_accepted os lib path host (files w) (cin w) key"
  using assms by (cases rule: decide_host_key_cases) (auto simp: host_key_accepted_def)

lemma decide_host_key_stored:
  assumes "disk_reliable os path" "base64_documented lib" "is_word host" "is_word alg" "closed_file path (files w)"
    and "decide_host_key os lib path host alg key w = (Inr (), w')"
  shows "check os lib path (files w') host alg key = Inr Match"
  using assms(6)
proof (cases rule: decide_host_key_cases)
  case (known c)
  then show ?thesis by simp
next
  case (confirmed rest c c' w1)
  have "closed_file path (files (w\<lparr>cin := rest, console := c\<rparr>))" using assms(5) by simp
  from add_returns_match [OF assms(1-4) this confirmed(3)] confirmed(4) show ?thesis by simp
qed

lemma decide_host_key_closed:
  assumes "disk_reliable os path" "base64_documented lib" "is_word host" "is_word alg" "closed_file path (files w)"
    and "decide_host_key os lib path host alg key w = (Inr (), w')"
  shows "closed_file path (files w')"
  using assms(6)
proof (cases rule: decide_host_key_cases)
  case (known c)
  then show ?thesis using assms(5) by simp
next
  case (confirmed rest c c' w1)
  have "entry_storable os lib path host (alg, key)" using assms(1-4) by (simp add: entry_storable_def)
  from known_hosts.insert_wf [OF _ this, of "w\<lparr>cin := rest, console := c\<rparr>"] assms(5) confirmed(3,4) show ?thesis by simp
qed

subsection \<open>What a completed key exchange has established\<close>

lemma packets_frame:
  "send_packet lib p w = (r, w') \<Longrightarrow> files w' = files w \<and> cin w' = cin w"
  "receive_packet lib w = (r', w') \<Longrightarrow> files w' = files w \<and> cin w' = cin w \<and>
     outgoing_cipher w' = outgoing_cipher w \<and> outgoing_mac_key w' = outgoing_mac_key w \<and>
     outgoing_encryption_active w' = outgoing_encryption_active w"
proof -
  have "keeps (\<lambda>v. files v = files w \<and> cin v = cin w) (send_packet lib p)"
    by (intro keeps_send_packet) auto
  then show "send_packet lib p w = (r, w') \<Longrightarrow> files w' = files w \<and> cin w' = cin w" by (auto dest: keepsD)
  have "keeps (\<lambda>v. files v = files w \<and> cin v = cin w \<and> outgoing_cipher v = outgoing_cipher w \<and>
      outgoing_mac_key v = outgoing_mac_key w \<and> outgoing_encryption_active v = outgoing_encryption_active w) (receive_packet lib)"
    by (intro keeps_receive_packet) auto
  then show "receive_packet lib w = (r', w') \<Longrightarrow> files w' = files w \<and> cin w' = cin w \<and>
     outgoing_cipher w' = outgoing_cipher w \<and> outgoing_mac_key w' = outgoing_mac_key w \<and>
     outgoing_encryption_active w' = outgoing_encryption_active w" by (auto dest: keepsD)
qed

text \<open>The transport encrypts and authenticates both directions with the given keys.\<close>

definition keyed :: "'ctx crypto \<Rightarrow> TransportKeyMaterial \<Rightarrow> ('ctx, 'x) transport_scheme \<Rightarrow> bool" where
  "keyed lib keys w \<longleftrightarrow>
     outgoing_encryption_active w \<and> incoming_encryption_active w \<and>
     outgoing_mac_key w = mac_key_cs keys \<and> incoming_mac_key w = mac_key_sc keys \<and>
     (\<exists>c c' rc. outgoing_cipher w = Some c' \<and> rc \<noteq> 0 \<and>
        EVP_EncryptInit_ex lib c (encryption_key_cs keys) (iv_cs keys) = (rc, c')) \<and>
     (\<exists>c c' rc. incoming_cipher w = Some c' \<and> rc \<noteq> 0 \<and>
        EVP_DecryptInit_ex lib c (encryption_key_sc keys) (iv_sc keys) = (rc, c'))"

lemma enable_encryption_Inr:
  "enable_outgoing_encryption lib iv key mac w = (Inr (), w') \<Longrightarrow> outgoing_encryption_active w' \<and> outgoing_mac_key w' = mac \<and>
     (\<exists>c c' rc. outgoing_cipher w' = Some c' \<and> rc \<noteq> 0 \<and> EVP_EncryptInit_ex lib c key iv = (rc, c'))"
  "enable_incoming_encryption lib iv key mac w = (Inr (), w') \<Longrightarrow> incoming_encryption_active w' \<and> incoming_mac_key w' = mac \<and>
     (\<exists>c c' rc. incoming_cipher w' = Some c' \<and> rc \<noteq> 0 \<and> EVP_DecryptInit_ex lib c key iv = (rc, c')) \<and>
     outgoing_cipher w' = outgoing_cipher w \<and> outgoing_mac_key w' = outgoing_mac_key w \<and>
     outgoing_encryption_active w' = outgoing_encryption_active w"
  by (auto simp: enable_outgoing_encryption_def enable_incoming_encryption_def result_iff ctx_new_def ctx_free_def
      bindC_def comp_simps Let_def split: option.splits prod.splits if_splits) blast+

text \<open>
  The server's part of the handshake: the algorithms are the client's, the Ed25519 key of the host
  signed the exchange hash over this handshake, and the session keys derive from it.
\<close>

definition handshake_verified ::
  "'ctx crypto \<Rightarrow> IdentificationExchange \<Rightarrow> bytes \<Rightarrow> TransportKeyMaterial \<Rightarrow> bool" where
  "handshake_verified lib ident key keys \<longleftrightarrow>
     (\<exists>ck sk kp reply rc vd h.
        client_kexinit (cookie ck) = Inr ck \<and> parse_kexinit (raw_payload sk) = Inr sk \<and> server_offers sk \<and>
        crypto_scalarmult_curve25519_base lib (client_private_key kp) = (0, client_public_key kp) \<and>
        crypto_scalarmult_curve25519 lib (client_private_key kp) (server_public_key reply) = (rc, shared_secret kp) \<and>
        rc \<noteq> -1 \<and> server_host_key reply = key \<and>
        calculate_exchange_hash lib (client ident) (server ident) ck sk kp reply = Inr h \<and>
        parse_ed25519_verification_data reply ''ssh-ed25519'' = Inr vd \<and>
        crypto_sign_verify_detached lib (signature vd) h (public_key vd) = 0 \<and>
        derive_transport_keys lib (shared_secret kp) h h = Inr keys)"

lemma kex_steps_Inr:
  "create_curve25519_keypair lib w = (Inr kp, w') \<Longrightarrow>
     crypto_scalarmult_curve25519_base lib (client_private_key kp) = (0, client_public_key kp) \<and>
     w' = w\<lparr>random_calls := Suc (random_calls w)\<rparr>"
  "calculate_shared_secret lib kp pk = Inr kp' \<Longrightarrow>
     (\<exists>rc. rc \<noteq> -1 \<and> crypto_scalarmult_curve25519 lib (client_private_key kp) pk = (rc, shared_secret kp')) \<and>
     client_private_key kp' = client_private_key kp \<and> client_public_key kp' = client_public_key kp"
  "verify_ed25519_signature lib vd h = Inr () \<Longrightarrow> crypto_sign_verify_detached lib (signature vd) h (public_key vd) = 0"
  by (auto simp: create_curve25519_keypair_def calculate_shared_secret_def verify_ed25519_signature_def comp_simps
      Let_def split: prod.splits if_splits)

lemma parse_kexinit_raw: "parse_kexinit p = Inr k \<Longrightarrow> parse_kexinit (raw_payload k) = Inr k"
proof -
  assume k: "parse_kexinit p = Inr k"
  then have "raw_payload k = p" by (auto simp: parse_kexinit_def result_iff Let_def split: if_splits)
  with k show ?thesis by simp
qed

lemma client_kexinit_cookie: "client_kexinit c = Inr k \<Longrightarrow> client_kexinit (cookie k) = Inr k"
proof -
  assume k: "client_kexinit c = Inr k"
  then have "cookie k = c" by (auto simp: client_kexinit_def result_iff Let_def)
  with k show ?thesis by simp
qed

lemma kexinit_steps_Inr:
  "send_kexinit lib w = (Inr ck, w') \<Longrightarrow> client_kexinit (cookie ck) = Inr ck \<and> files w' = files w \<and> cin w' = cin w"
  "receive_kexinit lib w = (Inr sk, w') \<Longrightarrow> parse_kexinit (raw_payload sk) = Inr sk \<and> files w' = files w \<and> cin w' = cin w"
  by (auto simp: send_kexinit_def receive_kexinit_def create_client_kexinit_def result_iff comp_simps
      dest!: packets_frame intro: client_kexinit_cookie parse_kexinit_raw split: if_splits)


lemma key_exchange_result:
  assumes "perform_key_exchange os lib ident path host w = (Inr (), w')"
  shows "\<exists>key keys. handshake_verified lib ident key keys \<and>
    host_key_accepted os lib path host (files w) (cin w) key \<and> keyed lib keys w'"
proof -
  from assms obtain ck sk algs kp0 reply_payload reply kp h vd keys nk w1 w2 w3 w4 w5 w6 w7 w8 w9 where
    1: "send_kexinit lib w = (Inr ck, w1)" and 2: "receive_kexinit lib w1 = (Inr sk, w2)"
    and 3: "negotiate ck sk = Inr algs" and 4: "create_curve25519_keypair lib w2 = (Inr kp0, w3)"
    and 5: "send_packet lib (create_ecdh_init_payload kp0) w3 = (Inr (), w4)"
    and 6: "receive_packet lib w4 = (Inr reply_payload, w5)" "parse_ecdh_reply reply_payload = Inr reply"
    and 7: "calculate_shared_secret lib kp0 (server_public_key reply) = Inr kp"
    and 8: "calculate_exchange_hash lib (client ident) (server ident) ck sk kp reply = Inr h"
    and 9: "parse_ed25519_verification_data reply (host_key_algorithm algs) = Inr vd"
    and 10: "verify_ed25519_signature lib vd h = Inr ()"
    and 11: "decide_host_key os lib path host (host_key_algorithm algs) (server_host_key reply) w5 = (Inr (), w6)"
    and 12: "derive_transport_keys lib (shared_secret kp) h h = Inr keys"
    and 13: "send_packet lib [NEWKEYS] w6 = (Inr (), w7)"
    and 14: "enable_outgoing_encryption lib (iv_cs keys) (encryption_key_cs keys) (mac_key_cs keys) w7 = (Inr (), w8)"
    and 15: "receive_packet lib w8 = (Inr nk, w9)"
    and 16: "enable_incoming_encryption lib (iv_sc keys) (encryption_key_sc keys) (mac_key_sc keys) w9 = (Inr (), w')"
    unfolding perform_key_exchange_def Let_def by (auto simp: result_iff split: if_splits)
  note ck = kexinit_steps_Inr(1) [OF 1] and sk = kexinit_steps_Inr(2) [OF 2]
  from negotiate_client ck 3 have a: "server_offers sk" "host_key_algorithm algs = ''ssh-ed25519''"
    by (auto simp: client_suite_def)
  note kp = kex_steps_Inr(1) [OF 4] kex_steps_Inr(2) [OF 7]
  have f: "files w5 = files w" "cin w5 = cin w"
    using ck sk kp packets_frame(1) [OF 5] packets_frame(2) [OF 6(1)] by simp_all
  from decide_host_key_accepted [OF 11 [unfolded a]] f
  have "host_key_accepted os lib path host (files w) (cin w) (server_host_key reply)" by simp
  moreover have "handshake_verified lib ident (server_host_key reply) keys"
    unfolding handshake_verified_def
    using ck sk a kp 8 9 kex_steps_Inr(3) [OF 10] 12 by (metis (no_types, lifting))
  moreover have "keyed lib keys w'"
    using enable_encryption_Inr(1) [OF 14] packets_frame(2) [OF 15] enable_encryption_Inr(2) [OF 16]
    by (simp add: keyed_def)
  ultimately show ?thesis by blast
qed

subsection \<open>Frame rules for the handshake\<close>

lemma keeps_getline:
  "(\<And>w ls l. I w \<Longrightarrow> I (w\<lparr>cin := ls, console := console w @ echo (tty w) l\<rparr>)) \<Longrightarrow> keeps I getline_cin"
  by (auto simp: keeps_def comp_simps split: list.split)

lemma keeps_add: "(\<And>w fs. I w \<Longrightarrow> I (w\<lparr>files := fs\<rparr>)) \<Longrightarrow> keeps I (add os lib path h a key)"
  unfolding add_def Let_def by (intro keeps_intro)

lemma keeps_read_version_loop:
  assumes "\<And>w q. I w \<Longrightarrow> I (w\<lparr>rx := q\<rparr>)"
  shows "keeps I (read_version_loop version)"
proof -
  have k: "keeps I (read_exact n)" for n by (rule keeps_read_exact) (rule assms)
  have "I w \<Longrightarrow> I (snd (read_version_loop version w))" for w
  proof (induction version w rule: read_version_loop.induct)
    case (1 version w)
    show ?case
    proof (subst read_version_loop.simps, rule keeps_run_bind [OF k "1.prems"], rule keeps_run_bind [OF keeps_liftE])
      fix bs v byte v'
      assume r: "read_exact 1 w = (Inr bs, v)" "liftE (at_index bs 0) v = (Inr byte, v')" and i: "I v'"
      show "I (snd ((if byte = 10 then returnC version v'
          else read_version_loop (if byte \<noteq> 13 then version @ [char_of (unat byte)] else version) v')))"
        using "1.IH" [OF r] i by (cases "byte = 10") (simp_all add: comp_simps)
    qed
  qed
  then show ?thesis by (simp add: keeps_def)
qed

lemma keeps_identification:
  assumes "\<And>w q. I w \<Longrightarrow> I (w\<lparr>rx := q\<rparr>)" "\<And>w d q. I w \<Longrightarrow> I (w\<lparr>tx := tx w @ d, tx_script := q\<rparr>)"
  shows "keeps I (exchange_identification v)"
  unfolding exchange_identification_def read_version_def Let_def
  by (intro keeps_intro keeps_read_version_loop keeps_write_exact assms)

context packet_frame
begin

lemma authenticate_keeps:
  "keeps I (read_hidden_input os ''Password: '') \<Longrightarrow> keeps I (authenticate_user os lib user)"
  unfolding authenticate_user_def by (intro keeps_intro receive_keeps send_keeps print_keeps)

end

text \<open>The key exchange also draws random bytes, asks the user, writes the known-hosts file and installs keys.\<close>

locale handshake_frame = packet_frame lib I for lib :: "'ctx crypto" and I :: "('ctx, 'x) transport_scheme \<Rightarrow> bool" +
  assumes random_keeps: "keeps I (random_bytes lib n)"
    and line_keeps: "keeps I getline_cin"
    and add_keeps: "keeps I (add os lib path host alg key)"
    and outgoing_keeps: "keeps I (enable_outgoing_encryption lib iv ekey mac)"
    and incoming_keeps: "keeps I (enable_incoming_encryption lib iv ekey mac)"
begin

lemma key_exchange_keeps: "keeps I (perform_key_exchange os lib ident path host)"
  unfolding perform_key_exchange_def send_kexinit_def receive_kexinit_def create_client_kexinit_def
    create_curve25519_keypair_def decide_host_key_def Let_def
  by (intro keeps_intro receive_keeps send_keeps print_keeps random_keeps line_keeps add_keeps outgoing_keeps incoming_keeps)

end

lemma keeps_print: "(\<And>w. I w \<Longrightarrow> I (w\<lparr>console := console w @ [out]\<rparr>)) \<Longrightarrow> keeps I (print out)"
  by (simp add: keeps_def comp_simps)

lemma keeps_ctx:
  assumes "\<And>w k. I w \<Longrightarrow> I (w\<lparr>ctx_calls := k\<rparr>)" "\<And>w l. I w \<Longrightarrow> I (w\<lparr>ctx_live := l\<rparr>)"
  shows "keeps I (ctx_new lib)" and "keeps I (ctx_free x)"
  unfolding ctx_new_def ctx_free_def by (intro keeps_intro assms; assumption)+

lemma keeps_enable:
  assumes "\<And>w k. I w \<Longrightarrow> I (w\<lparr>ctx_calls := k\<rparr>)" "\<And>w l. I w \<Longrightarrow> I (w\<lparr>ctx_live := l\<rparr>)"
    "\<And>w c k b. I w \<Longrightarrow> I (w\<lparr>outgoing_cipher := c, outgoing_mac_key := k, outgoing_encryption_active := b\<rparr>)"
    "\<And>w c k b. I w \<Longrightarrow> I (w\<lparr>incoming_cipher := c, incoming_mac_key := k, incoming_encryption_active := b\<rparr>)"
  shows "keeps I (enable_outgoing_encryption lib iv ekey mac)" and "keeps I (enable_incoming_encryption lib iv ekey mac)"
proof -
  note c = keeps_ctx [of I, OF assms(1,2)]
  show "keeps I (enable_outgoing_encryption lib iv ekey mac)"
    unfolding enable_outgoing_encryption_def Let_def by (intro keeps_intro c assms)
  show "keeps I (enable_incoming_encryption lib iv ekey mac)"
    unfolding enable_incoming_encryption_def Let_def by (intro keeps_intro c assms)
qed

interpretation leak_handshake: handshake_frame lib "no_leak n" for lib n
  by unfold_locales (rule keeps_random_bytes keeps_getline keeps_add enable_encryption_no_leak;
      simp add: no_leak_def owned_def)+

interpretation descriptor_handshake: handshake_frame lib "\<lambda>w. closed_fds w = fds" for lib fds
  by unfold_locales (rule keeps_random_bytes keeps_getline keeps_add keeps_enable; simp)+

interpretation device_handshake: handshake_frame lib "\<lambda>w. tty w = t" for lib t
  by unfold_locales (rule keeps_receive_packet keeps_send_packet keeps_random_bytes keeps_getline keeps_add keeps_enable
      keeps_print; simp)+

end
