(* ===== verification/SSH_Client_Script.thy ===== *)
theory SSH_Client_Script
  imports SSH_Client
begin

section \<open>Complete handshakes and logins\<close>

text \<open>
  The key exchange and the login against a server that follows the protocol, for any library that behaves as
  documented, and the properties of the key exchange: what it has established when it returns, and that
  trust on first use is remembered.
\<close>

subsection \<open>Installing keys\<close>

lemma run_enable_outgoing:
  assumes "EVP_CIPHER_CTX_new lib (ctx_calls w) = Some c" "EVP_EncryptInit_ex lib c key iv = (rc, c')" "rc \<noteq> 0"
  shows "enable_outgoing_encryption lib iv key mac w = (Inr (), w\<lparr>ctx_calls := Suc (ctx_calls w),
    ctx_live := ctx_live w + of_bool (outgoing_cipher w = None),
    outgoing_cipher := Some c', outgoing_mac_key := mac, outgoing_encryption_active := True\<rparr>)"
  using assms
  by (cases "outgoing_cipher w")
     (simp_all add: enable_outgoing_encryption_def ctx_new_def ctx_free_def comp_simps Let_def)

lemma run_enable_incoming:
  assumes "EVP_CIPHER_CTX_new lib (ctx_calls w) = Some c" "EVP_DecryptInit_ex lib c key iv = (rc, c')" "rc \<noteq> 0"
  shows "enable_incoming_encryption lib iv key mac w = (Inr (), w\<lparr>ctx_calls := Suc (ctx_calls w),
    ctx_live := ctx_live w + of_bool (incoming_cipher w = None),
    incoming_cipher := Some c', incoming_mac_key := mac, incoming_encryption_active := True\<rparr>)"
  using assms
  by (cases "incoming_cipher w")
     (simp_all add: enable_incoming_encryption_def ctx_new_def ctx_free_def comp_simps Let_def)

lemma scripted_outgoing_keys:
  "scripted lib stream ps rest n w \<Longrightarrow> scripted lib stream ps rest n (w\<lparr>ctx_calls := k, ctx_live := l,
     outgoing_cipher := Some c, outgoing_mac_key := key, outgoing_encryption_active := True\<rparr>)"
  by (simp add: scripted_def)

subsection \<open>The key exchange\<close>

text \<open>What the packet operations leave alone.\<close>

definition unchanged :: "('ctx, 'x) transport_scheme \<Rightarrow> ('ctx, 'x) transport_scheme \<Rightarrow> bool" where
  "unchanged w w' \<longleftrightarrow> cin w' = cin w \<and> console w' = console w \<and> files w' = files w \<and> ctx_calls w' = ctx_calls w \<and>
     incoming_encryption_active w' = incoming_encryption_active w"

lemma step_receive:
  assumes "documented lib stream" "scripted lib stream (p # ps) rest n w"
  shows "\<exists>w'. receive_packet lib w = (Inr p, w') \<and> scripted lib stream ps rest n w' \<and> unchanged w w' \<and>
    random_calls w' = random_calls w \<and> incoming_sequence w' = incoming_sequence w + 1"
  using scripted_receive [OF assms] by (fastforce simp: unchanged_def)

lemma step_send:
  assumes "documented lib stream" "scripted lib stream ps rest (Suc n) w" "sendable p"
  shows "\<exists>w'. send_packet lib p w = (Inr (), w') \<and> scripted lib stream ps rest n w' \<and> unchanged w w' \<and>
    random_calls w' = Suc (random_calls w) \<and> incoming_sequence w' = incoming_sequence w"
  using scripted_send [OF assms] by (fastforce simp: unchanged_def)

lemma scripted_kexinit:
  fixes w :: "('ctx, 'x) transport_scheme"
  assumes docs: "documented lib stream" and s: "scripted lib stream (raw_payload sk # ps) rest (Suc n) w"
    and ck: "client_kexinit (randombytes_buf lib (random_calls w) cookie_bytes) = Inr ck"
    and sk: "parse_kexinit (raw_payload sk) = Inr sk"
  shows "\<exists>w1 w2. send_kexinit lib w = (Inr ck, w1) \<and> receive_kexinit lib w1 = (Inr sk, w2) \<and>
    scripted lib stream ps rest n w2 \<and> unchanged w w2 \<and> random_calls w2 = Suc (Suc (random_calls w)) \<and>
    incoming_sequence w2 = incoming_sequence w + 1"
proof -
  let ?w = "w\<lparr>random_calls := Suc (random_calls w)\<rparr>"
  have s': "scripted lib stream (raw_payload sk # ps) rest (Suc n) ?w" using s by simp
  have "sendable (raw_payload ck)"
    using ck documentedD(1) [OF docs]
    by (auto simp: client_kexinit_def result_iff Let_def sendable_def cookie_bytes_def name_list_def)
  from step_send [OF docs s' this] obtain w1 where 1: "send_packet lib (raw_payload ck) ?w = (Inr (), w1)"
    "scripted lib stream (raw_payload sk # ps) rest n w1" "unchanged ?w w1" "random_calls w1 = Suc (Suc (random_calls w))"
    "incoming_sequence w1 = incoming_sequence w" by auto
  from step_receive [OF docs 1(2)] obtain w2 where 2: "receive_packet lib w1 = (Inr (raw_payload sk), w2)"
    "scripted lib stream ps rest n w2" "unchanged w1 w2" "random_calls w2 = random_calls w1"
    "incoming_sequence w2 = incoming_sequence w1 + 1" by auto
  have "raw_payload sk \<noteq> []" "raw_payload sk ! 0 = KEXINIT"
    using sk by (auto simp: parse_kexinit_def result_iff split: if_splits)
  with sk 2 have "receive_kexinit lib w1 = (Inr sk, w2)" by (simp add: receive_kexinit_def comp_simps)
  moreover have "send_kexinit lib w = (Inr ck, w1)"
    using ck 1(1) by (simp add: send_kexinit_def create_client_kexinit_def comp_simps)
  ultimately show ?thesis using 1 2 by (intro exI [of _ w1] exI [of _ w2]) (simp add: unchanged_def)
qed

lemma scripted_ecdh:
  fixes w :: "('ctx, 'x) transport_scheme"
  assumes docs: "documented lib stream" and s: "scripted lib stream (rp # ps) rest (Suc n) w"
    and kp: "client_private_key kp = randombytes_buf lib (random_calls w) 32"
      "crypto_scalarmult_curve25519_base lib (client_private_key kp) = (0, client_public_key kp)" "length (client_public_key kp) = 32"
  shows "\<exists>w1 w2 w3. create_curve25519_keypair lib w = (Inr (kp\<lparr>shared_secret := replicate 32 0\<rparr>), w1) \<and>
    send_packet lib (create_ecdh_init_payload (kp\<lparr>shared_secret := replicate 32 0\<rparr>)) w1 = (Inr (), w2) \<and>
    receive_packet lib w2 = (Inr rp, w3) \<and> scripted lib stream ps rest n w3 \<and> unchanged w w3 \<and>
    incoming_sequence w3 = incoming_sequence w + 1"
proof -
  let ?kp = "kp\<lparr>shared_secret := replicate 32 0\<rparr>" and ?w = "w\<lparr>random_calls := Suc (random_calls w)\<rparr>"
  have 1: "create_curve25519_keypair lib w = (Inr ?kp, ?w)"
    using kp(1,2) by (cases kp) (simp add: create_curve25519_keypair_def comp_simps Let_def)
  have s': "scripted lib stream (rp # ps) rest (Suc n) ?w" using s by simp
  have "sendable (create_ecdh_init_payload ?kp)" using kp(3) by (simp add: create_ecdh_init_payload_def sendable_def)
  from step_send [OF docs s' this] obtain w2 where 2: "send_packet lib (create_ecdh_init_payload ?kp) ?w = (Inr (), w2)"
    "scripted lib stream (rp # ps) rest n w2" "unchanged ?w w2" "incoming_sequence w2 = incoming_sequence w" by auto
  from step_receive [OF docs 2(2)] obtain w3 where "receive_packet lib w2 = (Inr rp, w3)"
    "scripted lib stream ps rest n w3" "unchanged w2 w3" "incoming_sequence w3 = incoming_sequence w2 + 1" by auto
  with 1 2 show ?thesis by (intro exI [of _ ?w] exI [of _ w2] exI [of _ w3]) (simp add: unchanged_def)
qed

lemma scripted_newkeys:
  fixes w :: "('ctx, 'x) transport_scheme"
  assumes docs: "documented lib stream" and ps: "list_all sendable ps" and plain: "\<not> incoming_encryption_active w"
    and s: "scripted lib stream [[NEWKEYS]] (wire lib (stream d') (incoming_sequence w + 1) mac ps @ rest) (Suc n) w"
    and out: "EVP_CIPHER_CTX_new lib (ctx_calls w) = Some c" "EVP_EncryptInit_ex lib c key iv = (1, c')"
    and inc: "EVP_CIPHER_CTX_new lib (Suc (ctx_calls w)) = Some d" "EVP_DecryptInit_ex lib d key' iv' = (1, d')"
  shows "\<exists>w1 w2 w3 w4. send_packet lib [NEWKEYS] w = (Inr (), w1) \<and>
    enable_outgoing_encryption lib iv key mac' w1 = (Inr (), w2) \<and> receive_packet lib w2 = (Inr [NEWKEYS], w3) \<and>
    enable_incoming_encryption lib iv' key' mac w3 = (Inr (), w4) \<and> scripted lib stream ps rest n w4 \<and>
    cin w4 = cin w \<and> console w4 = console w"
proof -
  let ?rest = "wire lib (stream d') (incoming_sequence w + 1) mac ps @ rest"
  have "sendable [NEWKEYS]" by (simp add: sendable_def)
  from step_send [OF docs s this] obtain w1 where 1: "send_packet lib [NEWKEYS] w = (Inr (), w1)"
    "scripted lib stream [[NEWKEYS]] ?rest n w1" "unchanged w w1" "incoming_sequence w1 = incoming_sequence w" by auto
  let ?w2 = "w1\<lparr>ctx_calls := Suc (ctx_calls w1), ctx_live := ctx_live w1 + of_bool (outgoing_cipher w1 = None),
    outgoing_cipher := Some c', outgoing_mac_key := mac', outgoing_encryption_active := True\<rparr>"
  have 2: "enable_outgoing_encryption lib iv key mac' w1 = (Inr (), ?w2)"
    by (rule run_enable_outgoing [OF _ out(2)]) (use out(1) 1(3) in \<open>simp_all add: unchanged_def\<close>)
  from step_receive [OF docs scripted_outgoing_keys [OF 1(2)]] obtain w3 where 3: "receive_packet lib ?w2 = (Inr [NEWKEYS], w3)"
    "scripted lib stream [] ?rest n w3" "unchanged ?w2 w3" "incoming_sequence w3 = incoming_sequence w1 + 1" by fastforce
  let ?w4 = "w3\<lparr>ctx_calls := Suc (ctx_calls w3), ctx_live := ctx_live w3 + of_bool (incoming_cipher w3 = None),
    incoming_cipher := Some d', incoming_mac_key := mac, incoming_encryption_active := True\<rparr>"
  have f: "ctx_calls w3 = Suc (ctx_calls w)" "incoming_sequence w3 = incoming_sequence w + 1" "\<not> incoming_encryption_active w3"
    using 1 3 plain by (simp_all add: unchanged_def)
  have 4: "enable_incoming_encryption lib iv' key' mac w3 = (Inr (), ?w4)"
    by (rule run_enable_incoming [OF _ inc(2)]) (use inc(1) f in simp_all)
  have s4: "scripted lib stream ps rest n ?w4" using scripted_keys [OF _ f(3) ps] 3(2) f(2) by simp
  have "cin ?w4 = cin w" "console ?w4 = console w" using 1 3 by (simp_all add: unchanged_def)
  with 1 2 3 4 s4 show ?thesis by blast
qed

lemma decide_host_key_match:
  "check os lib path (files w) host alg key = Inr Match \<Longrightarrow> decide_host_key os lib path host alg key w =
     (Inr (), w\<lparr>console := console w @ [Cout (''Server host key matches known host'' @ [CHR ''\<newline>''])]\<rparr>)"
  by (simp add: decide_host_key_def comp_simps Let_def)

text \<open>
  A server that has the private key of the host, and answers in time: it signs the exchange hash that the client computes from
  the cookie and the private key it has drawn, and the host key is on file.
\<close>

definition honest_reply ::
  "posix \<Rightarrow> 'ctx crypto \<Rightarrow> IdentificationExchange \<Rightarrow> string \<Rightarrow> string \<Rightarrow> ('ctx, 'x) transport_scheme \<Rightarrow>
     KexInit \<Rightarrow> bytes \<Rightarrow> TransportKeyMaterial \<Rightarrow> bool" where
  "honest_reply os lib ident path host w sk rp keys \<longleftrightarrow>
     parse_kexinit (raw_payload sk) = Inr sk \<and> server_offers sk \<and>
     (\<exists>ck kp reply rc h vd.
        client_kexinit (randombytes_buf lib (random_calls w) cookie_bytes) = Inr ck \<and>
        client_private_key kp = randombytes_buf lib (Suc (Suc (random_calls w))) 32 \<and>
        crypto_scalarmult_curve25519_base lib (client_private_key kp) = (0, client_public_key kp) \<and>
        length (client_public_key kp) = 32 \<and>
        crypto_scalarmult_curve25519 lib (client_private_key kp) (server_public_key reply) = (rc, shared_secret kp) \<and> rc \<noteq> -1 \<and>
        parse_ecdh_reply rp = Inr reply \<and>
        calculate_exchange_hash lib (client ident) (server ident) ck sk kp reply = Inr h \<and>
        parse_ed25519_verification_data reply ''ssh-ed25519'' = Inr vd \<and>
        crypto_sign_verify_detached lib (signature vd) h (public_key vd) = 0 \<and>
        check os lib path (files w) host ''ssh-ed25519'' (server_host_key reply) = Inr Match \<and>
        derive_transport_keys lib (shared_secret kp) h h = Inr keys)"

lemma scripted_key_exchange:
  fixes w :: "('ctx, 'x) transport_scheme"
  assumes docs: "documented lib stream" and honest: "honest_reply os lib ident path host w sk rp keys"
    and s: "scripted lib stream [raw_payload sk, rp, [NEWKEYS]]
      (wire lib (stream d') (incoming_sequence w + 3) (mac_key_sc keys) ps @ rest) (Suc (Suc (Suc n))) w"
    and plain: "\<not> incoming_encryption_active w" and ps: "list_all sendable ps"
    and out: "EVP_CIPHER_CTX_new lib (ctx_calls w) = Some c" "EVP_EncryptInit_ex lib c (encryption_key_cs keys) (iv_cs keys) = (1, c')"
    and inc: "EVP_CIPHER_CTX_new lib (Suc (ctx_calls w)) = Some d" "EVP_DecryptInit_ex lib d (encryption_key_sc keys) (iv_sc keys) = (1, d')"
  shows "\<exists>w'. perform_key_exchange os lib ident path host w = (Inr (), w') \<and> scripted lib stream ps rest n w' \<and>
    cin w' = cin w \<and> console w' = console w @ [Cout (''Server host key matches known host'' @ [CHR ''\<newline>''])]"
proof -
  let ?rest = "wire lib (stream d') (incoming_sequence w + 3) (mac_key_sc keys) ps @ rest"
  from honest obtain ck kp reply rc h vd where sk: "parse_kexinit (raw_payload sk) = Inr sk" "server_offers sk"
    and ck: "client_kexinit (randombytes_buf lib (random_calls w) cookie_bytes) = Inr ck"
    and kp: "client_private_key kp = randombytes_buf lib (Suc (Suc (random_calls w))) 32"
      "crypto_scalarmult_curve25519_base lib (client_private_key kp) = (0, client_public_key kp)" "length (client_public_key kp) = 32"
      "crypto_scalarmult_curve25519 lib (client_private_key kp) (server_public_key reply) = (rc, shared_secret kp)" "rc \<noteq> -1"
    and reply: "parse_ecdh_reply rp = Inr reply"
    and h: "calculate_exchange_hash lib (client ident) (server ident) ck sk kp reply = Inr h"
    and vd: "parse_ed25519_verification_data reply ''ssh-ed25519'' = Inr vd"
      "crypto_sign_verify_detached lib (signature vd) h (public_key vd) = 0"
    and host: "check os lib path (files w) host ''ssh-ed25519'' (server_host_key reply) = Inr Match"
    and keys: "derive_transport_keys lib (shared_secret kp) h h = Inr keys" by (auto simp: honest_reply_def)
  from scripted_kexinit [OF docs s ck sk(1)] obtain w1 w2 where
    1: "send_kexinit lib w = (Inr ck, w1)" "receive_kexinit lib w1 = (Inr sk, w2)"
    "scripted lib stream [rp, [NEWKEYS]] ?rest (Suc (Suc n)) w2" "unchanged w w2"
    "random_calls w2 = Suc (Suc (random_calls w))" "incoming_sequence w2 = incoming_sequence w + 1" by blast
  have neg: "negotiate ck sk = Inr client_suite" using negotiate_client [OF ck] sk(2) by blast
  from scripted_ecdh [OF docs 1(3), of kp] kp 1(5) obtain w3 w4 w5 where
    2: "create_curve25519_keypair lib w2 = (Inr (kp\<lparr>shared_secret := replicate 32 0\<rparr>), w3)"
    "send_packet lib (create_ecdh_init_payload (kp\<lparr>shared_secret := replicate 32 0\<rparr>)) w3 = (Inr (), w4)"
    "receive_packet lib w4 = (Inr rp, w5)" "scripted lib stream [[NEWKEYS]] ?rest (Suc n) w5" "unchanged w2 w5"
    "incoming_sequence w5 = incoming_sequence w2 + 1" by auto
  have rp: "rp \<noteq> []" "rp ! 0 = KEX_ECDH_REPLY"
    using parse_ecdh_reply_sound [OF reply] by (simp_all add: reply_layout_def)
  have secret: "calculate_shared_secret lib (kp\<lparr>shared_secret := replicate 32 0\<rparr>) (server_public_key reply) = Inr kp"
    using kp(4,5) by (cases kp) (simp add: calculate_shared_secret_def Let_def)
  have ver: "verify_ed25519_signature lib vd h = Inr ()" using vd(2) by (simp add: verify_ed25519_signature_def)
  let ?w6 = "w5\<lparr>console := console w5 @ [Cout (''Server host key matches known host'' @ [CHR ''\<newline>''])]\<rparr>"
  have 3: "decide_host_key os lib path host ''ssh-ed25519'' (server_host_key reply) w5 = (Inr (), ?w6)"
    by (rule decide_host_key_match) (use host 1(4) 2(5) in \<open>simp add: unchanged_def\<close>)
  have f: "incoming_sequence ?w6 + 1 = incoming_sequence w + 3" "ctx_calls ?w6 = ctx_calls w" "\<not> incoming_encryption_active ?w6"
    using 1 2 plain by (simp_all add: unchanged_def)
  have s6: "scripted lib stream [[NEWKEYS]] (wire lib (stream d') (incoming_sequence ?w6 + 1) (mac_key_sc keys) ps @ rest) (Suc n) ?w6"
    unfolding f(1) using 2(4) by simp
  from scripted_newkeys [OF docs ps f(3) s6 _ out(2) _ inc(2), of "mac_key_cs keys"] out(1) inc(1) f(2)
  obtain w7 w8 w9 w' where 4: "send_packet lib [NEWKEYS] ?w6 = (Inr (), w7)"
    "enable_outgoing_encryption lib (iv_cs keys) (encryption_key_cs keys) (mac_key_cs keys) w7 = (Inr (), w8)"
    "receive_packet lib w8 = (Inr [NEWKEYS], w9)"
    "enable_incoming_encryption lib (iv_sc keys) (encryption_key_sc keys) (mac_key_sc keys) w9 = (Inr (), w')"
    "scripted lib stream ps rest n w'" "cin w' = cin ?w6" "console w' = console ?w6" by auto
  have "perform_key_exchange os lib ident path host w = (Inr (), w')"
    using 1(1,2) neg 2(1-3) rp reply secret h vd(1) ver 3 keys 4(1-4)
    by (simp add: perform_key_exchange_def client_suite_def comp_simps Let_def NEWKEYS_PAYLOAD_SIZE_def)
  with 1 2 4 show ?thesis by (intro exI [of _ w']) (simp add: unchanged_def)
qed


subsection \<open>The login\<close>

definition service_accepted :: bytes where "service_accepted = SERVICE_ACCEPT # text_field ''ssh-userauth''"
definition methods_left :: "string \<Rightarrow> bytes" where "methods_left ms = USERAUTH_FAILURE # text_field ms @ [0]"

lemma sendable_login [simp]: "sendable service_accepted" "length ms \<le> 30000 \<Longrightarrow> sendable (methods_left ms)"
  "sendable [m]"
  by (simp_all add: sendable_def service_accepted_def methods_left_def text_field_def)

lemma read_hidden_input_working:
  assumes "working_terminal os" "cin w = password # ls"
  shows "read_hidden_input os prompt w = (Inr password,
    w\<lparr>tty_calls := Suc (Suc (Suc (tty_calls w))), cin := ls, console := console w @ [Cout prompt, Cout [CHR 0x0A]]\<rparr>)"
  using assms
  by (simp add: read_hidden_input_def bindC_def comp_simps working_terminal_def settable_def Let_def)

lemma scripted_authentication:
  fixes w :: "('ctx, 'x) transport_scheme"
  assumes docs: "documented lib stream" and os: "working_terminal os"
    and s: "scripted lib stream (service_accepted # methods_left ms # [USERAUTH_SUCCESS] # ps) rest (Suc (Suc (Suc n))) w"
    and l: "length user \<le> 1000" "length password \<le> 1000" "length ms \<le> 30000" and cin: "cin w = password # ls"
  shows "\<exists>w'. authenticate_user os lib user w = (Inr (), w') \<and> scripted lib stream ps rest n w' \<and>
    console w' = console w @ [Cout ''Password: '', Cout [CHR 0x0A], Cout (''Authentication Complete'' @ [CHR ''\<newline>''])]"
proof -
  let ?none = "USERAUTH_REQUEST # text_field user @ text_field ''ssh-connection'' @ text_field ''none''"
  let ?pw = "USERAUTH_REQUEST # text_field user @ text_field ''ssh-connection'' @ text_field ''password'' @ 0 # text_field password"
  have p: "create_none_auth_request user = Inr ?none" "create_password_auth_request user password = Inr ?pw"
    using l by (simp_all add: create_none_auth_request_eq create_password_auth_request_eq uint32_max_def)
  have m: "sendable (SERVICE_REQUEST # text_field ''ssh-userauth'')" "sendable ?none" "sendable ?pw"
    using l by (simp_all add: sendable_def text_field_def)
  have v: "validate_service_accept service_accepted = Inr ()"
    "parse_auth_failure (methods_left ms) = Inr \<lparr>available_methods = ms, partial_success = False\<rparr>"
    "validate_auth_success [USERAUTH_SUCCESS] = Inr ()"
    using l(3) by (simp_all add: validate_service_accept_eq parse_auth_failure_eq validate_auth_success_eq service_accepted_def
        methods_left_def uint32_max_def)
  from step_send [OF docs s m(1)] obtain w1 where 1: "send_packet lib (SERVICE_REQUEST # text_field ''ssh-userauth'') w = (Inr (), w1)"
    "scripted lib stream (service_accepted # methods_left ms # [USERAUTH_SUCCESS] # ps) rest (Suc (Suc n)) w1" "unchanged w w1" by blast
  from step_receive [OF docs 1(2)] obtain w2 where 2: "receive_packet lib w1 = (Inr service_accepted, w2)"
    "scripted lib stream (methods_left ms # [USERAUTH_SUCCESS] # ps) rest (Suc (Suc n)) w2" "unchanged w1 w2" by blast
  from step_send [OF docs 2(2) m(2)] obtain w3 where 3: "send_packet lib ?none w2 = (Inr (), w3)"
    "scripted lib stream (methods_left ms # [USERAUTH_SUCCESS] # ps) rest (Suc n) w3" "unchanged w2 w3" by blast
  from step_receive [OF docs 3(2)] obtain w4 where 4: "receive_packet lib w3 = (Inr (methods_left ms), w4)"
    "scripted lib stream ([USERAUTH_SUCCESS] # ps) rest (Suc n) w4" "unchanged w3 w4" by blast
  have "cin w4 = password # ls" using cin 1 2 3 4 by (simp add: unchanged_def)
  note 5 = read_hidden_input_working [OF os this, of "''Password: ''"]
  let ?w5 = "w4\<lparr>tty_calls := Suc (Suc (Suc (tty_calls w4))), cin := ls,
    console := console w4 @ [Cout ''Password: '', Cout [CHR 0x0A]]\<rparr>"
  have "scripted lib stream ([USERAUTH_SUCCESS] # ps) rest (Suc n) ?w5" using 4(2) by simp
  from step_send [OF docs this m(3)] obtain w6 where 6: "send_packet lib ?pw ?w5 = (Inr (), w6)"
    "scripted lib stream ([USERAUTH_SUCCESS] # ps) rest n w6" "unchanged ?w5 w6" by blast
  from step_receive [OF docs 6(2)] obtain w7 where 7: "receive_packet lib w6 = (Inr [USERAUTH_SUCCESS], w7)"
    "scripted lib stream ps rest n w7" "unchanged w6 w7" by blast
  let ?w = "w7\<lparr>console := console w7 @ [Cout (''Authentication Complete'' @ [CHR ''\<newline>''])]\<rparr>"
  have "authenticate_user os lib user w = (Inr (), ?w)"
    using 1(1) 2(1) 3(1) 4(1) 5 6(1) 7(1) p v
    by (simp add: authenticate_user_def create_service_request_eq comp_simps)
  with 1 2 3 4 6 7 show ?thesis by (intro exI [of _ ?w]) (simp add: unchanged_def)
qed

subsection \<open>A server for the sample library\<close>

lemma client_kexinit_served:
  assumes "length c = 16"
  shows "\<exists>k. client_kexinit c = Inr k \<and> parse_kexinit (raw_payload k) = Inr k \<and> server_offers k \<and> sendable (raw_payload k)"
proof -
  from client_kexinit_layout [of c] obtain k where k: "client_kexinit c = Inr k" "cookie k = c"
    "kexinit_fits k" "\<not> first_kex_packet_follows k" "raw_payload k = kexinit_layout k 0" by blast
  have "parse_kexinit (raw_payload k) = Inr k" using k assms by (intro parse_kexinit_complete [of _ 0]) simp_all
  moreover have "server_offers k" unfolding server_offers_def using client_kexinit_lists [OF k(1)] by (simp add: getlines_last)
  moreover have "sendable (raw_payload k)"
    using k(1) assms by (auto simp: client_kexinit_def result_iff Let_def sendable_def name_list_def)
  ultimately show ?thesis using k(1) by blast
qed

lemma check_stored:
  assumes "disk_reliable os path" "is_word h" "is_word a" "is_word k" "encode_base64 lib key = Inr k"
    "fs path = Some (entry h a k @ [CHR ''\<newline>''])"
  shows "check os lib path fs h a key = Inr Match"
  using assms entry_lines [OF assms(2-4)] by (simp add: check_reliable file_lines_def)

definition sample_host_key :: bytes where
  "sample_host_key = ssh_string ed25519_name @ ssh_string (replicate 32 9)"

definition sample_file :: "string \<Rightarrow> string" where
  "sample_file host = entry host ''ssh-ed25519'' (concat (map (\<lambda>b.
     [char_of (97 + unat b div 16), char_of (97 + unat b mod 16)]) sample_host_key)) @ [CHR ''\<newline>'']"

lemma sample_file_check:
  assumes "is_word host" "fs path = Some (sample_file host)"
  shows "check willing_posix sample_crypto path fs host ''ssh-ed25519'' sample_host_key = Inr Match"
proof (rule check_stored [OF willing_disk_reliable assms(1)])
  have ne: "sample_host_key \<noteq> []" by (simp add: sample_host_key_def ssh_string_def)
  show "is_word ''ssh-ed25519''" by (simp add: is_word_def is_space_def)
  show "is_word (concat (map (\<lambda>b. [char_of (97 + unat b div 16), char_of (97 + unat b mod 16)]) sample_host_key))"
    using ne by (rule is_word_sample_base64)
  show "encode_base64 sample_crypto sample_host_key =
      Inr (concat (map (\<lambda>b. [char_of (97 + unat b div 16), char_of (97 + unat b mod 16)]) sample_host_key))"
    using ne by (simp add: encode_base64_def sample_crypto_def)
  show "fs path = Some (entry host ''ssh-ed25519'' (concat (map (\<lambda>b.
      [char_of (97 + unat b div 16), char_of (97 + unat b mod 16)]) sample_host_key)) @ [CHR ''\<newline>''])"
    using assms(2) by (simp add: sample_file_def)
qed

lemma sample_crypto_simps:
  "length (crypto_hash_sha256 sample_crypto m) = 32" "length (randombytes_buf sample_crypto k n) = n"
  "crypto_sign_verify_detached sample_crypto (m @ x) m pk = (if length m = 32 then 0 else crypto_sign_verify_detached sample_crypto (m @ x) m pk)"
  "EVP_CIPHER_CTX_new sample_crypto k = Some 0"
  "EVP_EncryptInit_ex sample_crypto c key iv = (1, unat (sum_list iv))"
  "EVP_DecryptInit_ex sample_crypto c key iv = (1, unat (sum_list iv))"
  by (simp_all add: sample_crypto_def)

lemma sample_honest:
  assumes "is_word host" "files w path = Some (sample_file host)" "length (client ident) \<le> 100" "length (server ident) \<le> 100"
  shows "\<exists>sk rp keys. honest_reply willing_posix sample_crypto ident path host w sk rp keys \<and>
    sendable (raw_payload sk) \<and> sendable rp"
proof -
  let ?lib = sample_crypto
  obtain sk where sk: "parse_kexinit (raw_payload sk) = Inr sk" "server_offers sk" "sendable (raw_payload sk)"
    using client_kexinit_served [of "replicate 16 0"] by auto
  obtain ck where ck: "client_kexinit (randombytes_buf ?lib (random_calls w) cookie_bytes) = Inr ck" "sendable (raw_payload ck)"
    using client_kexinit_served [of "randombytes_buf ?lib (random_calls w) cookie_bytes"]
    by (auto simp: sample_crypto_simps cookie_bytes_def)
  define priv where "priv = randombytes_buf ?lib (Suc (Suc (random_calls w))) 32"
  define kp where "kp = \<lparr>client_private_key = priv, client_public_key = replicate 32 (sum_list priv),
    shared_secret = replicate 32 (sum_list priv * sum_list (replicate 32 5))\<rparr>"
  have kp: "client_private_key kp = randombytes_buf ?lib (Suc (Suc (random_calls w))) 32"
    "crypto_scalarmult_curve25519_base ?lib (client_private_key kp) = (0, client_public_key kp)"
    "length (client_public_key kp) = 32" "length (shared_secret kp) = 32"
    "crypto_scalarmult_curve25519 ?lib (client_private_key kp) (replicate 32 5) = (0, shared_secret kp)"
    by (simp_all add: kp_def priv_def sample_crypto_def)
  define h where "h = crypto_hash_sha256 ?lib (exchange_input (client ident) (server ident) ck sk kp
    \<lparr>server_host_key = sample_host_key, server_public_key = replicate 32 5, reply_signature = []\<rparr>)"
  define sig where "sig = h @ replicate 32 0"
  define reply where "reply = \<lparr>server_host_key = sample_host_key, server_public_key = replicate 32 5,
    reply_signature = ssh_string ed25519_name @ ssh_string sig\<rparr>"
  have l: "length h = 32" "length sig = 64" by (simp_all add: h_def sig_def sample_crypto_simps)
  have hk: "length sample_host_key = 51" "length (reply_signature reply) = 83"
    by (simp_all add: sample_host_key_def ed25519_name_def reply_def l)
  have fits: "exchange_fits (client ident) (server ident) ck sk kp reply"
    using sk(3) ck(2) kp(3,4) hk assms(3,4) mpint_fits [of "shared_secret kp"]
    by (simp add: exchange_fits_def short_text_fits sendable_def string_fits_def uint32_max_def reply_def)
  have h: "calculate_exchange_hash ?lib (client ident) (server ident) ck sk kp reply = Inr h"
    unfolding calculate_exchange_hash_eq using fits by (simp add: h_def exchange_input_def reply_def)
  have rp: "parse_ecdh_reply (reply_layout reply) = Inr reply"
    using hk by (intro parse_ecdh_reply_complete) (simp_all add: reply_def string_fits_def uint32_max_def)
  have vd: "parse_ed25519_verification_data reply ''ssh-ed25519'' = Inr \<lparr>public_key = replicate 32 9, signature = sig\<rparr>"
    by (rule parse_ed25519_complete) (simp_all add: l reply_def sample_host_key_def)
  have ver: "crypto_sign_verify_detached ?lib sig h (replicate 32 9) = 0" using l by (simp add: sig_def sample_crypto_def)
  obtain keys where keys: "derive_transport_keys ?lib (shared_secret kp) h h = Inr keys"
    using kp(4) by (simp add: derive_transport_keys_def derive_key_material_eq)
  have m: "check willing_posix ?lib path (files w) host ''ssh-ed25519'' (server_host_key reply) = Inr Match"
    using sample_file_check [of host "files w" path] assms(1,2) by (simp add: reply_def)
  have "honest_reply willing_posix ?lib ident path host w sk (reply_layout reply) keys"
    unfolding honest_reply_def
    using sk(1,2) ck(1) kp(1,2,3,5) rp h vd ver m keys
    by (intro conjI exI [of _ ck] exI [of _ kp] exI [of _ reply] exI [of _ 0] exI [of _ h]
        exI [of _ "\<lparr>public_key = replicate 32 9, signature = sig\<rparr>"]) (simp_all add: reply_def)
  moreover have "sendable (reply_layout reply)" using hk by (simp add: sendable_def reply_layout_def reply_def)
  ultimately show ?thesis using sk(3) by blast
qed

subsection \<open>Key exchange and host keys\<close>

text \<open>
  C2: A completed key exchange is authenticated. If \<open>perform_key_exchange\<close> returns, then the server offered the client's
  algorithms, the Ed25519 key of the presented host key has signed the exchange hash over both identification
  strings, both \<open>KEXINIT\<close> payloads, the host key, the ephemeral keys and the shared secret; that host key is on
  file for this host, or unknown and confirmed by the user with \<open>yes\<close>; and both directions of the transport are
  encrypted and authenticated with the keys derived from this exchange. A changed host key is never accepted.
\<close>

theorem key_exchange_authentic:
  assumes "perform_key_exchange os lib ident path host w = (Inr (), w')"
  shows "\<exists>key keys. handshake_verified lib ident key keys \<and>
    host_key_accepted os lib path host (files w) (cin w) key \<and> keyed lib keys w'"
  using key_exchange_result [OF assms] .

text \<open>A connection of the sample client, before the key exchange.\<close>

definition sample_connection :: "bytes \<Rightarrow> nat \<Rightarrow> nat transport" where
  "sample_connection input n =
     \<lparr>rx = [Rx_data input], tx_script = replicate n (Tx_accept 35032), tx = [],
      keyboard = [], cin = [], console = [], files = [''f'' \<mapsto> sample_file ''h''], tty = tty idle_machine, tty_calls = 0,
      random_calls = 0, ctx_calls = 0, ctx_live = 0, closed_fds = [],
      original_settings = tty idle_machine, raw_mode_active = False,
      incoming_sequence = 0, outgoing_sequence = 0,
      outgoing_encryption_active = False, incoming_encryption_active = False,
      outgoing_cipher = None, incoming_cipher = None,
      outgoing_mac_key = replicate 32 0, incoming_mac_key = replicate 32 0\<rparr>"

definition sample_ident :: IdentificationExchange where
  "sample_ident = \<lparr>client = ''SSH-2.0-ConorSSH_0.1'', server = ''SSH-2.0-x''\<rparr>"

lemma sample_connection_script:
  "list_all sendable ps \<Longrightarrow> input = script ps \<Longrightarrow>
     scripted sample_crypto (\<lambda>c i. of_nat (c + i)) ps [] n (sample_connection input n)"
  by (auto simp: scripted_def sample_connection_def)

lemma sample_exchange_script:
  "\<exists>w sk rp keys. honest_reply willing_posix sample_crypto sample_ident ''f'' ''h'' w sk rp keys \<and>
     scripted sample_crypto (\<lambda>c i. of_nat (c + i)) [raw_payload sk, rp, [NEWKEYS]] [] (Suc (Suc (Suc 0))) w \<and>
     \<not> incoming_encryption_active (w :: nat transport)"
proof -
  have f: "files (sample_connection input n) ''f'' = Some (sample_file ''h'')" for input n
    by (simp add: sample_connection_def)
  have wd: "is_word ''h''" by (simp add: is_word_def is_space_def)
  from sample_honest [OF wd f [of "[]" 0], of "sample_ident"] obtain sk rp keys where
    h: "honest_reply willing_posix sample_crypto sample_ident ''f'' ''h'' (sample_connection [] 0) sk rp keys"
    "sendable (raw_payload sk)" "sendable rp" by (auto simp: sample_ident_def)
  let ?ps = "[raw_payload sk, rp, [NEWKEYS]]"
  let ?w = "sample_connection (script ?ps) 3"
  have "honest_reply willing_posix sample_crypto sample_ident ''f'' ''h'' ?w sk rp keys"
    using h(1) by (simp add: honest_reply_def sample_connection_def)
  moreover have "scripted sample_crypto (\<lambda>c i. of_nat (c + i)) ?ps [] (Suc (Suc (Suc 0))) ?w"
    using sample_connection_script [of ?ps "script ?ps" 3] h(2,3) by (simp add: numeral_3_eq_3)
  moreover have "\<not> incoming_encryption_active ?w" by (simp add: sample_connection_def)
  ultimately show ?thesis by blast
qed

theorem key_exchange_authentic_witness:
  "\<exists>w w' :: nat transport. perform_key_exchange willing_posix sample_crypto sample_ident ''f'' ''h'' w = (Inr (), w') \<and>
     (\<exists>key keys. handshake_verified sample_crypto sample_ident key keys \<and> keyed sample_crypto keys w')"
proof -
  from sample_exchange_script obtain w :: "nat transport" and sk rp keys where
    h: "honest_reply willing_posix sample_crypto sample_ident ''f'' ''h'' w sk rp keys"
    and s: "scripted sample_crypto (\<lambda>c i. of_nat (c + i)) [raw_payload sk, rp, [NEWKEYS]] [] (Suc (Suc (Suc 0))) w"
    and p: "\<not> incoming_encryption_active w" by blast
  have s': "scripted sample_crypto (\<lambda>c i. of_nat (c + i)) [raw_payload sk, rp, [NEWKEYS]]
      (wire sample_crypto (\<lambda>i. of_nat (unat (sum_list (iv_sc keys)) + i)) (incoming_sequence w + 3) (mac_key_sc keys) [] @ [])
      (Suc (Suc (Suc 0))) w" using s by simp
  have ps: "list_all sendable []" by simp
  from scripted_key_exchange [OF sample_documented h s' p ps sample_crypto_simps(4,5,4,6)]
  obtain w' where "perform_key_exchange willing_posix sample_crypto sample_ident ''f'' ''h'' w = (Inr (), w')"
    by blast
  with key_exchange_authentic [OF this] show ?thesis by blast
qed

text \<open>
  C9: Trust on first use is remembered, as long as the disk works, the last line of the file was complete and the name of the host has no
  white space. Once the host-key question has been settled for a key, and after any further calls of \<open>add\<close> on the
  file, for any hosts and algorithms without white space and whether they succeed or throw, a connection to this host with the same key
  passes without a question, and with any other key it is refused before the user is asked, leaving the file as it is.
\<close>

theorem first_use_remembered:
  assumes "disk_reliable os path" and "base64_documented lib" and "is_word host" and "closed_file path (files w)"
    and "decide_host_key os lib path host ''ssh-ed25519'' key w = (Inr (), w')"
    and "list_all (\<lambda>(h, a, k). is_word h \<and> is_word a) entries"
    and "files v = files (fold (\<lambda>(h, a, k) w. snd (add os lib path h a k w)) entries w')"
  shows "decide_host_key os lib path host ''ssh-ed25519'' key v =
      (Inr (), v\<lparr>console := console v @ [Cout (''Server host key matches known host'' @ [CHR ''\<newline>''])]\<rparr>) \<and>
    (key' = key \<or> key' = [] \<or> (\<exists>out. decide_host_key os lib path host ''ssh-ed25519'' key' v =
      (Inl (Raised (Runtime_error ''Refusing connection due to changed host key'')), v\<lparr>console := out\<rparr>)))"
proof -
  have wd: "is_word ''ssh-ed25519''" by (simp add: is_word_def is_space_def)
  note d = assms(1-3) wd assms(4,5)
  have "list_all (\<lambda>(h, e). entry_storable os lib path h e) entries"
    using assms(1,2,6) by (auto simp: list_all_iff entry_storable_def)
  from known_hosts.history_persists [OF this decide_host_key_closed [OF d], of host "(''ssh-ed25519'', key)" Match]
    decide_host_key_stored [OF d] assms(7)
  have m: "check os lib path (files v) host ''ssh-ed25519'' key = Inr Match" by (simp add: split_def)
  have "check os lib path (files v) host ''ssh-ed25519'' key' = Inr Changed" if "key' \<noteq> key" "key' \<noteq> []"
    using check_other_key [OF assms(1,2) m that] .
  then have "key' = key \<or> key' = [] \<or> (\<exists>out. decide_host_key os lib path host ''ssh-ed25519'' key' v =
      (Inl (Raised (Runtime_error ''Refusing connection due to changed host key'')), v\<lparr>console := out\<rparr>))"
    by (cases "key' = key \<or> key' = []") (auto simp: decide_host_key_def comp_simps Let_def)
  with decide_host_key_match [OF m] show ?thesis by blast
qed

theorem first_use_remembered_witness:
  "\<exists>w' v :: machine. decide_host_key willing_posix sample_crypto ''f'' ''h'' ''ssh-ed25519'' [1] (idle_machine\<lparr>cin := [''yes'']\<rparr>) = (Inr (), w') \<and>
     v = snd (add willing_posix sample_crypto ''f'' ''g'' ''ssh-ed25519'' [3] w') \<and>
     (\<exists>out. decide_host_key willing_posix sample_crypto ''f'' ''h'' ''ssh-ed25519'' [2] v =
        (Inl (Raised (Runtime_error ''Refusing connection due to changed host key'')), v\<lparr>console := out\<rparr>))"
proof -
  let ?w = "idle_machine\<lparr>cin := [''yes'']\<rparr>"
  have cl: "closed_file ''f'' (files ?w)" by (simp add: closed_file_def idle_machine_def)
  have wd: "is_word ''h''" "is_word ''g''" "is_word ''ssh-ed25519''" by (simp_all add: is_word_def is_space_def)
  obtain w' where w': "decide_host_key willing_posix sample_crypto ''f'' ''h'' ''ssh-ed25519'' [1] ?w = (Inr (), w')"
    by (simp add: decide_host_key_def add_def check_def comp_simps encode_base64_def sample_crypto_def willing_posix_def
        idle_machine_def parent_path_def Let_def)
  define v where "v = snd (add willing_posix sample_crypto ''f'' ''g'' ''ssh-ed25519'' [3] w')"
  have e: "list_all (\<lambda>(h, a, k). is_word h \<and> is_word a) [(''g'', ''ssh-ed25519'', [3 :: byte])]" using wd by simp
  have v: "files v = files (fold (\<lambda>(h, a, k) w. snd (add willing_posix sample_crypto ''f'' h a k w)) [(''g'', ''ssh-ed25519'', [3])] w')"
    by (simp add: v_def)
  from first_use_remembered [OF willing_disk_reliable sample_base64_documented wd(1) cl w' e v, of "[2]"]
  have "\<exists>out. decide_host_key willing_posix sample_crypto ''f'' ''h'' ''ssh-ed25519'' [2] v =
      (Inl (Raised (Runtime_error ''Refusing connection due to changed host key'')), v\<lparr>console := out\<rparr>)" by simp
  with w' v_def show ?thesis by blast
qed

end
