(* ===== verification/SSH_Connection.thy ===== *)
theory SSH_Connection
  imports SSH_Encoding
begin

section \<open>Connection protocol (\<open>connection/connection.cpp\<close>)\<close>

text \<open>
  The messages of one session channel. A parser takes the payload and the channel and returns the
  changed channel, which the code passes by reference; it is changed only after the last check,
  so an exception leaves it as it was. Window sizes are 32-bit words, and sizes of byte strings, which
  are 64 bits wide in the code, natural numbers. The locale \<open>credit_account\<close> is the contract of a flow-control
  window, met by the window this side grants and by the window the server grants.
\<close>

subsection \<open>Data\<close>

record Channel =
  local_id :: u32
  remote_id :: u32
  local_window :: u32
  remote_window :: u32
  local_max_packet :: u32
  remote_max_packet :: u32
  is_open :: bool
  remote_eof_received :: bool
  remote_close_received :: bool
  local_close_sent :: bool
  exit_status_received :: bool
  exit_status :: u32

record ChannelOpenFailure =
  reason_code :: u32
  description :: string
  language :: string

record GlobalRequest =
  request_name :: string
  want_reply :: bool
  request_data :: bytes

record ChannelExitStatus =
  ces_exit_status :: u32
  ces_want_reply :: bool

record ChannelExtendedData =
  data_type :: u32
  ext_data :: bytes

definition MIN_MAX_PACKET_SIZE :: u32 where "MIN_MAX_PACKET_SIZE = 32768"

text \<open>\<open>std::numeric_limits<uint32_t>::max ()\<close> as a word.\<close>

abbreviation max_u32 :: u32 where "max_u32 \<equiv> - 1"

subsection \<open>Opening\<close>

definition create_session_open :: "Channel \<Rightarrow> bytes result" where
  "create_session_open channel =
     (if is_open channel then throw ''Channel already opened''
      else if local_window channel = 0 then throw ''No channel data could be received''
      else if local_max_packet channel < MIN_MAX_PACKET_SIZE
      then throw ''No channel-data packet could be accepted''
      else bindE (append_text [CHANNEL_OPEN] ''session'') (\<lambda>payload.
        let payload = payload @ encode_uint32 (local_id channel);
            payload = payload @ encode_uint32 (local_window channel);
            payload = payload @ encode_uint32 (local_max_packet channel)
        in Inr payload))"

definition parse_open_confirmation :: "bytes \<Rightarrow> Channel \<Rightarrow> Channel result" where
  "parse_open_confirmation payload channel =
     (if is_open channel then throw ''Channel already open''
      else bindE (wrong_message payload CHANNEL_OPEN_CONFIRMATION) (\<lambda>wrong.
      if wrong then throw ''Expected SSH_MSG_CHANNEL_OPEN_CONFIRMATION''
      else bindE (read_uint32 payload 1) (\<lambda>(recipient_channel, position).
      bindE (read_uint32 payload position) (\<lambda>(sender_channel, position).
      bindE (read_uint32 payload position) (\<lambda>(window, position).
      bindE (read_uint32 payload position) (\<lambda>(max_packet, position).
      if local_id channel \<noteq> recipient_channel then throw ''Not the correct recipient channel''
      else if max_packet < MIN_MAX_PACKET_SIZE then throw ''No channel-data packet can be sent''
      else if position \<noteq> length payload then throw ''Payload contains more bytes than expected''
      else Inr (channel\<lparr>remote_id := sender_channel, remote_window := window,
                        remote_max_packet := max_packet, is_open := True\<rparr>)))))))"

definition parse_open_failure :: "bytes \<Rightarrow> Channel \<Rightarrow> ChannelOpenFailure result" where
  "parse_open_failure payload channel =
     (if is_open channel then throw ''Open failure received for an already-open channel''
      else bindE (wrong_message payload CHANNEL_OPEN_FAILURE) (\<lambda>wrong.
      if wrong then throw ''Expected SSH_MSG_CHANNEL_OPEN_FAILURE''
      else bindE (read_uint32 payload 1) (\<lambda>(recipient_channel, position).
      bindE (read_uint32 payload position) (\<lambda>(reason, position).
      bindE (read_string payload position) (\<lambda>(description_bytes, position).
      bindE (read_string payload position) (\<lambda>(language_bytes, position).
      if position \<noteq> length payload then throw ''Payload contains more bytes than expected''
      else if recipient_channel \<noteq> local_id channel then throw ''Not the correct recipient channel''
      else Inr \<lparr>reason_code = reason, description = string_of_bytes description_bytes,
                language = string_of_bytes language_bytes\<rparr>))))))"

subsection \<open>Requests\<close>

definition parse_global_request :: "bytes \<Rightarrow> GlobalRequest result" where
  "parse_global_request payload =
     (bindE (wrong_message payload GLOBAL_REQUEST) (\<lambda>wrong.
      if wrong then throw ''Expected SSH_MSG_GLOBAL_REQUEST''
      else bindE (read_string payload 1) (\<lambda>(request_name_bytes, position).
      if size_minus (length payload) position < 1 then throw ''want_reply value expected''
      else bindE (at_index payload position) (\<lambda>flag.
      let position = position + 1 in
      bindE (copy_n payload position (size_minus (length payload) position)) (\<lambda>data.
      Inr \<lparr>request_name = string_of_bytes request_name_bytes, want_reply = (flag \<noteq> 0),
           request_data = data\<rparr>)))))"

definition create_request_failure :: bytes where
  "create_request_failure = [REQUEST_FAILURE]"

definition create_exec_request :: "Channel \<Rightarrow> string \<Rightarrow> bytes result" where
  "create_exec_request channel command =
     (if is_open channel = False then throw ''Channel must be open''
      else if command = [] then throw ''Command must not be empty''
      else let payload = [CHANNEL_REQUEST] @ encode_uint32 (remote_id channel) in
        bindE (append_text payload ''exec'') (\<lambda>payload.
        append_text (payload @ [1]) command))"

definition validate_channel_success :: "bytes \<Rightarrow> Channel \<Rightarrow> unit result" where
  "validate_channel_success payload channel =
     (bindE (wrong_message payload CHANNEL_SUCCESS) (\<lambda>wrong.
      if wrong then throw ''Expected SSH_MSG_CHANNEL_SUCCESS''
      else bindE (read_uint32 payload 1) (\<lambda>(recipient_channel, position).
      if recipient_channel \<noteq> local_id channel then throw ''Channel ids did not match''
      else if position \<noteq> length payload then throw ''Payload contains more bytes than expected''
      else Inr ())))"

definition validate_channel_failure :: "bytes \<Rightarrow> Channel \<Rightarrow> unit result" where
  "validate_channel_failure payload channel =
     (bindE (wrong_message payload CHANNEL_FAILURE) (\<lambda>wrong.
      if wrong then throw ''Expected SSH_MSG_CHANNEL_FAILURE''
      else bindE (read_uint32 payload 1) (\<lambda>(recipient_channel, position).
      if recipient_channel \<noteq> local_id channel then throw ''Channel ids did not match''
      else if position \<noteq> length payload then throw ''Payload contains more bytes than expected''
      else Inr ())))"

definition create_pty_request :: "Channel \<Rightarrow> string \<Rightarrow> u32 \<Rightarrow> u32 \<Rightarrow> bytes result" where
  "create_pty_request channel terminal_type columns rows =
     (if \<not> is_open channel then throw ''Channel already closed''
      else if terminal_type = [] then throw ''Must provide a non-empty terminal_type''
      else if columns = 0 \<or> rows = 0 then throw ''Columns and rows must be non-zero values''
      else let payload = [CHANNEL_REQUEST] @ encode_uint32 (remote_id channel) in
        bindE (append_text payload ''pty-req'') (\<lambda>payload.
        bindE (append_text (payload @ [1]) terminal_type) (\<lambda>payload.
        let payload = payload @ encode_uint32 columns;
            payload = payload @ encode_uint32 rows;
            payload = payload @ encode_uint32 0;
            payload = payload @ encode_uint32 0
        in append_string payload [0])))"

definition create_shell_request :: "Channel \<Rightarrow> bytes result" where
  "create_shell_request channel =
     (if \<not> is_open channel then throw ''Channel is already closed''
      else let payload = [CHANNEL_REQUEST] @ encode_uint32 (remote_id channel) in
        bindE (append_text payload ''shell'') (\<lambda>payload. Inr (payload @ [1])))"

subsection \<open>Data and windows\<close>

definition parse_window_adjust :: "bytes \<Rightarrow> Channel \<Rightarrow> Channel result" where
  "parse_window_adjust payload channel =
     (if \<not> is_open channel then throw ''Window adjustment received for a closed channel''
      else bindE (wrong_message payload CHANNEL_WINDOW_ADJUST) (\<lambda>wrong.
      if wrong then throw ''Expected SSH_MSG_CHANNEL_WINDOW_ADJUST''
      else bindE (read_uint32 payload 1) (\<lambda>(recipient_channel, position).
      bindE (read_uint32 payload position) (\<lambda>(bytes_to_add, position).
      if recipient_channel \<noteq> local_id channel then throw ''Channel ids did not match''
      else if position \<noteq> length payload then throw ''Payload contains more bytes than expected''
      else if bytes_to_add = 0 then throw ''Channel window adjustment must be greater than zero''
      else if remote_window channel > max_u32 - bytes_to_add then throw ''Remote channel window overflow''
      else Inr (channel\<lparr>remote_window := remote_window channel + bytes_to_add\<rparr>)))))"

definition parse_channel_data :: "bytes \<Rightarrow> Channel \<Rightarrow> (bytes \<times> Channel) result" where
  "parse_channel_data payload channel =
     (if \<not> is_open channel then throw ''Channel data received for a closed channel''
      else bindE (wrong_message payload CHANNEL_DATA) (\<lambda>wrong.
      if wrong then throw ''Expected SSH_MSG_CHANNEL_DATA''
      else bindE (read_uint32 payload 1) (\<lambda>(recipient_channel, position).
      if recipient_channel \<noteq> local_id channel then throw ''Channel ids did not match''
      else bindE (read_string payload position) (\<lambda>(data_bytes, position).
      if position \<noteq> length payload then throw ''Payload contains more bytes than expected''
      else if length data_bytes > unat (local_max_packet channel)
      then throw ''Channel data exceeds local maximum packet size''
      else if length data_bytes > unat (local_window channel)
      then throw ''Data received exceeds maximum allowed size''
      else Inr (data_bytes,
        channel\<lparr>local_window := local_window channel - of_nat (length data_bytes)\<rparr>)))))"

definition parse_channel_extended_data :: "bytes \<Rightarrow> Channel \<Rightarrow> (ChannelExtendedData \<times> Channel) result" where
  "parse_channel_extended_data payload channel =
     (if \<not> is_open channel then throw ''Extended data received for a closed channel''
      else bindE (wrong_message payload CHANNEL_EXTENDED_DATA) (\<lambda>wrong.
      if wrong then throw ''Expected SSH_MSG_EXTENDED_DATA''
      else bindE (read_uint32 payload 1) (\<lambda>(recipient_channel, position).
      if recipient_channel \<noteq> local_id channel then throw ''Channel ids did not match''
      else bindE (read_uint32 payload position) (\<lambda>(data_type_code, position).
      if data_type_code \<noteq> 1 then throw ''Unexpected data type code received''
      else bindE (read_string payload position) (\<lambda>(data, position).
      if position \<noteq> length payload then throw ''Payload contains more bytes than expected''
      else if length data > unat (local_max_packet channel)
      then throw ''Channel data exceeds local maximum packet size''
      else if length data > unat (local_window channel)
      then throw ''Data received exceeds maximum allowed size''
      else Inr (\<lparr>data_type = data_type_code, ext_data = data\<rparr>,
        channel\<lparr>local_window := local_window channel - of_nat (length data)\<rparr>))))))"

definition create_window_adjust :: "Channel \<Rightarrow> u32 \<Rightarrow> bytes result" where
  "create_window_adjust channel bytes_to_add =
     (if \<not> is_open channel then throw ''Channel already closed''
      else if bytes_to_add = 0 then throw ''Must add a positive number of bytes''
      else let payload = [CHANNEL_WINDOW_ADJUST] @ encode_uint32 (remote_id channel) in
        if local_window channel > max_u32 - bytes_to_add then throw ''Local channel window overflow''
        else Inr (payload @ encode_uint32 bytes_to_add))"

definition create_channel_data :: "Channel \<Rightarrow> bytes \<Rightarrow> bytes result" where
  "create_channel_data channel data =
     (if \<not> is_open channel then throw ''Channel is already closed''
      else if local_close_sent channel then throw ''Request to close channel sent''
      else if data = [] then throw ''No data to be sent''
      else if length data > unat (remote_window channel) then throw ''Remote channel doesn't have enough capacity''
      else if length data > unat (remote_max_packet channel) then throw ''Packet is too large to be sent''
      else append_string ([CHANNEL_DATA] @ encode_uint32 (remote_id channel)) data)"

subsection \<open>End of the channel\<close>

definition parse_channel_eof :: "bytes \<Rightarrow> Channel \<Rightarrow> Channel result" where
  "parse_channel_eof payload channel =
     (if \<not> is_open channel then throw ''Channel data received for a closed channel''
      else if remote_eof_received channel then throw ''EOF already received''
      else bindE (wrong_message payload CHANNEL_EOF) (\<lambda>wrong.
      if wrong then throw ''Expected SSH_MSG_CHANNEL_EOF''
      else bindE (read_uint32 payload 1) (\<lambda>(recipient_channel, position).
      if recipient_channel \<noteq> local_id channel then throw ''Channel ids did not match''
      else if position \<noteq> length payload then throw ''No more bytes were expected''
      else Inr (channel\<lparr>remote_eof_received := True\<rparr>))))"

definition parse_exit_status :: "bytes \<Rightarrow> Channel \<Rightarrow> (ChannelExitStatus \<times> Channel) result" where
  "parse_exit_status payload channel =
     (if \<not> is_open channel then throw ''Exit status received for a closed channel''
      else if exit_status_received channel then throw ''Exit status already received''
      else bindE (wrong_message payload CHANNEL_REQUEST) (\<lambda>wrong.
      if wrong then throw ''Expected SSH_MSG_CHANNEL_REQUEST''
      else bindE (read_uint32 payload 1) (\<lambda>(recipient_channel, position).
      if recipient_channel \<noteq> local_id channel then throw ''Channel ids did not match''
      else bindE (read_string payload position) (\<lambda>(request_name_bytes, position).
      if string_of_bytes request_name_bytes \<noteq> ''exit-status'' then throw ''Expected exit-status request''
      else if size_minus (length payload) position < 1 then throw ''want_reply value expected''
      else bindE (at_index payload position) (\<lambda>flag.
      let position = position + 1 in
      bindE (read_uint32 payload position) (\<lambda>(status, position).
      if position \<noteq> length payload then throw ''Payload contains more bytes than expected''
      else Inr (\<lparr>ces_exit_status = status, ces_want_reply = (flag \<noteq> 0)\<rparr>,
        channel\<lparr>exit_status := status, exit_status_received := True\<rparr>)))))))"

definition parse_channel_close :: "bytes \<Rightarrow> Channel \<Rightarrow> Channel result" where
  "parse_channel_close payload channel =
     (if \<not> is_open channel then throw ''Close request received for a closed channel''
      else if remote_close_received channel then throw ''Channel close already received''
      else bindE (wrong_message payload CHANNEL_CLOSE) (\<lambda>wrong.
      if wrong then throw ''Expected SSH_MSG_CHANNEL_CLOSE''
      else bindE (read_uint32 payload 1) (\<lambda>(recipient_channel, position).
      if recipient_channel \<noteq> local_id channel then throw ''Channel ids did not match''
      else if position \<noteq> length payload then throw ''Payload contains more bytes than expected''
      else Inr (channel\<lparr>remote_close_received := True\<rparr>))))"

definition create_channel_close :: "Channel \<Rightarrow> bytes result" where
  "create_channel_close channel =
     (if \<not> is_open channel then throw ''Channel already closed''
      else if local_close_sent channel then throw ''SSH_MSG_CHANNEL_CLOSE already been sent''
      else Inr ([CHANNEL_CLOSE] @ encode_uint32 (remote_id channel)))"

subsection \<open>Memory safety\<close>

lemma safe_connection [simp]:
  "safe (create_session_open ch)" "safe (parse_open_confirmation p ch)" "safe (parse_open_failure p ch)"
  "safe (parse_global_request p)" "safe (create_exec_request ch cmd)" "safe (validate_channel_success p ch)"
  "safe (validate_channel_failure p ch)" "safe (create_pty_request ch ty c r)" "safe (create_shell_request ch)"
  "safe (parse_window_adjust p ch)" "safe (parse_channel_data p ch)" "safe (parse_channel_extended_data p ch)"
  "safe (create_window_adjust ch n)" "safe (create_channel_data ch d)" "safe (parse_channel_eof p ch)"
  "safe (parse_exit_status p ch)" "safe (parse_channel_close p ch)" "safe (create_channel_close ch)"
  unfolding create_session_open_def parse_open_confirmation_def parse_open_failure_def parse_global_request_def
    create_exec_request_def validate_channel_success_def validate_channel_failure_def create_pty_request_def
    create_shell_request_def parse_window_adjust_def parse_channel_data_def parse_channel_extended_data_def
    create_window_adjust_def create_channel_data_def parse_channel_eof_def parse_exit_status_def
    parse_channel_close_def create_channel_close_def Let_def
  by (auto intro!: safe_bindE simp: codec_iff split: prod.splits)

subsection \<open>Inversion of the parsers\<close>

lemma take_drop_iff: "length a = n \<Longrightarrow> take n p = a \<and> drop n p = b \<longleftrightarrow> p = a @ b"
  by (metis append_eq_conv_conj append_take_drop_id)

lemma id_message:
  "bindE (wrong_message p m) (\<lambda>wrong. if wrong then throw e else bindE (read_uint32 p 1) (\<lambda>(x, pos). f x pos)) = Inr y \<longleftrightarrow>
     (\<exists>x. take 5 p = m # encode_uint32 x \<and> f x 5 = Inr y)"
proof (cases p)
  case Nil
  then show ?thesis by simp
next
  case (Cons b bs)
  have "read_uint32 p 1 = Inr (x, pos) \<longleftrightarrow> pos = 5 \<and> take 4 bs = encode_uint32 x" for x pos
  proof -
    have "read_uint32 p 1 = Inr (x, pos) \<longleftrightarrow> pos = 5 \<and> 5 \<le> length p \<and> drop 1 p = encode_uint32 x @ drop 5 p"
      by (auto simp: uint32_codec.get_iff)
    also have "\<dots> \<longleftrightarrow> pos = 5 \<and> 4 \<le> length bs \<and> bs = encode_uint32 x @ drop 4 bs" by (simp add: Cons)
    also have "\<dots> \<longleftrightarrow> pos = 5 \<and> take 4 bs = encode_uint32 x"
      by (metis append_eq_conv_conj append_take_drop_id length_encode_uint32 length_take min.cobounded1)
    finally show ?thesis .
  qed
  moreover have "take 5 p = b # take 4 bs" by (simp add: Cons)
  ultimately show ?thesis by (auto simp: Cons result_iff)
qed

lemma uint32_last: "read_uint32 p pos = Inr (x, length p) \<longleftrightarrow> drop pos p = encode_uint32 x"
proof
  assume "read_uint32 p pos = Inr (x, length p)"
  from uint32_codec.get_field [OF this] show "drop pos p = encode_uint32 x" by simp
next
  assume d: "drop pos p = encode_uint32 x"
  then have "length p - pos = 4" by (metis length_drop length_encode_uint32)
  then have "length p = pos + 4" by simp
  with d show "read_uint32 p pos = Inr (x, length p)" using uint32_codec.get_complete [of pos p x "[]"] by simp
qed

lemma string_last: "read_string p pos = Inr (x, length p) \<longleftrightarrow> string_fits x \<and> drop pos p = ssh_string x"
proof
  assume "read_string p pos = Inr (x, length p)"
  from string_codec.get_field [OF this] show "string_fits x \<and> drop pos p = ssh_string x" by simp
next
  assume d: "string_fits x \<and> drop pos p = ssh_string x"
  then have "length p - pos = 4 + length x" by (metis length_drop length_ssh_string)
  then have "length p = pos + (4 + length x)" by simp
  with d show "read_string p pos = Inr (x, length p)" using string_codec.get_complete [of x pos p "[]"] by simp
qed

lemma id_then: "take 5 p = m # encode_uint32 x \<and> drop 5 p = b \<longleftrightarrow> p = m # encode_uint32 x @ b"
  using take_drop_iff [of "m # encode_uint32 x" 5 p b] by simp

lemma id_only: "take 5 p = m # encode_uint32 x \<and> 5 = length p \<longleftrightarrow> p = m # encode_uint32 x"
  by auto

lemma id_parser:
  "(\<exists>x. take 5 p = m # encode_uint32 x \<and> (if x \<noteq> i then throw e else r) = Inr y) \<longleftrightarrow>
     take 5 p = m # encode_uint32 i \<and> r = Inr y"
  by auto

lemma id_parser_end:
  "take 5 p = m # encode_uint32 i \<and> (if 5 \<noteq> length p then throw e else r) = Inr y \<longleftrightarrow>
     p = m # encode_uint32 i \<and> r = Inr y"
  using id_only [of p m i] by auto

lemma validate_channel_reply_eq [result_iff]:
  "validate_channel_success p ch = Inr u \<longleftrightarrow> p = CHANNEL_SUCCESS # encode_uint32 (local_id ch)"
  "validate_channel_failure p ch = Inr u \<longleftrightarrow> p = CHANNEL_FAILURE # encode_uint32 (local_id ch)"
  unfolding validate_channel_success_def validate_channel_failure_def id_message id_parser id_parser_end
  by simp_all

lemma parse_channel_eof_eq [result_iff]:
  "parse_channel_eof p ch = Inr ch' \<longleftrightarrow> is_open ch \<and> \<not> remote_eof_received ch \<and>
     p = CHANNEL_EOF # encode_uint32 (local_id ch) \<and> ch' = ch\<lparr>remote_eof_received := True\<rparr>"
proof (cases "is_open ch \<and> \<not> remote_eof_received ch")
  case True
  then show ?thesis
    by (simp only: parse_channel_eof_def not_True_eq_False if_False id_message id_parser id_parser_end) auto
qed (auto simp: parse_channel_eof_def)

lemma parse_channel_close_eq [result_iff]:
  "parse_channel_close p ch = Inr ch' \<longleftrightarrow> is_open ch \<and> \<not> remote_close_received ch \<and>
     p = CHANNEL_CLOSE # encode_uint32 (local_id ch) \<and> ch' = ch\<lparr>remote_close_received := True\<rparr>"
proof (cases "is_open ch \<and> \<not> remote_close_received ch")
  case True
  then show ?thesis
    by (simp only: parse_channel_close_def not_True_eq_False if_False id_message id_parser id_parser_end) auto
qed (auto simp: parse_channel_close_def)

lemma string_parser_end:
  "bindE (read_string p pos) (\<lambda>(d, pos'). if pos' \<noteq> length p then throw e else f d) = Inr y \<longleftrightarrow>
     (\<exists>d. string_fits d \<and> drop pos p = ssh_string d \<and> f d = Inr y)"
  unfolding bindE_eq_Inr
  by (auto simp: string_last)

lemma parse_channel_data_eq [result_iff]:
  "parse_channel_data p ch = Inr (d, ch') \<longleftrightarrow> is_open ch \<and> string_fits d \<and>
     p = CHANNEL_DATA # encode_uint32 (local_id ch) @ ssh_string d \<and>
     length d \<le> unat (local_max_packet ch) \<and> length d \<le> unat (local_window ch) \<and>
     ch' = ch\<lparr>local_window := local_window ch - of_nat (length d)\<rparr>"
proof (cases "is_open ch")
  case True
  then have "parse_channel_data p ch = Inr (d, ch') \<longleftrightarrow> take 5 p = CHANNEL_DATA # encode_uint32 (local_id ch) \<and>
      (\<exists>d'. string_fits d' \<and> drop 5 p = ssh_string d' \<and> length d' \<le> unat (local_max_packet ch) \<and>
        length d' \<le> unat (local_window ch) \<and> d' = d \<and>
        ch' = ch\<lparr>local_window := local_window ch - of_nat (length d)\<rparr>)"
    by (simp only: parse_channel_data_def not_True_eq_False if_False id_message id_parser string_parser_end,
        simp only: if_throw_eq_Inr not_less sum.inject prod.inject) auto
  with True id_then [of p CHANNEL_DATA "local_id ch" "ssh_string d"] show ?thesis by blast
qed (auto simp: parse_channel_data_def)

lemma uint32_step:
  "bindE (read_uint32 p pos) (\<lambda>(x, pos'). f x pos') = Inr y \<longleftrightarrow>
     (\<exists>x. pos + 4 \<le> length p \<and> take 4 (drop pos p) = encode_uint32 x \<and> f x (pos + 4) = Inr y)"
proof -
  have "read_uint32 p pos = Inr (x, pos') \<longleftrightarrow> pos' = pos + 4 \<and> pos + 4 \<le> length p \<and> take 4 (drop pos p) = encode_uint32 x"
    for x pos'
  proof -
    have "drop pos p = encode_uint32 x @ drop (pos + 4) p \<longleftrightarrow> take 4 (drop pos p) = encode_uint32 x" if "pos + 4 \<le> length p"
      using append_take_drop_id [of 4 "drop pos p"] that by (auto simp: add.commute) 
    then show ?thesis by (auto simp: uint32_codec.get_iff)
  qed
  then show ?thesis by (auto simp: bindE_eq_Inr)
qed

lemma extended_data_parser:
  "bindE (read_uint32 p 5) (\<lambda>(c, pos). if c \<noteq> k then throw e else bindE (read_string p pos) (\<lambda>(d, pos').
      if pos' \<noteq> length p then throw e' else f c d)) = Inr y \<longleftrightarrow>
   (\<exists>d. string_fits d \<and> drop 5 p = encode_uint32 k @ ssh_string d \<and> f k d = Inr y)"
proof -
  have A: "drop 5 p = encode_uint32 k @ b \<longleftrightarrow> 9 \<le> length p \<and> take 4 (drop 5 p) = encode_uint32 k \<and> drop 9 p = b" for b
  proof -
    have "drop 4 (drop 5 p) = drop 9 p" by simp
    moreover have "9 \<le> length p" if "drop 5 p = encode_uint32 k @ b" using arg_cong [OF that, of length] by simp
    ultimately show ?thesis using take_drop_iff [of "encode_uint32 k" 4 "drop 5 p" b] by auto
  qed
  show ?thesis unfolding A uint32_step if_throw_eq_Inr string_parser_end by (simp, blast)
qed

lemma parse_channel_extended_data_eq [result_iff]:
  "parse_channel_extended_data p ch = Inr (x, ch') \<longleftrightarrow> is_open ch \<and> string_fits (ext_data x) \<and> data_type x = 1 \<and>
     p = CHANNEL_EXTENDED_DATA # encode_uint32 (local_id ch) @ encode_uint32 1 @ ssh_string (ext_data x) \<and>
     length (ext_data x) \<le> unat (local_max_packet ch) \<and> length (ext_data x) \<le> unat (local_window ch) \<and>
     ch' = ch\<lparr>local_window := local_window ch - of_nat (length (ext_data x))\<rparr>"
proof (cases "is_open ch")
  case True
  then have "parse_channel_extended_data p ch = Inr (x, ch') \<longleftrightarrow>
      take 5 p = CHANNEL_EXTENDED_DATA # encode_uint32 (local_id ch) \<and>
      (\<exists>d'. string_fits d' \<and> drop 5 p = encode_uint32 1 @ ssh_string d' \<and> length d' \<le> unat (local_max_packet ch) \<and>
        length d' \<le> unat (local_window ch) \<and> x = \<lparr>data_type = 1, ext_data = d'\<rparr> \<and>
        ch' = ch\<lparr>local_window := local_window ch - of_nat (length d')\<rparr>)"
    by (simp only: parse_channel_extended_data_def not_True_eq_False if_False id_message id_parser extended_data_parser,
        simp only: if_throw_eq_Inr not_less sum.inject prod.inject) auto
  with True show ?thesis by (cases x) (auto simp: id_then [symmetric] simp del: id_then)
qed (auto simp: parse_channel_extended_data_def)

lemma window_room: "(a :: u32) \<le> max_u32 - b \<longleftrightarrow> unat a + unat b \<le> uint32_max"
proof -
  have "b \<le> max_u32" by simp
  then have "unat (max_u32 - b) = uint32_max - unat b"
    using unat_sub [of b max_u32] by (simp add: uint32_max_def unsigned_minus_1_eq_mask mask_eq_exp_minus_1)
  moreover have "unat b \<le> uint32_max" using unat_u32_less [of b] by (simp add: uint32_max_def)
  ultimately show ?thesis by (auto simp: word_le_nat_alt)
qed

lemma two_ids: "take 5 p = m # encode_uint32 i \<and> take 4 (drop 5 p) = encode_uint32 n \<and> 9 = length p \<longleftrightarrow>
    p = m # encode_uint32 i @ encode_uint32 n"
  using id_then [of p m i "encode_uint32 n"] by auto

lemma parse_window_adjust_eq [result_iff]:
  "parse_window_adjust p ch = Inr ch' \<longleftrightarrow> is_open ch \<and>
     (\<exists>n. p = CHANNEL_WINDOW_ADJUST # encode_uint32 (local_id ch) @ encode_uint32 n \<and> n \<noteq> 0 \<and>
        unat (remote_window ch) + unat n \<le> uint32_max \<and> ch' = ch\<lparr>remote_window := remote_window ch + n\<rparr>)"
proof (cases "is_open ch")
  case True
  then have "parse_window_adjust p ch = Inr ch' \<longleftrightarrow> (\<exists>n. (take 5 p = CHANNEL_WINDOW_ADJUST # encode_uint32 (local_id ch) \<and>
      take 4 (drop 5 p) = encode_uint32 n \<and> 9 = length p) \<and> n \<noteq> 0 \<and>
        unat (remote_window ch) + unat n \<le> uint32_max \<and> ch' = ch\<lparr>remote_window := remote_window ch + n\<rparr>)"
    by (simp only: parse_window_adjust_def not_True_eq_False if_False id_message uint32_step,
        simp only: if_throw_eq_Inr not_less window_room) auto
  with True show ?thesis unfolding two_ids by simp
qed (auto simp: parse_window_adjust_def)

lemma parse_open_confirmation_Inr:
  assumes "parse_open_confirmation p ch = Inr ch'"
  shows "\<not> is_open ch \<and> is_open ch' \<and> MIN_MAX_PACKET_SIZE \<le> remote_max_packet ch' \<and>
    ch' = ch\<lparr>remote_id := remote_id ch', remote_window := remote_window ch',
             remote_max_packet := remote_max_packet ch', is_open := True\<rparr> \<and>
    p = CHANNEL_OPEN_CONFIRMATION # encode_uint32 (local_id ch) @ encode_uint32 (remote_id ch') @
      encode_uint32 (remote_window ch') @ encode_uint32 (remote_max_packet ch')"
proof -
  from assms have o: "\<not> is_open ch" by (auto simp: parse_open_confirmation_def)
  with assms obtain i j k where
    r: "read_uint32 p 1 = Inr (local_id ch, i)" "read_uint32 p i = Inr (remote_id ch', j)"
      "read_uint32 p j = Inr (remote_window ch', k)" "read_uint32 p k = Inr (remote_max_packet ch', length p)"
    and m: "p \<noteq> []" "p ! 0 = CHANNEL_OPEN_CONFIRMATION" "MIN_MAX_PACKET_SIZE \<le> remote_max_packet ch'"
    and ch': "ch' = ch\<lparr>remote_id := remote_id ch', remote_window := remote_window ch',
             remote_max_packet := remote_max_packet ch', is_open := True\<rparr>"
    by (clarsimp simp: parse_open_confirmation_def result_iff not_less split: prod.splits)
  from r [THEN uint32_codec.get_field] have "drop 1 p = encode_uint32 (local_id ch) @ encode_uint32 (remote_id ch') @
      encode_uint32 (remote_window ch') @ encode_uint32 (remote_max_packet ch')" by simp
  with message_payload [OF m(1,2)] have "p = CHANNEL_OPEN_CONFIRMATION # encode_uint32 (local_id ch) @ encode_uint32 (remote_id ch') @
      encode_uint32 (remote_window ch') @ encode_uint32 (remote_max_packet ch')" by simp
  moreover from ch' have "is_open ch'" by (metis Channel.select_convs(7) Channel.surjective Channel.update_convs(7))
  ultimately show ?thesis using o m(3) ch' by blast
qed

lemma parse_open_confirmation_eq:
  "parse_open_confirmation p ch = Inr ch' \<longleftrightarrow> \<not> is_open ch \<and>
     (\<exists>sender window packet. MIN_MAX_PACKET_SIZE \<le> packet \<and>
        p = CHANNEL_OPEN_CONFIRMATION # encode_uint32 (local_id ch) @ encode_uint32 sender @
          encode_uint32 window @ encode_uint32 packet \<and>
        ch' = ch\<lparr>remote_id := sender, remote_window := window, remote_max_packet := packet, is_open := True\<rparr>)"
proof
  assume "parse_open_confirmation p ch = Inr ch'"
  from parse_open_confirmation_Inr [OF this] show "\<not> is_open ch \<and>
     (\<exists>sender window packet. MIN_MAX_PACKET_SIZE \<le> packet \<and>
        p = CHANNEL_OPEN_CONFIRMATION # encode_uint32 (local_id ch) @ encode_uint32 sender @
          encode_uint32 window @ encode_uint32 packet \<and>
        ch' = ch\<lparr>remote_id := sender, remote_window := window, remote_max_packet := packet, is_open := True\<rparr>)" by blast
next
  assume "\<not> is_open ch \<and>
     (\<exists>sender window packet. MIN_MAX_PACKET_SIZE \<le> packet \<and>
        p = CHANNEL_OPEN_CONFIRMATION # encode_uint32 (local_id ch) @ encode_uint32 sender @
          encode_uint32 window @ encode_uint32 packet \<and>
        ch' = ch\<lparr>remote_id := sender, remote_window := window, remote_max_packet := packet, is_open := True\<rparr>)"
  then obtain sender window packet where o: "\<not> is_open ch" "MIN_MAX_PACKET_SIZE \<le> packet"
    and p: "p = CHANNEL_OPEN_CONFIRMATION # encode_uint32 (local_id ch) @ encode_uint32 sender @
          encode_uint32 window @ encode_uint32 packet"
    and ch': "ch' = ch\<lparr>remote_id := sender, remote_window := window, remote_max_packet := packet, is_open := True\<rparr>"
    by blast
  have d: "drop 1 p = encode_uint32 (local_id ch) @ encode_uint32 sender @ encode_uint32 window @ encode_uint32 packet @ []"
    by (simp add: p)
  note s1 = uint32_codec.get_step [OF TrueI d]
  note s2 = uint32_codec.get_step [OF TrueI s1 [THEN conjunct2]]
  note s3 = uint32_codec.get_step [OF TrueI s2 [THEN conjunct2]]
  note s4 = uint32_codec.get_step [OF TrueI s3 [THEN conjunct2]]
  have "length p = 17" "p ! 0 = CHANNEL_OPEN_CONFIRMATION" "p \<noteq> []" by (simp_all add: p)
  with o ch' s1 s2 s3 s4 show "parse_open_confirmation p ch = Inr ch'"
    unfolding parse_open_confirmation_def by (simp add: not_less [symmetric])
qed

lemma create_messages_eq [result_iff]:
  "create_window_adjust ch n = Inr p \<longleftrightarrow> is_open ch \<and> n \<noteq> 0 \<and> unat (local_window ch) + unat n \<le> uint32_max \<and>
     p = CHANNEL_WINDOW_ADJUST # encode_uint32 (remote_id ch) @ encode_uint32 n"
  "create_channel_data ch d = Inr p \<longleftrightarrow> is_open ch \<and> \<not> local_close_sent ch \<and> d \<noteq> [] \<and>
     length d \<le> unat (remote_window ch) \<and> length d \<le> unat (remote_max_packet ch) \<and>
     p = CHANNEL_DATA # encode_uint32 (remote_id ch) @ ssh_string d"
  "create_channel_close ch = Inr p \<longleftrightarrow> is_open ch \<and> \<not> local_close_sent ch \<and>
     p = CHANNEL_CLOSE # encode_uint32 (remote_id ch)"
proof -
  show "create_window_adjust ch n = Inr p \<longleftrightarrow> is_open ch \<and> n \<noteq> 0 \<and> unat (local_window ch) + unat n \<le> uint32_max \<and>
     p = CHANNEL_WINDOW_ADJUST # encode_uint32 (remote_id ch) @ encode_uint32 n"
    by (auto simp: create_window_adjust_def Let_def window_room [symmetric] not_less simp del: window_room)
  have "string_fits d" if "length d \<le> unat (remote_window ch)"
    using that unat_u32_less [of "remote_window ch"] by (simp add: string_fits_def uint32_max_def)
  then show "create_channel_data ch d = Inr p \<longleftrightarrow> is_open ch \<and> \<not> local_close_sent ch \<and> d \<noteq> [] \<and>
     length d \<le> unat (remote_window ch) \<and> length d \<le> unat (remote_max_packet ch) \<and>
     p = CHANNEL_DATA # encode_uint32 (remote_id ch) @ ssh_string d"
    by (auto simp: create_channel_data_def append_string_eq)
  show "create_channel_close ch = Inr p \<longleftrightarrow> is_open ch \<and> \<not> local_close_sent ch \<and>
     p = CHANNEL_CLOSE # encode_uint32 (remote_id ch)"
    by (auto simp: create_channel_close_def)
qed

lemma create_requests_eq [result_iff]:
  "create_session_open ch = Inr p \<longleftrightarrow> \<not> is_open ch \<and> local_window ch \<noteq> 0 \<and> MIN_MAX_PACKET_SIZE \<le> local_max_packet ch \<and>
     p = CHANNEL_OPEN # text_field ''session'' @ encode_uint32 (local_id ch) @ encode_uint32 (local_window ch) @
       encode_uint32 (local_max_packet ch)"
  "create_exec_request ch cmd = Inr p \<longleftrightarrow> is_open ch \<and> cmd \<noteq> [] \<and> length cmd \<le> uint32_max \<and>
     p = CHANNEL_REQUEST # encode_uint32 (remote_id ch) @ text_field ''exec'' @ 1 # text_field cmd"
  "create_pty_request ch ty c r = Inr p \<longleftrightarrow> is_open ch \<and> ty \<noteq> [] \<and> c \<noteq> 0 \<and> r \<noteq> 0 \<and> length ty \<le> uint32_max \<and>
     p = CHANNEL_REQUEST # encode_uint32 (remote_id ch) @ text_field ''pty-req'' @ 1 # text_field ty @
       encode_uint32 c @ encode_uint32 r @ encode_uint32 0 @ encode_uint32 0 @ ssh_string [0]"
  "create_shell_request ch = Inr p \<longleftrightarrow> is_open ch \<and>
     p = CHANNEL_REQUEST # encode_uint32 (remote_id ch) @ text_field ''shell'' @ [1]"
proof -
  have one: "string_fits [0]" by (simp add: string_fits_def uint32_max_def)
  have t: "string_fits (bytes_of_string s) \<longleftrightarrow> length s \<le> uint32_max" for s by (simp add: string_fits_def)
  show "create_session_open ch = Inr p \<longleftrightarrow> \<not> is_open ch \<and> local_window ch \<noteq> 0 \<and> MIN_MAX_PACKET_SIZE \<le> local_max_packet ch \<and>
     p = CHANNEL_OPEN # text_field ''session'' @ encode_uint32 (local_id ch) @ encode_uint32 (local_window ch) @
       encode_uint32 (local_max_packet ch)"
    by (auto simp: create_session_open_def append_text_fits short_text_fits text_field_def Let_def)
  show "create_exec_request ch cmd = Inr p \<longleftrightarrow> is_open ch \<and> cmd \<noteq> [] \<and> length cmd \<le> uint32_max \<and>
     p = CHANNEL_REQUEST # encode_uint32 (remote_id ch) @ text_field ''exec'' @ 1 # text_field cmd"
    by (auto simp: create_exec_request_def append_text_fits [OF short_text_fits] append_text_eq t text_field_def Let_def)
  show "create_pty_request ch ty c r = Inr p \<longleftrightarrow> is_open ch \<and> ty \<noteq> [] \<and> c \<noteq> 0 \<and> r \<noteq> 0 \<and> length ty \<le> uint32_max \<and>
     p = CHANNEL_REQUEST # encode_uint32 (remote_id ch) @ text_field ''pty-req'' @ 1 # text_field ty @
       encode_uint32 c @ encode_uint32 r @ encode_uint32 0 @ encode_uint32 0 @ ssh_string [0]"
    by (auto simp: create_pty_request_def append_text_fits [OF short_text_fits] result_iff t one text_field_def Let_def)
  show "create_shell_request ch = Inr p \<longleftrightarrow> is_open ch \<and>
     p = CHANNEL_REQUEST # encode_uint32 (remote_id ch) @ text_field ''shell'' @ [1]"
    by (auto simp: create_shell_request_def append_text_fits short_text_fits text_field_def Let_def)
qed

lemma parse_global_request_eq [result_iff]:
  "parse_global_request p = Inr g \<longleftrightarrow> length (request_name g) \<le> uint32_max \<and>
     (\<exists>flag. want_reply g = (flag \<noteq> 0) \<and> p = GLOBAL_REQUEST # text_field (request_name g) @ flag # request_data g)"
proof
  assume "parse_global_request p = Inr g"
  then obtain b pos where m: "p \<noteq> []" "p ! 0 = GLOBAL_REQUEST" and r: "read_string p 1 = Inr (b, pos)"
    and pos: "pos < length p"
    and g: "g = \<lparr>request_name = string_of_bytes b, want_reply = (p ! pos \<noteq> 0), request_data = drop (Suc pos) p\<rparr>"
    by (auto simp: parse_global_request_def result_iff Let_def split: prod.splits)
  have d: "string_fits b" "drop 1 p = ssh_string b @ drop pos p" using string_codec.get_field [OF r] by auto
  with message_payload [OF m] pos have "p = GLOBAL_REQUEST # ssh_string b @ p ! pos # drop (Suc pos) p"
    by (simp add: Cons_nth_drop_Suc)
  with d(1) show "length (request_name g) \<le> uint32_max \<and>
     (\<exists>flag. want_reply g = (flag \<noteq> 0) \<and> p = GLOBAL_REQUEST # text_field (request_name g) @ flag # request_data g)"
    by (auto simp: g text_field_def string_fits_def)
next
  assume "length (request_name g) \<le> uint32_max \<and>
     (\<exists>flag. want_reply g = (flag \<noteq> 0) \<and> p = GLOBAL_REQUEST # text_field (request_name g) @ flag # request_data g)"
  then obtain flag where fits: "length (request_name g) \<le> uint32_max" and flag: "want_reply g = (flag \<noteq> 0)"
    and p: "p = GLOBAL_REQUEST # text_field (request_name g) @ flag # request_data g" by blast
  define b where "b = bytes_of_string (request_name g)"
  define pos where "pos = 1 + length (ssh_string b)"
  have "string_fits b" using fits by (simp add: b_def string_fits_def)
  moreover have "drop 1 p = ssh_string b @ flag # request_data g" by (simp add: p text_field_def b_def)
  ultimately have r: "read_string p 1 = Inr (b, pos)" and d: "drop pos p = flag # request_data g"
    unfolding pos_def by (blast dest: string_codec.get_step)+
  have "pos < length p" "p ! 0 = GLOBAL_REQUEST" "p \<noteq> []" by (simp_all add: p text_field_def b_def pos_def)
  moreover from this(1) d have "p ! pos = flag" "drop (Suc pos) p = request_data g"
    using Cons_nth_drop_Suc [of pos p] by simp_all
  ultimately have "p ! pos = flag" "drop (Suc pos) p = request_data g" "pos < length p" "p ! 0 = GLOBAL_REQUEST" "p \<noteq> []"
    by blast+
  moreover from this(2) have "length (request_data g) = length p - Suc pos" by (metis length_drop)
  ultimately show "parse_global_request p = Inr g" using r flag
    unfolding parse_global_request_def by (simp add: Let_def b_def Suc_le_eq)
qed

lemma parse_exit_status_eq [result_iff]:
  "parse_exit_status p ch = Inr (e, ch') \<longleftrightarrow> is_open ch \<and> \<not> exit_status_received ch \<and>
     (\<exists>flag. ces_want_reply e = (flag \<noteq> 0) \<and> p = CHANNEL_REQUEST # encode_uint32 (local_id ch) @
        text_field ''exit-status'' @ flag # encode_uint32 (ces_exit_status e)) \<and>
     ch' = ch\<lparr>exit_status := ces_exit_status e, exit_status_received := True\<rparr>"
proof
  assume a: "parse_exit_status p ch = Inr (e, ch')"
  then obtain q b pos where m: "p \<noteq> []" "p ! 0 = CHANNEL_REQUEST" "is_open ch" "\<not> exit_status_received ch"
    and r: "read_uint32 p 1 = Inr (local_id ch, q)" "read_string p q = Inr (b, pos)"
      "read_uint32 p (Suc pos) = Inr (ces_exit_status e, length p)"
    and b: "string_of_bytes b = ''exit-status''" and pos: "pos < length p"
    and e: "ces_want_reply e = (p ! pos \<noteq> 0)" "ch' = ch\<lparr>exit_status := ces_exit_status e, exit_status_received := True\<rparr>"
    by (auto simp: parse_exit_status_def result_iff Let_def split: prod.splits)
  have "drop pos p = p ! pos # encode_uint32 (ces_exit_status e)"
    using r(3) pos by (simp add: uint32_last Cons_nth_drop_Suc [symmetric])
  then have "drop 1 p = encode_uint32 (local_id ch) @ ssh_string b @ p ! pos # encode_uint32 (ces_exit_status e)"
    using uint32_codec.get_field [OF r(1)] string_codec.get_field [OF r(2)] by simp
  with message_payload [OF m(1,2)] b have "p = CHANNEL_REQUEST # encode_uint32 (local_id ch) @
        text_field ''exit-status'' @ p ! pos # encode_uint32 (ces_exit_status e)"
    by (simp add: string_of_bytes_eq_iff text_field_def)
  with m e show "is_open ch \<and> \<not> exit_status_received ch \<and>
     (\<exists>flag. ces_want_reply e = (flag \<noteq> 0) \<and> p = CHANNEL_REQUEST # encode_uint32 (local_id ch) @
        text_field ''exit-status'' @ flag # encode_uint32 (ces_exit_status e)) \<and>
     ch' = ch\<lparr>exit_status := ces_exit_status e, exit_status_received := True\<rparr>" by blast
next
  assume "is_open ch \<and> \<not> exit_status_received ch \<and>
     (\<exists>flag. ces_want_reply e = (flag \<noteq> 0) \<and> p = CHANNEL_REQUEST # encode_uint32 (local_id ch) @
        text_field ''exit-status'' @ flag # encode_uint32 (ces_exit_status e)) \<and>
     ch' = ch\<lparr>exit_status := ces_exit_status e, exit_status_received := True\<rparr>"
  then obtain flag where o: "is_open ch" "\<not> exit_status_received ch" and flag: "ces_want_reply e = (flag \<noteq> 0)"
    and p: "p = CHANNEL_REQUEST # encode_uint32 (local_id ch) @ text_field ''exit-status'' @ flag # encode_uint32 (ces_exit_status e)"
    and ch': "ch' = ch\<lparr>exit_status := ces_exit_status e, exit_status_received := True\<rparr>" by blast
  define b where "b = bytes_of_string ''exit-status''"
  have b: "string_fits b" "string_of_bytes b = ''exit-status''" "length (ssh_string b) = 15" by (simp_all add: b_def short_text_fits)
  have d: "drop 1 p = encode_uint32 (local_id ch) @ ssh_string b @ flag # encode_uint32 (ces_exit_status e)"
    by (simp add: p text_field_def b_def)
  note s1 = uint32_codec.get_step [OF TrueI d]
  note s2 = string_codec.get_step [OF b(1) s1 [THEN conjunct2]]
  have l: "length p = 25" "p \<noteq> []" "p ! 0 = CHANNEL_REQUEST" by (simp_all add: p text_field_def)
  have d20: "drop 20 p = flag # encode_uint32 (ces_exit_status e)" using s2 b(3) by simp
  then have "p ! 20 = flag" "drop 21 p = encode_uint32 (ces_exit_status e)"
    using l Cons_nth_drop_Suc [of 20 p] by simp_all
  then have "read_uint32 p 21 = Inr (ces_exit_status e, 25)" using uint32_last [of p 21] l by simp
  with \<open>p ! 20 = flag\<close> s1 s2 b(2,3) l o flag ch' show "parse_exit_status p ch = Inr (e, ch')"
    unfolding parse_exit_status_def by (simp add: Let_def)
qed

subsection \<open>Flow control\<close>

text \<open>
  A history of an account: \<open>account_run spend grant s a b s'\<close> leads from \<open>s\<close> to \<open>s'\<close> with \<open>a\<close> bytes spent
  and \<open>b\<close> bytes granted, in any order.
\<close>

inductive account_run ::
  "('s \<Rightarrow> nat \<Rightarrow> 's \<Rightarrow> bool) \<Rightarrow> ('s \<Rightarrow> nat \<Rightarrow> 's \<Rightarrow> bool) \<Rightarrow> 's \<Rightarrow> nat \<Rightarrow> nat \<Rightarrow> 's \<Rightarrow> bool"
  for spend grant s where
  start: "account_run spend grant s 0 0 s"
| spent: "account_run spend grant s a b s' \<Longrightarrow> spend s' n s'' \<Longrightarrow> account_run spend grant s (a + n) b s''"
| granted: "account_run spend grant s a b s' \<Longrightarrow> grant s' n s'' \<Longrightarrow> account_run spend grant s a (b + n) s''"

locale credit_account =
  fixes credit :: "'s \<Rightarrow> nat"
    and spend grant :: "'s \<Rightarrow> nat \<Rightarrow> 's \<Rightarrow> bool"
  assumes spend_credit: "spend s n s' \<Longrightarrow> credit s = credit s' + n"
    and grant_credit: "grant s n s' \<Longrightarrow> credit s' = credit s + n"
begin

lemma balance: "account_run spend grant s a b s' \<Longrightarrow> credit s' + a = credit s + b"
  by (induction rule: account_run.induct) (auto dest: spend_credit grant_credit)

lemma never_overdrawn: "account_run spend grant s a b s' \<Longrightarrow> a \<le> credit s + b"
  using balance by fastforce

end

definition local_spend :: "Channel \<Rightarrow> nat \<Rightarrow> Channel \<Rightarrow> bool" where
  "local_spend ch n ch' \<longleftrightarrow>
     (\<exists>payload d. parse_channel_data payload ch = Inr (d, ch') \<and> n = length d) \<or>
     (\<exists>payload x. parse_channel_extended_data payload ch = Inr (x, ch') \<and> n = length (ext_data x))"

definition local_grant :: "Channel \<Rightarrow> nat \<Rightarrow> Channel \<Rightarrow> bool" where
  "local_grant ch n ch' \<longleftrightarrow>
     (\<exists>k payload. create_window_adjust ch k = Inr payload \<and> n = unat k \<and>
        ch' = ch\<lparr>local_window := local_window ch + k\<rparr>)"

definition remote_spend :: "Channel \<Rightarrow> nat \<Rightarrow> Channel \<Rightarrow> bool" where
  "remote_spend ch n ch' \<longleftrightarrow>
     (\<exists>data payload. create_channel_data ch data = Inr payload \<and> n = length data \<and>
        ch' = ch\<lparr>remote_window := remote_window ch - of_nat n\<rparr>)"

definition remote_grant :: "Channel \<Rightarrow> nat \<Rightarrow> Channel \<Rightarrow> bool" where
  "remote_grant ch n ch' \<longleftrightarrow>
     (\<exists>k. parse_window_adjust (CHANNEL_WINDOW_ADJUST # encode_uint32 (local_id ch) @ encode_uint32 k) ch = Inr ch' \<and>
        n = unat k)"

lemma unat_minus_of_nat: "n \<le> unat (a :: u32) \<Longrightarrow> unat (a - of_nat n) = unat a - n"
proof -
  assume n: "n \<le> unat a"
  then have "n < 2 ^ 32" using unat_u32_less [of a] by simp
  then have "unat (of_nat n :: u32) = n" by (simp add: word_of_nat_eq_unat_iff)
  with n show ?thesis by (simp add: unat_sub word_le_nat_alt)
qed

lemma unat_plus_fits: "unat (a :: u32) + unat b \<le> uint32_max \<Longrightarrow> unat (a + b) = unat a + unat b"
  by (simp add: uint32_max_def unat_word_ariths)

interpretation local_account: credit_account "\<lambda>ch. unat (local_window ch)" local_spend local_grant
  by unfold_locales
     (auto simp: local_spend_def local_grant_def result_iff unat_minus_of_nat unat_plus_fits)

interpretation remote_account: credit_account "\<lambda>ch. unat (remote_window ch)" remote_spend remote_grant
  by unfold_locales
     (auto simp: remote_spend_def remote_grant_def result_iff unat_minus_of_nat unat_plus_fits)

subsection \<open>Properties\<close>

text \<open>
  C27: The channel parsers accept exactly their message formats, addressed to this channel and in a state
  that allows them, and change exactly the fields they report. Data is accepted if and only if it fits the
  window and the packet size this side announced; a window adjustment if and only if it is not
  zero and does not overflow the 32-bit window; end of file and close once each.
\<close>

theorem channel_parsers_exact:
  "(parse_channel_data p ch = Inr (d, ch') \<longleftrightarrow> is_open ch \<and> length d \<le> uint32_max \<and>
     p = CHANNEL_DATA # encode_uint32 (local_id ch) @ ssh_string d \<and>
     length d \<le> unat (local_max_packet ch) \<and> length d \<le> unat (local_window ch) \<and>
     ch' = ch\<lparr>local_window := local_window ch - of_nat (length d)\<rparr>) \<and>
   (parse_channel_extended_data p ch = Inr (x, ch') \<longleftrightarrow> is_open ch \<and> length (ext_data x) \<le> uint32_max \<and>
     data_type x = 1 \<and>
     p = CHANNEL_EXTENDED_DATA # encode_uint32 (local_id ch) @ encode_uint32 1 @ ssh_string (ext_data x) \<and>
     length (ext_data x) \<le> unat (local_max_packet ch) \<and> length (ext_data x) \<le> unat (local_window ch) \<and>
     ch' = ch\<lparr>local_window := local_window ch - of_nat (length (ext_data x))\<rparr>) \<and>
   (parse_window_adjust p ch = Inr ch' \<longleftrightarrow> is_open ch \<and>
     (\<exists>n. p = CHANNEL_WINDOW_ADJUST # encode_uint32 (local_id ch) @ encode_uint32 n \<and> n \<noteq> 0 \<and>
        unat (remote_window ch) + unat n \<le> uint32_max \<and> ch' = ch\<lparr>remote_window := remote_window ch + n\<rparr>)) \<and>
   (parse_channel_eof p ch = Inr ch' \<longleftrightarrow> is_open ch \<and> \<not> remote_eof_received ch \<and>
     p = CHANNEL_EOF # encode_uint32 (local_id ch) \<and> ch' = ch\<lparr>remote_eof_received := True\<rparr>) \<and>
   (parse_channel_close p ch = Inr ch' \<longleftrightarrow> is_open ch \<and> \<not> remote_close_received ch \<and>
     p = CHANNEL_CLOSE # encode_uint32 (local_id ch) \<and> ch' = ch\<lparr>remote_close_received := True\<rparr>) \<and>
   (parse_open_confirmation p ch = Inr ch' \<longleftrightarrow> \<not> is_open ch \<and>
     (\<exists>sender window packet. 32768 \<le> packet \<and>
        p = CHANNEL_OPEN_CONFIRMATION # encode_uint32 (local_id ch) @ encode_uint32 sender @
          encode_uint32 window @ encode_uint32 packet \<and>
        ch' = ch\<lparr>remote_id := sender, remote_window := window, remote_max_packet := packet, is_open := True\<rparr>))"
  using parse_channel_data_eq [of p ch d ch'] parse_channel_extended_data_eq [of p ch x ch']
    parse_window_adjust_eq [of p ch ch'] parse_channel_eof_eq [of p ch ch'] parse_channel_close_eq [of p ch ch']
    parse_open_confirmation_eq [of p ch ch']
  by (simp only: string_fits_def MIN_MAX_PACKET_SIZE_def)

text \<open>
  C12: Flow control is honoured in both directions. Over any history of received data and granted
  adjustments, the bytes accepted never exceed the initial window plus what was granted, and the
  local window is exactly the difference; over any history of sent data and received
  adjustments, the same holds of the bytes sent and the window that the server granted. In
  particular the 32-bit arithmetic never wraps around.
\<close>

theorem flow_control_honoured:
  "(\<forall>received granted ch'. account_run local_spend local_grant ch received granted ch' \<longrightarrow>
      unat (local_window ch') + received = unat (local_window ch) + granted \<and>
      received \<le> unat (local_window ch) + granted) \<and>
   (\<forall>sent granted ch'. account_run remote_spend remote_grant ch sent granted ch' \<longrightarrow>
      unat (remote_window ch') + sent = unat (remote_window ch) + granted \<and>
      sent \<le> unat (remote_window ch) + granted)"
  using local_account.balance local_account.never_overdrawn remote_account.balance remote_account.never_overdrawn
  by blast

definition sample_channel :: Channel where
  "sample_channel = \<lparr>local_id = 0, remote_id = 7, local_window = 1048576, remote_window = 100,
     local_max_packet = 32768, remote_max_packet = 32768, is_open = True, remote_eof_received = False,
     remote_close_received = False, local_close_sent = False, exit_status_received = False, exit_status = 0\<rparr>"

theorem flow_control_honoured_witness:
  "account_run remote_spend remote_grant sample_channel (0 + 3) 0 (sample_channel\<lparr>remote_window := 97\<rparr>) \<and>
   0 + 3 \<le> unat (remote_window sample_channel) + 0"
proof -
  obtain payload where "create_channel_data sample_channel [1, 2, 3] = Inr payload"
    by (simp add: create_messages_eq sample_channel_def)
  moreover have "sample_channel\<lparr>remote_window := 97\<rparr> = sample_channel\<lparr>remote_window := remote_window sample_channel - of_nat 3\<rparr>"
    by (simp add: sample_channel_def)
  ultimately have "remote_spend sample_channel 3 (sample_channel\<lparr>remote_window := 97\<rparr>)"
    unfolding remote_spend_def by (rule_tac exI [of _ "[1, 2, 3]"], rule_tac exI [of _ payload]) auto
  then have r: "account_run remote_spend remote_grant sample_channel (0 + 3) 0 (sample_channel\<lparr>remote_window := 97\<rparr>)"
    by (rule account_run.spent [OF account_run.start])
  with flow_control_honoured [of sample_channel] show ?thesis by blast
qed

definition mirrors :: "Channel \<Rightarrow> Channel \<Rightarrow> bool" where
  "mirrors ch peer \<longleftrightarrow> is_open ch \<and> is_open peer \<and>
     local_id peer = remote_id ch \<and> remote_id peer = local_id ch \<and>
     local_window peer = remote_window ch \<and> remote_window peer = local_window ch \<and>
     local_max_packet peer = remote_max_packet ch \<and> remote_max_packet peer = local_max_packet ch \<and>
     remote_close_received peer = local_close_sent ch \<and> local_close_sent peer = remote_close_received ch"

text \<open>
  C29: The two ends of a channel understand each other. If the peer's channel mirrors this one (identifiers,
  windows and packet sizes exchanged), then the data, the window adjustment and the close that one end
  creates are accepted by the other end's parser, with the same data, and the windows mirror each
  other again.
\<close>

theorem peers_agree:
  assumes "mirrors ch peer"
  shows "(\<forall>data p. create_channel_data ch data = Inr p \<longrightarrow>
      (\<exists>peer'. parse_channel_data p peer = Inr (data, peer') \<and>
         mirrors (ch\<lparr>remote_window := remote_window ch - of_nat (length data)\<rparr>) peer')) \<and>
    (\<forall>n p. create_window_adjust ch n = Inr p \<longrightarrow>
      (\<exists>peer'. parse_window_adjust p peer = Inr peer' \<and>
         mirrors (ch\<lparr>local_window := local_window ch + n\<rparr>) peer')) \<and>
    (\<forall>p. create_channel_close ch = Inr p \<longrightarrow>
      (\<exists>peer'. parse_channel_close p peer = Inr peer' \<and> mirrors (ch\<lparr>local_close_sent := True\<rparr>) peer'))"
proof (intro conjI allI impI)
  fix data p assume "create_channel_data ch data = Inr p"
  moreover have "string_fits data" if "length data \<le> unat (remote_window ch)"
    using that unat_u32_less [of "remote_window ch"] by (simp add: string_fits_def uint32_max_def)
  ultimately show "\<exists>peer'. parse_channel_data p peer = Inr (data, peer') \<and>
      mirrors (ch\<lparr>remote_window := remote_window ch - of_nat (length data)\<rparr>) peer'"
    using assms by (simp add: create_messages_eq parse_channel_data_eq mirrors_def)
next
  fix n p assume "create_window_adjust ch n = Inr p"
  with assms show "\<exists>peer'. parse_window_adjust p peer = Inr peer' \<and>
      mirrors (ch\<lparr>local_window := local_window ch + n\<rparr>) peer'"
    by (simp add: create_messages_eq parse_window_adjust_eq mirrors_def)
next
  fix p assume "create_channel_close ch = Inr p"
  with assms show "\<exists>peer'. parse_channel_close p peer = Inr peer' \<and> mirrors (ch\<lparr>local_close_sent := True\<rparr>) peer'"
    by (simp add: create_messages_eq parse_channel_close_eq mirrors_def)
qed

theorem peers_agree_witness:
  "mirrors sample_channel (sample_channel\<lparr>local_id := 7, remote_id := 0, local_window := 100, remote_window := 1048576\<rparr>) \<and>
   (\<exists>p peer'. create_channel_data sample_channel [1, 2, 3] = Inr p \<and>
     parse_channel_data p (sample_channel\<lparr>local_id := 7, remote_id := 0, local_window := 100, remote_window := 1048576\<rparr>) =
       Inr ([1, 2, 3], peer'))"
proof -
  let ?peer = "sample_channel\<lparr>local_id := 7, remote_id := 0, local_window := 100, remote_window := 1048576\<rparr>"
  have m: "mirrors sample_channel ?peer" by (simp add: mirrors_def sample_channel_def)
  obtain p where "create_channel_data sample_channel [1, 2, 3] = Inr p"
    by (simp add: create_messages_eq sample_channel_def)
  with m peers_agree [OF m] show ?thesis by blast
qed

text \<open>
  C28: The requests that open and drive a session have exactly the bytes of the protocol and are created
  exactly when the channel's state and the arguments allow: the open request only for a channel that is
  not open, with a window and a packet size it can serve, the others only on an open channel, a terminal
  request only with a type and two non-zero dimensions. Global requests and the exit status are read
  back in full.
\<close>

theorem channel_requests_exact:
  "(create_session_open ch = Inr p \<longleftrightarrow> \<not> is_open ch \<and> local_window ch \<noteq> 0 \<and> 32768 \<le> local_max_packet ch \<and>
     p = CHANNEL_OPEN # text_field ''session'' @ encode_uint32 (local_id ch) @ encode_uint32 (local_window ch) @
       encode_uint32 (local_max_packet ch)) \<and>
   (create_pty_request ch ty c r = Inr p \<longleftrightarrow> is_open ch \<and> ty \<noteq> [] \<and> c \<noteq> 0 \<and> r \<noteq> 0 \<and> length ty \<le> uint32_max \<and>
     p = CHANNEL_REQUEST # encode_uint32 (remote_id ch) @ text_field ''pty-req'' @ 1 # text_field ty @
       encode_uint32 c @ encode_uint32 r @ encode_uint32 0 @ encode_uint32 0 @ ssh_string [0]) \<and>
   (create_shell_request ch = Inr p \<longleftrightarrow> is_open ch \<and>
     p = CHANNEL_REQUEST # encode_uint32 (remote_id ch) @ text_field ''shell'' @ [1]) \<and>
   (create_exec_request ch cmd = Inr p \<longleftrightarrow> is_open ch \<and> cmd \<noteq> [] \<and> length cmd \<le> uint32_max \<and>
     p = CHANNEL_REQUEST # encode_uint32 (remote_id ch) @ text_field ''exec'' @ 1 # text_field cmd) \<and>
   (parse_global_request p = Inr g \<longleftrightarrow> length (request_name g) \<le> uint32_max \<and>
     (\<exists>flag. want_reply g = (flag \<noteq> 0) \<and> p = GLOBAL_REQUEST # text_field (request_name g) @ flag # request_data g)) \<and>
   (parse_exit_status p ch = Inr (e, ch') \<longleftrightarrow> is_open ch \<and> \<not> exit_status_received ch \<and>
     (\<exists>flag. ces_want_reply e = (flag \<noteq> 0) \<and> p = CHANNEL_REQUEST # encode_uint32 (local_id ch) @
        text_field ''exit-status'' @ flag # encode_uint32 (ces_exit_status e)) \<and>
     ch' = ch\<lparr>exit_status := ces_exit_status e, exit_status_received := True\<rparr>)"
  using create_requests_eq parse_global_request_eq [of p g] parse_exit_status_eq [of p ch e ch']
  by (simp only: MIN_MAX_PACKET_SIZE_def)

end
