(* ===== verification/SSH_Session.thy ===== *)
theory SSH_Session
  imports SSH_Transport SSH_Connection
begin

section \<open>The session channel and the interactive shell (\<open>main.cpp\<close>, lines 163 to 328)\<close>

text \<open>
  Opening the channel, the two requests, and the loop that moves keyboard input to the server and
  server output to the console. The channel object is the field \<open>chan\<close>. What \<open>poll (2)\<close> reports is a
  list of events, one for each call; the waiting loops over packets end because each packet
  consumes part of the receive queue.
\<close>

record 'ctx session = "'ctx transport" +
  chan :: Channel

definition LOCAL_WINDOW_TARGET :: u32 where "LOCAL_WINDOW_TARGET = 1024 * 1024"
definition LOCAL_WINDOW_THRESHOLD :: u32 where "LOCAL_WINDOW_THRESHOLD = 512 * 1024"
definition LOCAL_MAX_PACKET_SIZE :: u32 where "LOCAL_MAX_PACKET_SIZE = 32 * 1024"
definition INITIAL_CHANNEL_ID :: u32 where "INITIAL_CHANNEL_ID = 0"
definition KEYBOARD_BUFFER_SIZE :: nat where "KEYBOARD_BUFFER_SIZE = 1024"

lemmas session_consts = LOCAL_WINDOW_TARGET_def LOCAL_WINDOW_THRESHOLD_def LOCAL_MAX_PACKET_SIZE_def
  INITIAL_CHANNEL_ID_def KEYBOARD_BUFFER_SIZE_def

abbreviation set_chan :: "Channel \<Rightarrow> (('ctx, 'x) session_scheme, unit) comp" where
  "set_chan ch \<equiv> modifyC (\<lambda>w. w\<lparr>chan := ch\<rparr>)"

text \<open>The channel of \<open>run_connection_session\<close>: value-initialised, then three fields set.\<close>

definition initial_channel :: Channel where
  "initial_channel =
     \<lparr>local_id = INITIAL_CHANNEL_ID, remote_id = 0, local_window = LOCAL_WINDOW_TARGET, remote_window = 0,
      local_max_packet = LOCAL_MAX_PACKET_SIZE, remote_max_packet = 0, is_open = False,
      remote_eof_received = False, remote_close_received = False, local_close_sent = False,
      exit_status_received = False, exit_status = 0\<rparr>"

subsection \<open>Opening the channel\<close>

definition handle_global_request :: "'ctx crypto \<Rightarrow> bytes \<Rightarrow> (('ctx, 'x) transport_scheme, unit) comp" where
  "handle_global_request lib payload =
     bindC (liftE (parse_global_request payload)) (\<lambda>gr.
     if want_reply gr then send_packet lib create_request_failure else returnC ())"

text \<open>The body of the loop of \<open>open_session_channel\<close>, for a received packet.\<close>

definition open_response :: "'ctx crypto \<Rightarrow> bytes \<Rightarrow> (('ctx, 'x) session_scheme, unit) comp" where
  "open_response lib response =
     (if response = [] then raiseC ''Packet contained 0 bytes''
      else bindC (liftE (at_index response 0)) (\<lambda>message.
      bindC (getsC chan) (\<lambda>channel.
      if message = CHANNEL_OPEN_CONFIRMATION
      then bindC (liftE (parse_open_confirmation response channel)) set_chan
      else if message = CHANNEL_OPEN_FAILURE
      then bindC (liftE (parse_open_failure response channel)) (\<lambda>failure. raiseC ''Connection failed to open'')
      else if message = GLOBAL_REQUEST then handle_global_request lib response
      else raiseC ''Unexpected response received during session channel opening'')))"

lemma rx_open_response: "open_response lib response w = (r, w') \<Longrightarrow> rx w' = rx w"
proof -
  have "keeps (\<lambda>v. rx v = q) (open_response lib response)" for q
    unfolding open_response_def handle_global_request_def
    by (intro keeps_intro keeps_send_packet) auto
  then show "open_response lib response w = (r, w') \<Longrightarrow> rx w' = rx w" by (auto dest: keepsD)
qed

function open_loop :: "'ctx crypto \<Rightarrow> ('ctx, 'x) session_scheme \<Rightarrow> (stop + unit) \<times> ('ctx, 'x) session_scheme" where
  "open_loop lib w =
     (if is_open (chan w) then (Inr (), w)
      else bindC (receive_packet lib) (\<lambda>response.
           bindC (open_response lib response) (\<lambda>_ v. open_loop lib v)) w)"
  by pat_completeness auto
termination
  by (relation "measure (\<lambda>(lib, w). rx_size (rx w))") (auto dest!: receive_packet_consumes rx_open_response)

declare open_loop.simps [simp del]

definition open_session_channel :: "'ctx crypto \<Rightarrow> (('ctx, 'x) session_scheme, unit) comp" where
  "open_session_channel lib =
     bindC (getsC chan) (\<lambda>channel.
     bindC (liftE (create_session_open channel)) (\<lambda>payload.
     bindC (send_packet lib payload) (\<lambda>_. open_loop lib)))"

subsection \<open>Channel requests\<close>

text \<open>The body of the loop of \<open>wait_for_channel_request_result\<close>; the result is \<open>request_accepted\<close>.\<close>

definition request_response :: "'ctx crypto \<Rightarrow> string \<Rightarrow> bytes \<Rightarrow> (('ctx, 'x) session_scheme, bool) comp" where
  "request_response lib name response =
     (if response = [] then raiseC ''Packet contained 0 bytes''
      else bindC (liftE (at_index response 0)) (\<lambda>message.
      bindC (getsC chan) (\<lambda>channel.
      if message = CHANNEL_SUCCESS
      then bindC (liftE (validate_channel_success response channel)) (\<lambda>_. returnC True)
      else if message = CHANNEL_FAILURE
      then bindC (liftE (validate_channel_failure response channel)) (\<lambda>_. raiseC (name @ '' request rejected''))
      else if message = GLOBAL_REQUEST
      then bindC (handle_global_request lib response) (\<lambda>_. returnC False)
      else if message = CHANNEL_WINDOW_ADJUST
      then bindC (liftE (parse_window_adjust response channel)) (\<lambda>channel'.
           bindC (set_chan channel') (\<lambda>_. returnC False))
      else raiseC (''Unexpected response received while waiting for '' @ name))))"

lemma rx_request_response: "request_response lib name response w = (r, w') \<Longrightarrow> rx w' = rx w"
proof -
  have "keeps (\<lambda>v. rx v = q) (request_response lib name response)" for q
    unfolding request_response_def handle_global_request_def
    by (intro keeps_intro keeps_send_packet) auto
  then show "request_response lib name response w = (r, w') \<Longrightarrow> rx w' = rx w" by (auto dest: keepsD)
qed

function wait_for_channel_request_result ::
  "'ctx crypto \<Rightarrow> string \<Rightarrow> ('ctx, 'x) session_scheme \<Rightarrow> (stop + unit) \<times> ('ctx, 'x) session_scheme" where
  "wait_for_channel_request_result lib name w =
     bindC (receive_packet lib) (\<lambda>response.
     bindC (request_response lib name response) (\<lambda>accepted v.
       if accepted then (Inr (), v) else wait_for_channel_request_result lib name v)) w"
  by pat_completeness auto
termination
  by (relation "measure (\<lambda>(lib, name, w). rx_size (rx w))") (auto dest!: receive_packet_consumes rx_request_response)

declare wait_for_channel_request_result.simps [simp del]

definition request_pty :: "'ctx crypto \<Rightarrow> terminal_info \<Rightarrow> (('ctx, 'x) session_scheme, unit) comp" where
  "request_pty lib info =
     bindC (getsC chan) (\<lambda>channel.
     bindC (liftE (create_pty_request channel (term_type info) (columns info) (rows info))) (\<lambda>payload.
     bindC (send_packet lib payload) (\<lambda>_.
     wait_for_channel_request_result lib ''pty-req'')))"

definition request_shell :: "'ctx crypto \<Rightarrow> (('ctx, 'x) session_scheme, unit) comp" where
  "request_shell lib =
     bindC (getsC chan) (\<lambda>channel.
     bindC (liftE (create_shell_request channel)) (\<lambda>payload.
     bindC (send_packet lib payload) (\<lambda>_.
     wait_for_channel_request_result lib ''shell'')))"

subsection \<open>The interactive shell\<close>

text \<open>
  One result of \<open>poll\<close>: an error with its \<open>errno\<close>, or the descriptors that are ready: keyboard input,
  socket input, and an error condition of the socket. \<open>poll\<close> reports readable input only where it was
  asked for, and the code asks for keyboard input only while the remote window is open.
\<close>

datatype poll_event = Poll_error int | Poll_ready (key_in: bool) (sock_in: bool) (sock_error: bool)

text \<open>
  \<open>read\<close> on standard input of at most \<open>n\<close> bytes into a buffer: the number of bytes read, where \<open>None\<close> is the result -1, and
  the buffer. A size beyond the buffer lets the kernel write outside it.
\<close>

definition read_keyboard :: "bytes \<Rightarrow> nat \<Rightarrow> ('x machine_scheme, nat option \<times> bytes) comp" where
  "read_keyboard buffer n w =
     (if n > length buffer then (Inl (Raised Memory_error), w)
      else case recv_event n (keyboard w) of
        None \<Rightarrow> (Inl Blocked, w)
      | Some (Got bytes, q) \<Rightarrow> (Inr (Some (length bytes), bytes @ drop (length bytes) buffer), w\<lparr>keyboard := q\<rparr>)
      | Some (Errno e, q) \<Rightarrow> (Inr (None, buffer), w\<lparr>keyboard := q\<rparr>))"

definition keyboard_input :: "'ctx crypto \<Rightarrow> (('ctx, 'x) session_scheme, unit) comp" where
  "keyboard_input lib =
     bindC (getsC chan) (\<lambda>channel.
     let keyboard_buffer = replicate KEYBOARD_BUFFER_SIZE 0;
         max_read = length keyboard_buffer;
         max_read = min max_read (unat (remote_window channel));
         max_read = min max_read (unat (remote_max_packet channel)) in
     bindC (read_keyboard keyboard_buffer max_read) (\<lambda>(bytes_read, keyboard_buffer). case bytes_read of
       None \<Rightarrow> raiseC ''Failed to read keyboard input''
     | Some n \<Rightarrow>
         if n > 0
         then bindC (liftE (copy_n keyboard_buffer 0 n)) (\<lambda>keyboard_data.
              bindC (liftE (create_channel_data channel keyboard_data)) (\<lambda>payload.
              bindC (send_packet lib payload) (\<lambda>_.
              set_chan (channel\<lparr>remote_window := remote_window channel - of_nat (length keyboard_data)\<rparr>))))
         else returnC ()))"

text \<open>The chunk of keyboard input that arrives in the buffer; what lies behind it is not used.\<close>

definition read_chunk :: "nat \<Rightarrow> ('x machine_scheme, bytes option) comp" where
  "read_chunk n w =
     (case recv_event n (keyboard w) of
        None \<Rightarrow> (Inl Blocked, w)
      | Some (Got bytes, q) \<Rightarrow> (Inr (Some bytes), w\<lparr>keyboard := q\<rparr>)
      | Some (Errno e, q) \<Rightarrow> (Inr None, w\<lparr>keyboard := q\<rparr>))"

lemma read_keyboard_chunk:
  assumes "n \<le> length buffer"
  shows "bindC (read_keyboard buffer n) (\<lambda>(bytes_read, buffer). case bytes_read of None \<Rightarrow> m
       | Some k \<Rightarrow> if k > 0 then bindC (liftE (copy_n buffer 0 k)) f else m') =
     bindC (read_chunk n) (\<lambda>chunk. case chunk of None \<Rightarrow> m | Some data \<Rightarrow> if length data > 0 then f data else m')"
  using assms
  by (auto simp: fun_eq_iff bindC_def read_keyboard_def read_chunk_def comp_simps split: option.splits read_result.splits)

lemma keyboard_input_code:
  "keyboard_input lib =
     bindC (getsC chan) (\<lambda>channel.
     bindC (read_chunk (min (min KEYBOARD_BUFFER_SIZE (unat (remote_window channel))) (unat (remote_max_packet channel)))) (\<lambda>chunk.
     case chunk of
       None \<Rightarrow> raiseC ''Failed to read keyboard input''
     | Some keyboard_data \<Rightarrow>
         if length keyboard_data > 0
         then bindC (liftE (create_channel_data channel keyboard_data)) (\<lambda>payload.
              bindC (send_packet lib payload) (\<lambda>_.
              set_chan (channel\<lparr>remote_window := remote_window channel - of_nat (length keyboard_data)\<rparr>)))
         else returnC ()))"
  unfolding keyboard_input_def Let_def length_replicate by (subst read_keyboard_chunk) simp_all

text \<open>The dispatch on the message type; the result is \<open>consumed_local_window\<close>.\<close>

definition dispatch :: "'ctx crypto \<Rightarrow> byte \<Rightarrow> bytes \<Rightarrow> (('ctx, 'x) session_scheme, bool) comp" where
  "dispatch lib message_type response =
     bindC (getsC chan) (\<lambda>channel.
     if message_type = CHANNEL_DATA
     then bindC (liftE (parse_channel_data response channel)) (\<lambda>(data, channel').
          bindC (set_chan channel') (\<lambda>_.
          bindC (print (Cout (string_of_bytes data))) (\<lambda>_. returnC True)))
     else if message_type = CHANNEL_WINDOW_ADJUST
     then bindC (liftE (parse_window_adjust response channel)) (\<lambda>channel'.
          bindC (set_chan channel') (\<lambda>_. returnC False))
     else if message_type = GLOBAL_REQUEST
     then bindC (handle_global_request lib response) (\<lambda>_. returnC False)
     else if message_type = CHANNEL_EXTENDED_DATA
     then bindC (liftE (parse_channel_extended_data response channel)) (\<lambda>(extended, channel').
          bindC (set_chan channel') (\<lambda>_.
          bindC (print (Cerr (string_of_bytes (ext_data extended)))) (\<lambda>_. returnC True)))
     else if message_type = CHANNEL_EOF
     then bindC (liftE (parse_channel_eof response channel)) (\<lambda>channel'.
          bindC (set_chan channel') (\<lambda>_. returnC False))
     else if message_type = CHANNEL_REQUEST
     then bindC (liftE (parse_exit_status response channel)) (\<lambda>(status, channel').
          bindC (set_chan channel') (\<lambda>_. returnC False))
     else if message_type = CHANNEL_CLOSE
     then bindC (liftE (parse_channel_close response channel)) (\<lambda>channel'.
          bindC (set_chan channel') (\<lambda>_.
          if \<not> local_close_sent channel'
          then bindC (liftE (create_channel_close channel')) (\<lambda>payload.
               bindC (send_packet lib payload) (\<lambda>_.
               bindC (set_chan (channel'\<lparr>local_close_sent := True\<rparr>)) (\<lambda>_. returnC False)))
          else returnC False))
     else raiseC ''Unexpected SSH message during interactive shell'')"

definition replenish_window :: "'ctx crypto \<Rightarrow> bool \<Rightarrow> (('ctx, 'x) session_scheme, unit) comp" where
  "replenish_window lib consumed_local_window =
     bindC (getsC chan) (\<lambda>channel.
     if consumed_local_window \<and> is_open channel \<and> local_window channel \<le> LOCAL_WINDOW_THRESHOLD
     then let difference = LOCAL_WINDOW_TARGET - local_window channel in
          bindC (liftE (create_window_adjust channel difference)) (\<lambda>payload.
          bindC (send_packet lib payload) (\<lambda>_.
          set_chan (channel\<lparr>local_window := local_window channel + difference\<rparr>)))
     else returnC ())"

definition finish_close :: "(('ctx, 'x) session_scheme, unit) comp" where
  "finish_close =
     bindC (getsC chan) (\<lambda>channel.
     if local_close_sent channel \<and> remote_close_received channel
     then set_chan (channel\<lparr>is_open := False\<rparr>) else returnC ())"

definition socket_input :: "'ctx crypto \<Rightarrow> (('ctx, 'x) session_scheme, unit) comp" where
  "socket_input lib =
     bindC (receive_packet lib) (\<lambda>response.
     if response = [] then raiseC ''Received an empty SSH packet''
     else bindC (liftE (at_index response 0)) (\<lambda>message_type.
          bindC (dispatch lib message_type response) (\<lambda>consumed_local_window.
          bindC (replenish_window lib consumed_local_window) (\<lambda>_. finish_close))))"

definition shell_iteration :: "'ctx crypto \<Rightarrow> poll_event \<Rightarrow> (('ctx, 'x) session_scheme, unit) comp" where
  "shell_iteration lib event =
     bindC (getsC chan) (\<lambda>channel.
     let keyboard_requested = (remote_window channel > 0) in
     case event of
       Poll_error e \<Rightarrow> if e = EINTR then returnC () else raiseC ''poll failed''
     | Poll_ready keyboard_ready socket_ready socket_error \<Rightarrow>
         bindC (if keyboard_ready \<and> keyboard_requested then keyboard_input lib else returnC ()) (\<lambda>_.
         bindC (if socket_ready then socket_input lib else returnC ()) (\<lambda>_.
         bindC (getsC chan) (\<lambda>channel.
         if is_open channel \<and> socket_error then raiseC ''SSH socket closed unexpectedly'' else returnC ()))))"

fun shell_loop ::
  "'ctx crypto \<Rightarrow> poll_event list \<Rightarrow> ('ctx, 'x) session_scheme \<Rightarrow> (stop + unit) \<times> ('ctx, 'x) session_scheme" where
  "shell_loop lib [] w = (if is_open (chan w) then (Inl Blocked, w) else (Inr (), w))"
| "shell_loop lib (event # events) w =
     (if is_open (chan w) then bindC (shell_iteration lib event) (\<lambda>_. shell_loop lib events) w
      else (Inr (), w))"

definition run_interactive_shell ::
  "posix \<Rightarrow> 'ctx crypto \<Rightarrow> poll_event list \<Rightarrow> (('ctx, 'x) session_scheme, unit) comp" where
  "run_interactive_shell os lib events =
     bindC (enable_raw_mode os) (\<lambda>_.
     bindC (shell_loop lib events) (\<lambda>_. restore os))"

subsection \<open>What the steps leave alone\<close>

lemma chan_packets:
  "send_packet lib p w = (r, w') \<Longrightarrow> chan w' = chan w"
  "receive_packet lib w = (r', w') \<Longrightarrow> chan w' = chan w"
proof -
  have "keeps (\<lambda>v. chan v = c) (send_packet lib p)" "keeps (\<lambda>v. chan v = c) (receive_packet lib)" for c
    by (intro keeps_send_packet keeps_receive_packet; simp)+
  then show "send_packet lib p w = (r, w') \<Longrightarrow> chan w' = chan w"
    "receive_packet lib w = (r', w') \<Longrightarrow> chan w' = chan w" by (auto dest: keepsD)
qed

lemma chan_handle_global_request: "handle_global_request lib p w = (r, w') \<Longrightarrow> chan w' = chan w"
  by (cases r) (auto simp: handle_global_request_def bindC_eq_Inr bindC_eq_Inl result_iff comp_simps
      dest!: chan_packets(1) split: if_splits; cases "parse_global_request p"; auto simp: comp_simps)+

lemma read_chunk_eq [result_iff]:
  "read_chunk n w = (Inr r, w') \<longleftrightarrow>
     (\<exists>q. w' = w\<lparr>keyboard := q\<rparr> \<and> (case r of Some bs \<Rightarrow> recv_event n (keyboard w) = Some (Got bs, q)
        | None \<Rightarrow> \<exists>e. recv_event n (keyboard w) = Some (Errno e, q)))"
  by (auto simp: read_chunk_def split: option.splits read_result.splits)

subsection \<open>The invariant of the shell loop\<close>

text \<open>
  Between two iterations: while the channel is open, neither side has closed it and the window granted
  to the server is above the threshold; afterwards both sides have closed it.
\<close>

definition shell_inv :: "Channel \<Rightarrow> bool" where
  "shell_inv ch \<longleftrightarrow>
     (if is_open ch
      then \<not> local_close_sent ch \<and> \<not> remote_close_received ch \<and>
           LOCAL_WINDOW_THRESHOLD < local_window ch \<and> local_window ch \<le> LOCAL_WINDOW_TARGET \<and>
           local_max_packet ch = LOCAL_MAX_PACKET_SIZE \<and> MIN_MAX_PACKET_SIZE \<le> remote_max_packet ch
      else local_close_sent ch \<and> remote_close_received ch)"

text \<open>Within an iteration, after the dispatch of a message.\<close>

definition mid_inv :: "bool \<Rightarrow> Channel \<Rightarrow> bool" where
  "mid_inv consumed ch \<longleftrightarrow> is_open ch \<and> local_close_sent ch = remote_close_received ch \<and>
     local_window ch \<le> LOCAL_WINDOW_TARGET \<and> (consumed \<or> LOCAL_WINDOW_THRESHOLD < local_window ch) \<and>
     local_max_packet ch = LOCAL_MAX_PACKET_SIZE \<and> MIN_MAX_PACKET_SIZE \<le> remote_max_packet ch"

lemma keyboard_input_inv:
  assumes "keyboard_input lib w = (Inr (), w')" "shell_inv (chan w)" "is_open (chan w)"
  shows "shell_inv (chan w') \<and> is_open (chan w')"
  using assms
  by (auto simp: keyboard_input_code result_iff Let_def split: option.splits if_splits dest!: chan_packets(1))
     (auto simp: shell_inv_def)

lemma window_minus_le:
  assumes "n \<le> unat (a :: u32)" "a \<le> t"
  shows "a - of_nat n \<le> t"
  using assms by (simp add: word_le_nat_alt unat_minus_of_nat)

lemma dispatch_inv:
  assumes "dispatch lib m response w = (Inr c, w')" "shell_inv (chan w)" "is_open (chan w)"
  shows "mid_inv c (chan w')"
proof -
  have s: "mid_inv False (chan w)" "mid_inv True (chan w)" using assms(2,3) by (auto simp: shell_inv_def mid_inv_def)
  have d: "mid_inv True (ch\<lparr>local_window := local_window ch - of_nat n\<rparr>)"
    if "mid_inv True ch" "n \<le> unat (local_window ch)" for ch n
    using that window_minus_le [OF that(2)] by (simp add: mid_inv_def)
  have u: "mid_inv False (ch\<lparr>remote_window := x\<rparr>)" "mid_inv False (ch\<lparr>remote_eof_received := b\<rparr>)"
    "mid_inv False (ch\<lparr>exit_status := y, exit_status_received := b\<rparr>)"
    "mid_inv False (ch\<lparr>remote_close_received := True, local_close_sent := True\<rparr>)"
    if "mid_inv False ch" for ch x y b
    using that by (simp_all add: mid_inv_def)
  have cl: "\<not> local_close_sent (chan w)" using assms(2,3) by (simp add: shell_inv_def)
  from assms(1) s d u cl show ?thesis
    unfolding dispatch_def
    by (auto simp: result_iff print_def split: if_splits dest!: chan_packets(1) chan_handle_global_request)
qed

lemma window_difference:
  assumes "w \<le> LOCAL_WINDOW_THRESHOLD"
  shows "LOCAL_WINDOW_TARGET - w \<noteq> 0" "unat w + unat (LOCAL_WINDOW_TARGET - w) \<le> uint32_max"
    "w + (LOCAL_WINDOW_TARGET - w) = LOCAL_WINDOW_TARGET"
proof -
  have w: "unat w \<le> 524288" using assms by (simp add: word_le_nat_alt session_consts)
  then have "unat (LOCAL_WINDOW_TARGET - w) = 1048576 - unat w"
    by (simp add: unat_sub word_le_nat_alt session_consts)
  with w show "LOCAL_WINDOW_TARGET - w \<noteq> 0" "unat w + unat (LOCAL_WINDOW_TARGET - w) \<le> uint32_max"
    by (auto simp: uint32_max_def dest: arg_cong [of _ _ unat])
  show "w + (LOCAL_WINDOW_TARGET - w) = LOCAL_WINDOW_TARGET" by simp
qed

lemma replenish_window_inv:
  assumes "replenish_window lib c w = (Inr (), w')" "mid_inv c (chan w)"
  shows "mid_inv False (chan w')"
proof (cases "c \<and> is_open (chan w) \<and> local_window (chan w) \<le> LOCAL_WINDOW_THRESHOLD")
  case True
  with assms(1) have "chan w' = (chan w)\<lparr>local_window := LOCAL_WINDOW_TARGET\<rparr>"
    by (auto simp: replenish_window_def result_iff Let_def dest!: chan_packets(1))
  with assms(2) show ?thesis by (simp add: mid_inv_def session_consts)
next
  case False
  with assms(1) have "w' = w" by (auto simp: replenish_window_def result_iff Let_def)
  with False assms(2) show ?thesis by (auto simp: mid_inv_def not_le)
qed

lemma finish_close_inv:
  assumes "finish_close w = (Inr (), w')" "mid_inv False (chan w)"
  shows "shell_inv (chan w')"
  using assms by (auto simp: finish_close_def result_iff mid_inv_def shell_inv_def)

lemma socket_input_inv:
  assumes "socket_input lib w = (Inr (), w')" "shell_inv (chan w)" "is_open (chan w)"
  shows "shell_inv (chan w')"
proof -
  from assms(1) obtain response w1 c w2 w3 where r: "receive_packet lib w = (Inr response, w1)"
    and d: "dispatch lib (response ! 0) response w1 = (Inr c, w2)"
    and a: "replenish_window lib c w2 = (Inr (), w3)" and f: "finish_close w3 = (Inr (), w')"
    by (auto simp: socket_input_def result_iff split: if_splits)
  have "chan w1 = chan w" using r by (rule chan_packets)
  with assms(2,3) dispatch_inv [OF d] replenish_window_inv [OF a] finish_close_inv [OF f] show ?thesis by simp
qed

lemma shell_iteration_inv:
  assumes "shell_iteration lib event w = (Inr (), w')" "shell_inv (chan w)" "is_open (chan w)"
  shows "shell_inv (chan w')"
proof (cases event)
  case (Poll_error e)
  with assms(1,2) show ?thesis by (auto simp: shell_iteration_def result_iff)
next
  case (Poll_ready k so er)
  with assms(1) obtain w1 where k: "(if k \<and> remote_window (chan w) > 0 then keyboard_input lib else returnC ()) w = (Inr (), w1)"
    and so: "(if so then socket_input lib else returnC ()) w1 = (Inr (), w')"
    by (auto simp: shell_iteration_def result_iff Let_def split: if_splits)
  have "shell_inv (chan w1) \<and> is_open (chan w1)"
    using k assms(2,3) keyboard_input_inv by (auto simp: result_iff split: if_splits)
  with so socket_input_inv show ?thesis by (auto simp: result_iff split: if_splits)
qed

lemma shell_loop_inv:
  "shell_loop lib events w = (Inr (), w') \<Longrightarrow> shell_inv (chan w) \<Longrightarrow> shell_inv (chan w') \<and> \<not> is_open (chan w')"
proof (induction events arbitrary: w)
  case Nil
  then show ?case by (auto split: if_splits)
next
  case (Cons event events)
  then show ?case
    by (cases "is_open (chan w)") (auto simp: result_iff dest: shell_iteration_inv)
qed

subsection \<open>Frame rules for the session\<close>

lemma keeps_case_poll [keeps_intro]:
  "(\<And>e. keeps I (m e)) \<Longrightarrow> (\<And>a b c. keeps I (m' a b c)) \<Longrightarrow>
     keeps I (case event of Poll_error e \<Rightarrow> m e | Poll_ready a b c \<Rightarrow> m' a b c)"
  by (cases event) auto

text \<open>Beyond packets and the console, the session touches its channel and the keyboard.\<close>

locale session_frame = packet_frame lib I for lib :: "'ctx crypto" and I :: "('ctx, 'x) session_scheme \<Rightarrow> bool" +
  assumes channel_keeps: "keeps I (set_chan c)"
    and keyboard_keeps: "keeps I (read_chunk n)"
begin

lemmas step_keeps = receive_keeps send_keeps print_keeps channel_keeps keyboard_keeps

lemma body_keeps:
  "keeps I (shell_iteration lib event)" "keeps I (open_response lib response)" "keeps I (request_response lib name response)"
  unfolding shell_iteration_def keyboard_input_code socket_input_def dispatch_def replenish_window_def
    finish_close_def open_response_def request_response_def handle_global_request_def Let_def
  by (intro keeps_intro step_keeps)+

lemma open_loop_keeps: "keeps I (open_loop lib)"
proof -
  have "lib' = lib \<Longrightarrow> I w \<Longrightarrow> I (snd (open_loop lib' w))" for lib' w
  proof (induction lib' w rule: open_loop.induct)
    case (1 lib' w)
    show ?case
    proof (cases "is_open (chan w)")
      case True
      with "1.prems" show ?thesis by (simp add: open_loop.simps [of lib w])
    next
      case False
      note IH = "1.IH" [OF False, unfolded \<open>lib' = lib\<close>]
      have "I (snd (bindC (receive_packet lib) (\<lambda>response. bindC (open_response lib response) (\<lambda>_ v. open_loop lib v)) w))"
        by (rule keeps_run_bind [OF receive_keeps "1.prems"(2)], rule keeps_run_bind [OF body_keeps(2)]) (auto intro: IH)
      with False \<open>lib' = lib\<close> show ?thesis by (simp add: open_loop.simps [of lib w])
    qed
  qed
  then show ?thesis by (simp add: keeps_def)
qed

lemma wait_keeps: "keeps I (wait_for_channel_request_result lib name)"
proof -
  have "lib' = lib \<Longrightarrow> I w \<Longrightarrow> I (snd (wait_for_channel_request_result lib' name w))" for lib' w
  proof (induction lib' name w rule: wait_for_channel_request_result.induct)
    case (1 lib' name w)
    note IH = "1.IH" [unfolded \<open>lib' = lib\<close>]
    show ?case unfolding \<open>lib' = lib\<close>
      by (subst wait_for_channel_request_result.simps, rule keeps_run_bind [OF receive_keeps "1.prems"(2)],
          rule keeps_run_bind [OF body_keeps(3)]) (auto intro: IH)
  qed
  then show ?thesis by (simp add: keeps_def)
qed

lemma shell_loop_keeps: "keeps I (shell_loop lib events)"
proof (induction events)
  case Nil
  then show ?case by (simp add: keeps_def)
next
  case (Cons event events)
  have "keeps I (bindC (shell_iteration lib event) (\<lambda>_. shell_loop lib events))"
    by (intro keeps_bindC body_keeps Cons)
  then show ?case by (simp add: keeps_def)
qed

lemma setup_keeps:
  "keeps I (open_session_channel lib)" "keeps I (request_pty lib info)" "keeps I (request_shell lib)"
  unfolding open_session_channel_def request_pty_def request_shell_def
  by (intro keeps_intro step_keeps open_loop_keeps wait_keeps)+

end

lemma keeps_channel_keyboard:
  assumes "\<And>w c. I w \<Longrightarrow> I (w\<lparr>chan := c\<rparr>)" "\<And>w q. I w \<Longrightarrow> I (w\<lparr>keyboard := q\<rparr>)"
  shows "keeps I (set_chan c)" "keeps I (read_chunk n)"
  using assms by (auto simp: keeps_def comp_simps read_chunk_def split: option.split read_result.split)

interpretation leak_session: session_frame lib "no_leak n" for lib n
  by unfold_locales (intro keeps_channel_keyboard; simp add: no_leak_def owned_def)+

interpretation descriptor_session: session_frame lib "\<lambda>w. closed_fds w = fds" for lib fds
  by unfold_locales (intro keeps_channel_keyboard; simp)+

interpretation mode_session: session_frame lib "saved_mode t" for lib t
  by unfold_locales (intro keeps_channel_keyboard; simp add: saved_mode_def)+

interpretation secured_session: session_frame lib "secured lib v" for lib v
  by unfold_locales (intro keeps_channel_keyboard; simp add: secured_def)+

subsection \<open>Memory safety\<close>

lemma safeC_read_chunk [safeC_intro]: "safeC (read_chunk n)"
  by (auto simp: safeC_def read_chunk_def split: option.splits read_result.splits)

lemma safeC_print [safeC_intro]: "safeC (print out)"
  by (simp add: safeC_def comp_simps)

lemma safeC_case_poll [safeC_intro]:
  "(\<And>e. safeC (m e)) \<Longrightarrow> (\<And>a b c. safeC (m' a b c)) \<Longrightarrow>
     safeC (case event of Poll_error e \<Rightarrow> m e | Poll_ready a b c \<Rightarrow> m' a b c)"
  by (cases event) auto

lemma safe_first: "response \<noteq> [] \<Longrightarrow> safe (at_index response 0)"
  by simp

lemma safeC_session_steps [safeC_intro]:
  "safeC (shell_iteration lib event)" "safeC (open_response lib response)" "safeC (request_response lib name response)"
  unfolding shell_iteration_def keyboard_input_code socket_input_def dispatch_def replenish_window_def
    finish_close_def open_response_def request_response_def handle_global_request_def Let_def
  by (intro safeC_intro safe_connection safe_first; assumption)+

lemma safeC_D: "safeC m \<Longrightarrow> m s = (Inl (Raised Memory_error), t) \<Longrightarrow> False"
  by (auto simp: safeC_def)

lemma safeC_open_loop [safeC_intro]: "safeC (open_loop lib)"
proof -
  have "fst (open_loop lib w) \<noteq> Inl (Raised Memory_error)" for w
  proof (induction lib w rule: open_loop.induct)
    case (1 lib w)
    then show ?case
      by (subst open_loop.simps)
         (auto simp: bindC_def split: prod.splits sum.splits
           dest: safeC_D [OF safeC_receive_packet] safeC_D [OF safeC_session_steps(2)])
  qed
  then show ?thesis unfolding safeC_def by (metis fst_conv)
qed

lemma safeC_wait_loop [safeC_intro]: "safeC (wait_for_channel_request_result lib name)"
proof -
  have "fst (wait_for_channel_request_result lib name w) \<noteq> Inl (Raised Memory_error)" for w
  proof (induction lib name w rule: wait_for_channel_request_result.induct)
    case (1 lib name w)
    then show ?case
      by (subst wait_for_channel_request_result.simps)
         (auto simp: bindC_def split: prod.splits sum.splits
           dest: safeC_D [OF safeC_receive_packet] safeC_D [OF safeC_session_steps(3)])
  qed
  then show ?thesis unfolding safeC_def by (metis fst_conv)
qed

lemma safeC_shell_loop [safeC_intro]: "safeC (shell_loop lib events)"
proof (induction events)
  case Nil
  then show ?case by (simp add: safeC_def)
next
  case (Cons event events)
  show ?case using safeC_bindC [OF safeC_session_steps(1) Cons.IH] by (simp add: safeC_def)
qed

lemma safeC_session_setup [safeC_intro]:
  "safeC (open_session_channel lib)" "safeC (request_pty lib info)" "safeC (request_shell lib)"
  unfolding open_session_channel_def request_pty_def request_shell_def
  by (intro safeC_intro safe_connection)+

subsection \<open>From the open request to the shell\<close>

definition setup_inv :: "Channel \<Rightarrow> bool" where
  "setup_inv ch \<longleftrightarrow> \<not> local_close_sent ch \<and> \<not> remote_close_received ch \<and>
     local_window ch = LOCAL_WINDOW_TARGET \<and> local_max_packet ch = LOCAL_MAX_PACKET_SIZE \<and>
     (is_open ch \<longrightarrow> MIN_MAX_PACKET_SIZE \<le> remote_max_packet ch)"

lemma setup_inv_initial: "setup_inv initial_channel"
  by (simp add: setup_inv_def initial_channel_def)

lemma setup_inv_shell: "setup_inv ch \<Longrightarrow> is_open ch \<Longrightarrow> shell_inv ch"
  by (simp add: setup_inv_def shell_inv_def session_consts)

lemma open_response_setup:
  assumes "open_response lib response w = (Inr (), w')" "setup_inv (chan w)"
  shows "setup_inv (chan w')"
  using assms
  by (auto simp: open_response_def result_iff parse_open_confirmation_eq split: if_splits
      dest!: chan_handle_global_request) (auto simp: setup_inv_def)

lemma open_loop_setup:
  "open_loop lib w = (Inr (), w') \<Longrightarrow> setup_inv (chan w) \<Longrightarrow> setup_inv (chan w') \<and> is_open (chan w')"
proof (induction lib w rule: open_loop.induct)
  case (1 lib w)
  show ?case
  proof (cases "is_open (chan w)")
    case True
    with "1.prems" show ?thesis by (simp add: open_loop.simps [of lib w])
  next
    case False
    with "1.prems"(1) obtain response w1 w2 where r: "receive_packet lib w = (Inr response, w1)"
      "open_response lib response w1 = (Inr (), w2)" "open_loop lib w2 = (Inr (), w')"
      by (auto simp: open_loop.simps [of lib w] result_iff)
    from "1.IH" [OF False r] open_response_setup [OF r(2)] chan_packets(2) [OF r(1)] "1.prems"(2) show ?thesis by simp
  qed
qed

lemma request_response_setup:
  assumes "request_response lib name response w = (Inr a, w')" "setup_inv (chan w)" "is_open (chan w)"
  shows "setup_inv (chan w') \<and> is_open (chan w')"
  using assms
  by (auto simp: request_response_def result_iff split: if_splits dest!: chan_handle_global_request)
     (auto simp: setup_inv_def)

lemma wait_loop_setup:
  "wait_for_channel_request_result lib name w = (Inr (), w') \<Longrightarrow> setup_inv (chan w) \<Longrightarrow> is_open (chan w) \<Longrightarrow>
     setup_inv (chan w') \<and> is_open (chan w')"
proof (induction lib name w rule: wait_for_channel_request_result.induct)
  case (1 lib name w)
  from "1.prems"(1) obtain response w1 a w2 where r: "receive_packet lib w = (Inr response, w1)"
    "request_response lib name response w1 = (Inr a, w2)"
    and c: "(if a then (Inr (), w2) else wait_for_channel_request_result lib name w2) = (Inr (), w')"
    by (auto simp: wait_for_channel_request_result.simps [of lib name w] result_iff)
  have i: "setup_inv (chan w2) \<and> is_open (chan w2)"
    using request_response_setup [OF r(2)] chan_packets(2) [OF r(1)] "1.prems" by simp
  with c "1.IH" [OF r] show ?case by (cases a) auto
qed

lemma requests_setup:
  assumes "setup_inv (chan w)" "is_open (chan w)"
  shows "request_pty lib info w = (Inr (), w') \<Longrightarrow> setup_inv (chan w') \<and> is_open (chan w')"
    and "request_shell lib w = (Inr (), w') \<Longrightarrow> setup_inv (chan w') \<and> is_open (chan w')"
  using assms
  by (auto simp: request_pty_def request_shell_def result_iff dest!: chan_packets(1) wait_loop_setup)

lemma open_session_setup:
  "chan w = initial_channel \<Longrightarrow> open_session_channel lib w = (Inr (), w') \<Longrightarrow> setup_inv (chan w') \<and> is_open (chan w')"
  by (auto simp: open_session_channel_def result_iff setup_inv_initial dest!: chan_packets(1) open_loop_setup)

text \<open>The states between two iterations of the shell loop.\<close>

inductive shell_reachable ::
  "posix \<Rightarrow> 'ctx crypto \<Rightarrow> ('ctx, 'x) session_scheme \<Rightarrow> ('ctx, 'x) session_scheme \<Rightarrow> bool"
  for os lib w0 where
  started: "open_session_channel lib w0 = (Inr (), w1) \<Longrightarrow>
    request_pty lib info w1 = (Inr (), w2) \<Longrightarrow> request_shell lib w2 = (Inr (), w3) \<Longrightarrow>
    enable_raw_mode os w3 = (Inr (), w4) \<Longrightarrow> shell_reachable os lib w0 w4"
| iterated: "shell_reachable os lib w0 w \<Longrightarrow> is_open (chan w) \<Longrightarrow>
    shell_iteration lib event w = (Inr (), w') \<Longrightarrow> shell_reachable os lib w0 w'"

lemma chan_enable_raw_mode: "enable_raw_mode os w = (r, w') \<Longrightarrow> chan w' = chan w"
  by (auto simp: enable_raw_mode_def bindC_def comp_simps Let_def split: if_splits)

lemma chan_restore: "restore os w = (r, w') \<Longrightarrow> chan w' = chan w"
  by (auto simp: restore_def bindC_def comp_simps Let_def split: if_splits)

lemma shell_reachable_inv:
  "shell_reachable os lib w0 w \<Longrightarrow> chan w0 = initial_channel \<Longrightarrow> shell_inv (chan w)"
proof (induction rule: shell_reachable.induct)
  case (started w1 info w2 w3 w4)
  from open_session_setup [OF started.prems started.hyps(1)] have "setup_inv (chan w1) \<and> is_open (chan w1)" .
  with requests_setup(1) [OF _ _ started.hyps(2)] have "setup_inv (chan w2) \<and> is_open (chan w2)" by blast
  with requests_setup(2) [OF _ _ started.hyps(3)] have "setup_inv (chan w3) \<and> is_open (chan w3)" by blast
  with chan_enable_raw_mode [OF started.hyps(4)] show ?case by (simp add: setup_inv_shell)
next
  case (iterated w event w')
  then show ?case using shell_iteration_inv by blast
qed

end
