(* ===== verification/SSH_Session_Script.thy ===== *)
theory SSH_Session_Script
  imports SSH_Session SSH_Script
begin

section \<open>Complete sessions\<close>

text \<open>
  The steps of a session against a server that follows the protocol: it opens the channel, accepts
  the requests, sends any amount of output and the exit status, and closes. The lemmas show that the
  client completes each step, and the properties state what a session guarantees.
\<close>

subsection \<open>A session against a scripted server\<close>

lemma scripted_chan [simp]: "scripted lib stream ps rest n (w\<lparr>chan := c\<rparr>) = scripted lib stream ps rest n w"
  by (simp add: scripted_def)

text \<open>The messages of the server: it confirms the channel, accepts the requests, sends output and closes.\<close>

definition confirmation :: "u32 \<Rightarrow> u32 \<Rightarrow> u32 \<Rightarrow> u32 \<Rightarrow> bytes" where
  "confirmation i sender window packet =
     CHANNEL_OPEN_CONFIRMATION # encode_uint32 i @ encode_uint32 sender @ encode_uint32 window @ encode_uint32 packet"

definition success :: "u32 \<Rightarrow> bytes" where "success i = CHANNEL_SUCCESS # encode_uint32 i"
definition data_message :: "u32 \<Rightarrow> bytes \<Rightarrow> bytes" where
  "data_message i d = CHANNEL_DATA # encode_uint32 i @ ssh_string d"
definition exit_message :: "u32 \<Rightarrow> u32 \<Rightarrow> bytes" where
  "exit_message i status = CHANNEL_REQUEST # encode_uint32 i @ text_field ''exit-status'' @ 0 # encode_uint32 status"
definition closing :: "u32 \<Rightarrow> bytes" where "closing i = CHANNEL_CLOSE # encode_uint32 i"

lemma scripted_step_receive:
  fixes w :: "('ctx, 'x) session_scheme"
  assumes "documented lib stream" "scripted lib stream (p # ps) rest n w"
  shows "\<exists>w'. receive_packet lib w = (Inr p, w') \<and> scripted lib stream ps rest n w' \<and> chan w' = chan w \<and> console w' = console w"
  using scripted_receive [OF assms] by fastforce

lemma scripted_step_send:
  fixes w :: "('ctx, 'x) session_scheme"
  assumes "documented lib stream" "scripted lib stream ps rest (Suc n) w" "sendable p"
  shows "\<exists>w'. send_packet lib p w = (Inr (), w') \<and> scripted lib stream ps rest n w' \<and> chan w' = chan w \<and> console w' = console w"
  using scripted_send [OF assms] by fastforce

definition opened :: "u32 \<Rightarrow> u32 \<Rightarrow> u32 \<Rightarrow> Channel" where
  "opened sender window packet =
     initial_channel\<lparr>remote_id := sender, remote_window := window, remote_max_packet := packet, is_open := True\<rparr>"

lemma opened_fields [simp]: "is_open (opened s x p)" "local_id (opened s x p) = 0" "remote_id (opened s x p) = s"
  "\<not> exit_status_received (opened s x p)" "setup_inv (opened s x p) \<longleftrightarrow> MIN_MAX_PACKET_SIZE \<le> p"
  by (simp_all add: opened_def initial_channel_def INITIAL_CHANNEL_ID_def setup_inv_def)

lemma scripted_open:
  fixes w :: "('ctx, 'x) session_scheme"
  assumes docs: "documented lib stream"
    and s: "scripted lib stream (confirmation 0 sender window packet # ps) rest (Suc n) w"
    and ch: "chan w = initial_channel" and m: "MIN_MAX_PACKET_SIZE \<le> packet"
  shows "\<exists>w'. open_session_channel lib w = (Inr (), w') \<and> scripted lib stream ps rest n w' \<and>
    chan w' = opened sender window packet \<and> console w' = console w"
proof -
  let ?c = "confirmation 0 sender window packet" and ?ch = "opened sender window packet"
  obtain p where p: "create_session_open initial_channel = Inr p" "sendable p"
    using create_requests_eq(1) [of initial_channel]
    by (simp add: initial_channel_def session_consts MIN_MAX_PACKET_SIZE_def sendable_def text_field_def)
  from scripted_step_send [OF docs s p(2)] obtain w1 where 1: "send_packet lib p w = (Inr (), w1)"
    "scripted lib stream (?c # ps) rest n w1" "chan w1 = chan w" "console w1 = console w" by blast
  from scripted_step_receive [OF docs 1(2)] obtain w2 where 2: "receive_packet lib w1 = (Inr ?c, w2)"
    "scripted lib stream ps rest n w2" "chan w2 = chan w1" "console w2 = console w1" by blast
  have "parse_open_confirmation ?c initial_channel = Inr ?ch"
    unfolding parse_open_confirmation_eq using m
    by (auto simp: confirmation_def opened_def initial_channel_def INITIAL_CHANNEL_ID_def)
  moreover have "?c \<noteq> []" "?c ! 0 = CHANNEL_OPEN_CONFIRMATION" by (simp_all add: confirmation_def)
  ultimately have 3: "open_response lib ?c w2 = (Inr (), w2\<lparr>chan := ?ch\<rparr>)"
    using 1(3) 2(3) ch by (simp add: open_response_def comp_simps)
  have "\<not> is_open (chan w1)" using 1(3) ch by (simp add: initial_channel_def)
  then have "open_loop lib w1 = (Inr (), w2\<lparr>chan := ?ch\<rparr>)"
    using 2(1) 3 by (simp add: open_loop.simps [of _ w1] open_loop.simps [of _ "w2\<lparr>chan := ?ch\<rparr>"] comp_simps)
  with 1 p(1) ch 2 show ?thesis
    by (intro exI [of _ "w2\<lparr>chan := ?ch\<rparr>"]) (simp add: open_session_channel_def comp_simps)
qed

lemma scripted_wait:
  fixes w :: "('ctx, 'x) session_scheme"
  assumes docs: "documented lib stream" and s: "scripted lib stream (success (local_id (chan w)) # ps) rest n w"
  shows "\<exists>w'. wait_for_channel_request_result lib name w = (Inr (), w') \<and> scripted lib stream ps rest n w' \<and>
    chan w' = chan w \<and> console w' = console w"
proof -
  let ?p = "success (local_id (chan w))"
  from scripted_step_receive [OF docs s] obtain w1 where 1: "receive_packet lib w = (Inr ?p, w1)"
    "scripted lib stream ps rest n w1" "chan w1 = chan w" "console w1 = console w" by blast
  have "validate_channel_success ?p (chan w) = Inr ()" by (simp add: validate_channel_reply_eq success_def)
  moreover have "?p \<noteq> []" "?p ! 0 = CHANNEL_SUCCESS" by (simp_all add: success_def)
  ultimately have "request_response lib name ?p w1 = (Inr True, w1)"
    using 1(3) by (simp add: request_response_def comp_simps)
  with 1 show ?thesis
    by (intro exI [of _ w1]) (simp add: wait_for_channel_request_result.simps [of _ _ w] comp_simps)
qed

lemma scripted_request_pty:
  fixes w :: "('ctx, 'x) session_scheme"
  assumes docs: "documented lib stream" and s: "scripted lib stream (success (local_id (chan w)) # ps) rest (Suc n) w"
    and ch: "is_open (chan w)"
    and i: "term_type info \<noteq> []" "columns info \<noteq> 0" "rows info \<noteq> 0" "length (term_type info) \<le> 1000"
  shows "\<exists>w'. request_pty lib info w = (Inr (), w') \<and> scripted lib stream ps rest n w' \<and> chan w' = chan w \<and> console w' = console w"
proof -
  obtain p where p: "create_pty_request (chan w) (term_type info) (columns info) (rows info) = Inr p" "sendable p"
    using create_requests_eq(3) [of "chan w" "term_type info" "columns info" "rows info"] ch i
    by (simp add: sendable_def uint32_max_def text_field_def)
  from scripted_step_send [OF docs s p(2)] obtain w1 where 1: "send_packet lib p w = (Inr (), w1)"
    "scripted lib stream (success (local_id (chan w)) # ps) rest n w1" "chan w1 = chan w" "console w1 = console w" by blast
  from scripted_wait [OF docs, of w1 ps rest n "''pty-req''"] 1 p show ?thesis
    by (auto simp: request_pty_def comp_simps)
qed

lemma scripted_request_shell:
  fixes w :: "('ctx, 'x) session_scheme"
  assumes docs: "documented lib stream" and s: "scripted lib stream (success (local_id (chan w)) # ps) rest (Suc n) w"
    and ch: "is_open (chan w)"
  shows "\<exists>w'. request_shell lib w = (Inr (), w') \<and> scripted lib stream ps rest n w' \<and> chan w' = chan w \<and> console w' = console w"
proof -
  obtain p where p: "create_shell_request (chan w) = Inr p" "sendable p"
    using create_requests_eq(4) [of "chan w"] ch by (simp add: sendable_def text_field_def)
  from scripted_step_send [OF docs s p(2)] obtain w1 where 1: "send_packet lib p w = (Inr (), w1)"
    "scripted lib stream (success (local_id (chan w)) # ps) rest n w1" "chan w1 = chan w" "console w1 = console w" by blast
  from scripted_wait [OF docs, of w1 ps rest n "''shell''"] 1 p show ?thesis
    by (auto simp: request_shell_def comp_simps)
qed

text \<open>One iteration of the shell loop in which only the socket is readable.\<close>

abbreviation socket_ready :: poll_event where "socket_ready \<equiv> Poll_ready False True False"

lemma iteration_socket:
  "shell_iteration lib socket_ready w = socket_input lib w"
  by (simp add: shell_iteration_def bindC_def comp_simps Let_def split: prod.splits sum.splits)

lemma socket_input_received:
  assumes "receive_packet lib w = (Inr p, w1)" "p \<noteq> []" "dispatch lib (p ! 0) p w1 = (Inr c, w2)"
    "replenish_window lib c w2 = (Inr (), w3)"
  shows "socket_input lib w = finish_close w3"
  using assms by (simp add: socket_input_def comp_simps)

lemma sendable_short [simp]: "sendable (m # encode_uint32 i @ encode_uint32 j)" "sendable (m # encode_uint32 i)"
  by (simp_all add: sendable_def)

text \<open>The window is granted again whenever it has fallen to the threshold, so output of any length flows.\<close>

lemma scripted_replenish:
  fixes w :: "('ctx, 'x) session_scheme"
  assumes docs: "documented lib stream" and s: "scripted lib stream ps rest (Suc n) w"
    and i: "mid_inv True (chan w)" "\<not> local_close_sent (chan w)"
  shows "\<exists>w' m win. replenish_window lib True w = (Inr (), w') \<and> scripted lib stream ps rest m w' \<and> n \<le> m \<and>
    chan w' = (chan w)\<lparr>local_window := win\<rparr> \<and> console w' = console w"
proof (cases "local_window (chan w) \<le> LOCAL_WINDOW_THRESHOLD")
  case False
  then have "replenish_window lib True w = (Inr (), w)" by (simp add: replenish_window_def comp_simps)
  with s show ?thesis by (intro exI [of _ w] exI [of _ "Suc n"] exI [of _ "local_window (chan w)"]) simp
next
  case True
  let ?d = "LOCAL_WINDOW_TARGET - local_window (chan w)"
  have o: "is_open (chan w)" using i by (simp add: mid_inv_def)
  obtain p where p: "create_window_adjust (chan w) ?d = Inr p" "sendable p"
    using window_difference [OF True] o create_messages_eq(1) [of "chan w" ?d] by auto
  from scripted_step_send [OF docs s p(2)] obtain w1 where 1: "send_packet lib p w = (Inr (), w1)"
    "scripted lib stream ps rest n w1" "chan w1 = chan w" "console w1 = console w" by blast
  let ?w = "w1\<lparr>chan := (chan w)\<lparr>local_window := local_window (chan w) + ?d\<rparr>\<rparr>"
  have "replenish_window lib True w = (Inr (), ?w)"
    using True o p 1 by (simp add: replenish_window_def comp_simps Let_def)
  with 1 show ?thesis by (intro exI [of _ ?w] exI [of _ n] exI [of _ "local_window (chan w) + ?d"]) simp
qed

lemma scripted_output:
  fixes w :: "('ctx, 'x) session_scheme"
  assumes docs: "documented lib stream"
    and s: "scripted lib stream (data_message (local_id (chan w)) d # ps) rest (Suc n) w"
    and i: "shell_inv (chan w)" "is_open (chan w)" and d: "length d \<le> 32768"
  shows "\<exists>w' m win. shell_iteration lib socket_ready w = (Inr (), w') \<and> scripted lib stream ps rest m w' \<and> n \<le> m \<and>
    chan w' = (chan w)\<lparr>local_window := win\<rparr> \<and> console w' = console w @ [Cout (string_of_bytes d)]"
proof -
  let ?p = "data_message (local_id (chan w)) d"
  let ?ch = "(chan w)\<lparr>local_window := local_window (chan w) - of_nat (length d)\<rparr>"
  from scripted_step_receive [OF docs s] obtain w1 where 1: "receive_packet lib w = (Inr ?p, w1)"
    "scripted lib stream ps rest (Suc n) w1" "chan w1 = chan w" "console w1 = console w" by blast
  have win: "length d \<le> unat (local_window (chan w))" "length d \<le> unat (local_max_packet (chan w))"
    using i d by (simp_all add: shell_inv_def session_consts word_less_nat_alt)
  have parse: "parse_channel_data ?p (chan w) = Inr (d, ?ch)"
    using i d win by (simp add: parse_channel_data_eq data_message_def string_fits_def uint32_max_def)
  define w2 where "w2 = w1\<lparr>chan := ?ch, console := console w1 @ [Cout (string_of_bytes d)]\<rparr>"
  have ne: "?p \<noteq> []" "?p ! 0 = CHANNEL_DATA" by (simp_all add: data_message_def)
  have 2: "dispatch lib (?p ! 0) ?p w1 = (Inr True, w2)"
    using parse 1(3) ne by (simp add: dispatch_def comp_simps w2_def)
  have i2: "mid_inv True (chan w2)" using dispatch_inv [OF 2] i 1(3) by simp
  have c2: "\<not> local_close_sent (chan w2)" using i by (simp add: w2_def shell_inv_def)
  have s2: "scripted lib stream ps rest (Suc n) w2" using 1(2) by (simp add: w2_def)
  from scripted_replenish [OF docs s2 i2 c2] obtain w3 m x where 3: "replenish_window lib True w2 = (Inr (), w3)"
    "scripted lib stream ps rest m w3" "n \<le> m" "chan w3 = (chan w2)\<lparr>local_window := x\<rparr>" "console w3 = console w2" by blast
  have "socket_input lib w = (Inr (), w3)"
    using socket_input_received [OF 1(1) ne(1) 2 3(1)] c2 3(4) by (simp add: finish_close_def comp_simps)
  with 1 3 show ?thesis
    by (intro exI [of _ w3] exI [of _ m] exI [of _ x]) (simp add: iteration_socket w2_def)
qed

lemma scripted_exit:
  fixes w :: "('ctx, 'x) session_scheme"
  assumes docs: "documented lib stream"
    and s: "scripted lib stream (exit_message (local_id (chan w)) status # ps) rest n w"
    and i: "shell_inv (chan w)" "is_open (chan w)" "\<not> exit_status_received (chan w)"
  shows "\<exists>w'. shell_iteration lib socket_ready w = (Inr (), w') \<and> scripted lib stream ps rest n w' \<and>
    chan w' = (chan w)\<lparr>exit_status := status, exit_status_received := True\<rparr> \<and> console w' = console w"
proof -
  let ?p = "exit_message (local_id (chan w)) status"
  let ?ch = "(chan w)\<lparr>exit_status := status, exit_status_received := True\<rparr>"
  from scripted_step_receive [OF docs s] obtain w1 where 1: "receive_packet lib w = (Inr ?p, w1)"
    "scripted lib stream ps rest n w1" "chan w1 = chan w" "console w1 = console w" by blast
  have parse: "parse_exit_status ?p (chan w) = Inr (\<lparr>ces_exit_status = status, ces_want_reply = False\<rparr>, ?ch)"
    using i by (simp add: parse_exit_status_eq exit_message_def)
  have ne: "?p \<noteq> []" "?p ! 0 = CHANNEL_REQUEST" by (simp_all add: exit_message_def)
  have 2: "dispatch lib (?p ! 0) ?p w1 = (Inr False, w1\<lparr>chan := ?ch\<rparr>)"
    using parse 1(3) ne by (simp add: dispatch_def comp_simps message_number_defs)
  have "socket_input lib w = (Inr (), w1\<lparr>chan := ?ch\<rparr>)"
    using socket_input_received [OF 1(1) ne(1) 2] i
    by (simp add: replenish_window_def finish_close_def comp_simps shell_inv_def)
  with 1 show ?thesis by (intro exI [of _ "w1\<lparr>chan := ?ch\<rparr>"]) (simp add: iteration_socket)
qed

lemma scripted_close:
  fixes w :: "('ctx, 'x) session_scheme"
  assumes docs: "documented lib stream"
    and s: "scripted lib stream (closing (local_id (chan w)) # ps) rest (Suc n) w"
    and i: "shell_inv (chan w)" "is_open (chan w)"
  shows "\<exists>w'. shell_iteration lib socket_ready w = (Inr (), w') \<and> scripted lib stream ps rest n w' \<and>
    chan w' = (chan w)\<lparr>remote_close_received := True, local_close_sent := True, is_open := False\<rparr> \<and> console w' = console w"
proof -
  let ?p = "closing (local_id (chan w))" and ?ch = "(chan w)\<lparr>remote_close_received := True\<rparr>"
  from scripted_step_receive [OF docs s] obtain w1 where 1: "receive_packet lib w = (Inr ?p, w1)"
    "scripted lib stream ps rest (Suc n) w1" "chan w1 = chan w" "console w1 = console w" by blast
  have parse: "parse_channel_close ?p (chan w) = Inr ?ch"
    using i by (simp add: parse_channel_close_eq closing_def shell_inv_def)
  obtain q where q: "create_channel_close ?ch = Inr q" "sendable q"
    using i create_messages_eq(3) [of ?ch] by (simp add: shell_inv_def)
  have s1: "scripted lib stream ps rest (Suc n) (w1\<lparr>chan := ?ch\<rparr>)" using 1(2) by simp
  from scripted_step_send [OF docs s1 q(2)] obtain w2 where 2: "send_packet lib q (w1\<lparr>chan := ?ch\<rparr>) = (Inr (), w2)"
    "scripted lib stream ps rest n w2" "chan w2 = ?ch" "console w2 = console w1" by auto
  have ne: "?p \<noteq> []" "?p ! 0 = CHANNEL_CLOSE" by (simp_all add: closing_def)
  have 3: "dispatch lib (?p ! 0) ?p w1 = (Inr False, w2\<lparr>chan := ?ch\<lparr>local_close_sent := True\<rparr>\<rparr>)"
    using parse 1(3) ne i q 2 by (simp add: dispatch_def comp_simps message_number_defs shell_inv_def)
  let ?w = "w2\<lparr>chan := (chan w)\<lparr>remote_close_received := True, local_close_sent := True, is_open := False\<rparr>\<rparr>"
  have "socket_input lib w = (Inr (), ?w)"
    using socket_input_received [OF 1(1) ne(1) 3] by (simp add: replenish_window_def finish_close_def comp_simps)
  with 1 2 show ?thesis by (intro exI [of _ ?w]) (simp add: iteration_socket)
qed


lemma shell_loop_step:
  "is_open (chan w) \<Longrightarrow> shell_iteration lib e w = (Inr (), w') \<Longrightarrow> shell_loop lib (e # es) w = shell_loop lib es w'"
  by (simp add: comp_simps)

lemma shell_inv_fields:
  "shell_inv ch \<Longrightarrow> is_open ch \<Longrightarrow> shell_inv (ch\<lparr>exit_status := s, exit_status_received := b\<rparr>)"
  by (simp add: shell_inv_def)

lemma scripted_outputs:
  fixes w :: "('ctx, 'x) session_scheme"
  assumes docs: "documented lib stream"
  shows "scripted lib stream (map (data_message (local_id (chan w))) ds @ ps) rest (length ds + n) w \<Longrightarrow>
    shell_inv (chan w) \<Longrightarrow> is_open (chan w) \<Longrightarrow> list_all (\<lambda>d. length d \<le> 32768) ds \<Longrightarrow>
    \<exists>w' m win. shell_loop lib (replicate (length ds) socket_ready @ events) w = shell_loop lib events w' \<and>
      scripted lib stream ps rest m w' \<and> n \<le> m \<and> chan w' = (chan w)\<lparr>local_window := win\<rparr> \<and> shell_inv (chan w') \<and>
      console w' = console w @ map (\<lambda>d. Cout (string_of_bytes d)) ds"
proof (induction ds arbitrary: w n)
  case Nil
  then show ?case by (intro exI [of _ w] exI [of _ n] exI [of _ "local_window (chan w)"]) simp
next
  case (Cons d ds)
  from Cons.prems have s: "scripted lib stream (data_message (local_id (chan w)) d # map (data_message (local_id (chan w))) ds @ ps)
      rest (Suc (length ds + n)) w" and d: "length d \<le> 32768" and ds: "list_all (\<lambda>d. length d \<le> 32768) ds" by auto
  from scripted_output [OF docs s Cons.prems(2,3) d] obtain w1 m x where 1:
    "shell_iteration lib socket_ready w = (Inr (), w1)"
    "scripted lib stream (map (data_message (local_id (chan w))) ds @ ps) rest m w1" "length ds + n \<le> m"
    "chan w1 = (chan w)\<lparr>local_window := x\<rparr>" "console w1 = console w @ [Cout (string_of_bytes d)]" by blast
  have i: "shell_inv (chan w1)" using shell_iteration_inv [OF 1(1) Cons.prems(2,3)] .
  have o: "is_open (chan w1)" using 1(4) Cons.prems(3) by simp
  have "scripted lib stream (map (data_message (local_id (chan w1))) ds @ ps) rest (length ds + (m - length ds)) w1"
    using 1(2,3,4) by simp
  from Cons.IH [OF this i o ds] obtain w' m' x' where 2:
    "shell_loop lib (replicate (length ds) socket_ready @ events) w1 = shell_loop lib events w'"
    "scripted lib stream ps rest m' w'" "m - length ds \<le> m'" "chan w' = (chan w1)\<lparr>local_window := x'\<rparr>" "shell_inv (chan w')"
    "console w' = console w1 @ map (\<lambda>d. Cout (string_of_bytes d)) ds" by blast
  have "shell_loop lib (replicate (length (d # ds)) socket_ready @ events) w = shell_loop lib events w'"
    using shell_loop_step [OF Cons.prems(3) 1(1), of "replicate (length ds) socket_ready @ events"] 2(1) by simp
  with 1 2 show ?case by (intro exI [of _ w'] exI [of _ m'] exI [of _ x']) auto
qed

lemma scripted_shell:
  fixes w :: "('ctx, 'x) session_scheme"
  assumes docs: "documented lib stream"
    and s: "scripted lib stream (map (data_message (local_id (chan w))) ds @
      [exit_message (local_id (chan w)) status, closing (local_id (chan w))]) rest (Suc (length ds + n)) w"
    and i: "shell_inv (chan w)" "is_open (chan w)" "\<not> exit_status_received (chan w)"
    and d: "list_all (\<lambda>d. length d \<le> 32768) ds"
  shows "\<exists>w'. shell_loop lib (replicate (length ds) socket_ready @ socket_ready # socket_ready # events) w = (Inr (), w') \<and>
    \<not> is_open (chan w') \<and> exit_status_received (chan w') \<and> exit_status (chan w') = status \<and>
    console w' = console w @ map (\<lambda>d. Cout (string_of_bytes d)) ds"
proof -
  let ?i = "local_id (chan w)"
  from scripted_outputs [OF docs, of w ds "[exit_message ?i status, closing ?i]" rest "Suc n" "socket_ready # socket_ready # events"]
    s i d obtain w1 m x where 1:
    "shell_loop lib (replicate (length ds) socket_ready @ socket_ready # socket_ready # events) w =
       shell_loop lib (socket_ready # socket_ready # events) w1"
    "scripted lib stream [exit_message ?i status, closing ?i] rest m w1" "Suc n \<le> m"
    "chan w1 = (chan w)\<lparr>local_window := x\<rparr>" "shell_inv (chan w1)"
    "console w1 = console w @ map (\<lambda>d. Cout (string_of_bytes d)) ds" by auto
  have o1: "is_open (chan w1)" using 1(4) i by simp
  from scripted_exit [OF docs, of w1 status "[closing ?i]" rest m] 1 i obtain w2 where 2:
    "shell_iteration lib socket_ready w1 = (Inr (), w2)" "scripted lib stream [closing ?i] rest m w2"
    "chan w2 = (chan w1)\<lparr>exit_status := status, exit_status_received := True\<rparr>" "console w2 = console w1" by auto
  have o2: "is_open (chan w2)" using 2(3) o1 by simp
  have "shell_inv (chan w2)" using 1(5) o1 2(3) by (simp add: shell_inv_fields)
  with scripted_close [OF docs, of w2 "[]" rest "m - 1"] 1 2 i obtain w3 where 3:
    "shell_iteration lib socket_ready w2 = (Inr (), w3)"
    "chan w3 = (chan w2)\<lparr>remote_close_received := True, local_close_sent := True, is_open := False\<rparr>"
    "console w3 = console w2" by auto
  have "shell_loop lib events w3 = (Inr (), w3)" using 3(2) by (cases events) simp_all
  then have "shell_loop lib (replicate (length ds) socket_ready @ socket_ready # socket_ready # events) w = (Inr (), w3)"
    using 1(1) shell_loop_step [OF o1 2(1)] shell_loop_step [OF o2 3(1)] by simp
  with 1 2 3 show ?thesis by (intro exI [of _ w3]) simp
qed

subsection \<open>Properties\<close>

text \<open>A session under the keys of the sample library, facing a script.\<close>

definition sample_session :: "bytes list \<Rightarrow> nat \<Rightarrow> nat session" where
  "sample_session ps n =
     \<lparr>rx = [Rx_data (wire sample_crypto (\<lambda>i. of_nat (0 + i)) 3 (replicate 32 1) ps)],
      tx_script = replicate n (Tx_accept 35032), tx = [],
      keyboard = [], cin = [], console = [], files = Map.empty, tty = tty idle_machine, tty_calls = 0,
      random_calls = 0, ctx_calls = 2, ctx_live = 2, closed_fds = [],
      original_settings = tty idle_machine, raw_mode_active = False,
      incoming_sequence = 3, outgoing_sequence = 3,
      outgoing_encryption_active = True, incoming_encryption_active = True,
      outgoing_cipher = Some 0, incoming_cipher = Some 0,
      outgoing_mac_key = replicate 32 1, incoming_mac_key = replicate 32 1, chan = initial_channel\<rparr>"

lemma scripted_sample_session:
  "list_all sendable ps \<Longrightarrow> scripted sample_crypto (\<lambda>c i. of_nat (c + i)) ps [] n (sample_session ps n)"
  by (cases "wire sample_crypto (\<lambda>i. of_nat (0 + i)) 3 (replicate 32 1) ps = []")
     (simp_all add: scripted_def sample_session_def)

lemma sendable_messages [simp]:
  "sendable (confirmation i s x p)" "sendable (success i)" "sendable (exit_message i st)" "sendable (closing i)"
  "sendable (data_message i d) \<longleftrightarrow> length d \<le> 34967"
  by (auto simp: sendable_def confirmation_def success_def exit_message_def closing_def data_message_def text_field_def
      ssh_string_def)

text \<open>A channel that the sample server has opened, with the window it granted.\<close>

lemma sample_setup:
  assumes "list_all sendable ps"
  shows "\<exists>w1 w2 w3. open_session_channel sample_crypto
      (sample_session (confirmation 0 7 100 32768 # success 0 # success 0 # ps) (Suc (Suc (Suc n)))) = (Inr (), w1) \<and>
    request_pty sample_crypto (get_terminal_info willing_posix) w1 = (Inr (), w2) \<and>
    request_shell sample_crypto w2 = (Inr (), w3) \<and>
    scripted sample_crypto (\<lambda>c i. of_nat (c + i)) ps [] n w3 \<and> chan w3 = opened 7 100 32768 \<and> console w3 = []"
proof -
  note docs = sample_documented
  let ?w = "sample_session (confirmation 0 7 100 32768 # success 0 # success 0 # ps) (Suc (Suc (Suc n)))"
  have s: "scripted sample_crypto (\<lambda>c i. of_nat (c + i)) (confirmation 0 7 100 32768 # success 0 # success 0 # ps) []
      (Suc (Suc (Suc n))) ?w" using assms by (intro scripted_sample_session) simp
  have ch: "chan ?w = initial_channel" "console ?w = []" by (simp_all add: sample_session_def)
  from scripted_open [OF docs s ch(1)] ch obtain w1 where 1: "open_session_channel sample_crypto ?w = (Inr (), w1)"
    "scripted sample_crypto (\<lambda>c i. of_nat (c + i)) (success 0 # success 0 # ps) [] (Suc (Suc n)) w1"
    "chan w1 = opened 7 100 32768" "console w1 = []" by (auto simp: MIN_MAX_PACKET_SIZE_def)
  let ?i = "get_terminal_info willing_posix"
  have i: "?i = \<lparr>term_type = ''xterm-256color'', columns = 120, rows = 40\<rparr>"
    by (simp add: get_terminal_info_def willing_posix_def DEFAULT_TERMINAL_TYPE_def Let_def)
  from scripted_request_pty [OF docs, of w1 "success 0 # ps" "[]" "Suc n" ?i] 1 obtain w2 where
    2: "request_pty sample_crypto ?i w1 = (Inr (), w2)"
    "scripted sample_crypto (\<lambda>c i. of_nat (c + i)) (success 0 # ps) [] (Suc n) w2"
    "chan w2 = opened 7 100 32768" "console w2 = []" by (auto simp: i)
  from scripted_request_shell [OF docs, of w2 ps "[]" n] 2 obtain w3 where
    3: "request_shell sample_crypto w2 = (Inr (), w3)"
    "scripted sample_crypto (\<lambda>c i. of_nat (c + i)) ps [] n w3"
    "chan w3 = opened 7 100 32768" "console w3 = []" by auto
  from 1 2 3 show ?thesis by blast
qed

text \<open>
  C11: Between any two iterations of the shell loop, from the opening of the channel on and whatever the
  server sends and the user types, either the channel is open, neither side has closed it, and the
  window granted to the server lies above half of its target and never above the target, or both sides
  have closed it. The server can therefore always send, and the client never grants more than it
  announced.
\<close>

theorem shell_invariant:
  assumes "shell_reachable os lib w0 w" and "chan w0 = initial_channel"
  shows "if is_open (chan w)
    then \<not> local_close_sent (chan w) \<and> \<not> remote_close_received (chan w) \<and>
      524288 < unat (local_window (chan w)) \<and> unat (local_window (chan w)) \<le> 1048576 \<and>
      unat (local_max_packet (chan w)) = 32768 \<and> 32768 \<le> unat (remote_max_packet (chan w))
    else local_close_sent (chan w) \<and> remote_close_received (chan w)"
  using shell_reachable_inv [OF assms]
  by (simp add: shell_inv_def session_consts MIN_MAX_PACKET_SIZE_def word_less_nat_alt word_le_nat_alt split: if_splits)

theorem shell_invariant_witness:
  "\<exists>w0 w :: nat session. shell_reachable willing_posix sample_crypto w0 w \<and> chan w0 = initial_channel \<and>
     is_open (chan w) \<and> 524288 < unat (local_window (chan w))"
proof -
  let ?w0 = "sample_session [confirmation 0 7 100 32768, success 0, success 0] (Suc (Suc (Suc 0)))"
  from sample_setup [of "[]" 0] obtain w1 w2 w3 where
    w: "open_session_channel sample_crypto ?w0 = (Inr (), w1)"
    "request_pty sample_crypto (get_terminal_info willing_posix) w1 = (Inr (), w2)"
    "request_shell sample_crypto w2 = (Inr (), w3)" "chan w3 = opened 7 100 32768" by auto
  from working_raw_mode(1) [OF willing_terminal, of w3] obtain w4 where 4: "enable_raw_mode willing_posix w3 = (Inr (), w4)" by blast
  have r: "shell_reachable willing_posix sample_crypto ?w0 w4" using w(1-3) 4 by (rule shell_reachable.started)
  have c: "chan ?w0 = initial_channel" by (simp add: sample_session_def)
  have o: "is_open (chan w4)" using chan_enable_raw_mode [OF 4] w(4) by simp
  from shell_invariant [OF r c] o have "524288 < unat (local_window (chan w4))" by simp
  with r c o show ?thesis by blast
qed

text \<open>
  C13: Keyboard input is sent within the limits that the server granted. Whenever the shell loop reads a
  non-empty chunk from the keyboard, the data message for it is created without an error, it is the
  one message sent, the chunk fits the remaining window and the packet size, and the window is
  reduced by its length without wrapping around.
\<close>

theorem keyboard_data_fits_window:
  assumes "shell_inv (chan w)" and "is_open (chan w)"
    and "recv_event (min (min KEYBOARD_BUFFER_SIZE (unat (remote_window (chan w)))) (unat (remote_max_packet (chan w))))
           (keyboard w) = Some (Got data, q)" and "data \<noteq> []"
  shows "create_channel_data (chan w) data =
      Inr (CHANNEL_DATA # encode_uint32 (remote_id (chan w)) @ ssh_string data) \<and>
    keyboard_input lib w =
      bindC (send_packet lib (CHANNEL_DATA # encode_uint32 (remote_id (chan w)) @ ssh_string data))
        (\<lambda>_. set_chan ((chan w)\<lparr>remote_window := remote_window (chan w) - of_nat (length data)\<rparr>))
        (w\<lparr>keyboard := q\<rparr>) \<and>
    length data \<le> 1024 \<and> length data \<le> unat (remote_max_packet (chan w)) \<and>
    unat (remote_window (chan w) - of_nat (length data)) + length data = unat (remote_window (chan w))"
proof -
  from recv_event_Got [OF assms(3,4)]
  have l: "length data \<le> KEYBOARD_BUFFER_SIZE" "length data \<le> unat (remote_window (chan w))"
    "length data \<le> unat (remote_max_packet (chan w))" by simp_all
  have c: "create_channel_data (chan w) data = Inr (CHANNEL_DATA # encode_uint32 (remote_id (chan w)) @ ssh_string data)"
    using assms(1,2,4) l by (simp add: create_messages_eq shell_inv_def)
  moreover have "read_chunk (min (min KEYBOARD_BUFFER_SIZE (unat (remote_window (chan w)))) (unat (remote_max_packet (chan w)))) w =
      (Inr (Some data), w\<lparr>keyboard := q\<rparr>)" using assms(3) by (simp add: read_chunk_def)
  ultimately have "keyboard_input lib w =
      bindC (send_packet lib (CHANNEL_DATA # encode_uint32 (remote_id (chan w)) @ ssh_string data))
        (\<lambda>_. set_chan ((chan w)\<lparr>remote_window := remote_window (chan w) - of_nat (length data)\<rparr>))
        (w\<lparr>keyboard := q\<rparr>)"
    using assms(4) by (simp add: keyboard_input_code comp_simps Let_def)
  with c l show ?thesis by (simp add: unat_minus_of_nat KEYBOARD_BUFFER_SIZE_def)
qed

theorem keyboard_data_fits_window_witness:
  "\<exists>w :: nat session. shell_inv (chan w) \<and> is_open (chan w) \<and> keyboard w = [Rx_data (replicate 150 65)] \<and>
     create_channel_data (chan w) (replicate 100 65) =
       Inr (CHANNEL_DATA # encode_uint32 7 @ ssh_string (replicate 100 65)) \<and>
     unat (remote_window (chan w) - of_nat 100) + 100 = unat (remote_window (chan w))"
proof -
  let ?w = "sample_session [] 0\<lparr>keyboard := [Rx_data (replicate 150 65)], chan := opened 7 100 32768\<rparr>"
  have i: "shell_inv (chan ?w)" "is_open (chan ?w)" by (simp_all add: setup_inv_shell MIN_MAX_PACKET_SIZE_def)
  have r: "recv_event (min (min KEYBOARD_BUFFER_SIZE (unat (remote_window (chan ?w)))) (unat (remote_max_packet (chan ?w))))
      (keyboard ?w) = Some (Got (replicate 100 65), [Rx_data (replicate 50 65)])"
    by (simp add: KEYBOARD_BUFFER_SIZE_def opened_def)
  have "replicate 100 65 \<noteq> ([] :: bytes)" by simp
  from keyboard_data_fits_window [OF i r this, of sample_crypto] i show ?thesis
    by (intro exI [of _ ?w]) simp
qed



end
