(* ===== verification/SSH_Main.thy ===== *)
theory SSH_Main
  imports SSH_Client_Script SSH_Session_Script
begin

section \<open>The program (\<open>main.cpp\<close>, lines 447 to 499)\<close>

text \<open>
  \<open>run_connection_session\<close> and \<open>main\<close>. The scopes of the local objects \<open>sock\<close>, \<open>transport\<close> and \<open>terminal\<close>
  are \<open>unwind\<close> blocks around what follows their construction, so their destructors run in the
  reverse order on a return as on an exception. The lemmas carry memory safety and the invariants of
  the resources through these scopes, up to \<open>main\<close>.
\<close>

definition run_connection_session ::
  "posix \<Rightarrow> 'ctx crypto \<Rightarrow> poll_event list \<Rightarrow> (('ctx, 'x) session_scheme, unit) comp" where
  "run_connection_session os lib events =
     bindC (set_chan initial_channel) (\<lambda>_.
     bindC (open_session_channel lib) (\<lambda>_.
     let terminal_info = get_terminal_info os in
     bindC (request_pty lib terminal_info) (\<lambda>_.
     bindC (request_shell lib) (\<lambda>_.
     bindC (run_interactive_shell os lib events) (\<lambda>_.
     bindC (getsC chan) (\<lambda>channel.
     if exit_status_received channel
     then print (Cout (CHR ''\<newline>'' # ''Remote exit status: '' @ to_string (unat (exit_status channel)) @ [CHR ''\<newline>'']))
     else returnC ()))))))"

text \<open>The body of the \<open>try\<close> block.\<close>

definition main_body ::
  "posix \<Rightarrow> 'ctx crypto \<Rightarrow> poll_event list \<Rightarrow> string list \<Rightarrow> (('ctx, 'x) session_scheme, unit) comp" where
  "main_body os lib events argv =
     bindC (liftE (parse_client_config argv)) (\<lambda>config.
     let host_identifier = known_host_identifier config in
     if sodium_init lib = -1 then raiseC ''Sodium could not be initialised''
     else case getenv os ''HOME'' of
       None \<Rightarrow> raiseC ''HOME environment variable could not be accessed''
     | Some home_directory \<Rightarrow>
         let known_hosts = home_directory @ known_hosts_relative_path config in
         bindC (Socket os (hostname config) (to_string (unat (port config)))) (\<lambda>sock.
         unwind
           (bindC (exchange_identification (identification config)) (\<lambda>ident.
            bindC Transport (\<lambda>_.
            unwind
              (bindC (perform_key_exchange os lib ident known_hosts host_identifier) (\<lambda>_.
               bindC Terminal (\<lambda>_.
               unwind
                 (bindC (authenticate_user os lib (username config)) (\<lambda>_.
                  run_connection_session os lib events))
                 (destroy_terminal os))))
              destroy_transport)))
           (destroy_socket sock)))"

definition what :: "posix \<Rightarrow> exn \<Rightarrow> string" where
  "what os e = (case e of
     Runtime_error msg \<Rightarrow> msg
   | System_error n \<Rightarrow> strerror os n
   | Filesystem_error \<Rightarrow> filesystem_error_what os
   | Memory_error \<Rightarrow> [])"

text \<open>\<open>main\<close>: every exception is reported; undefined behaviour and a signal are not exceptions.\<close>

definition main ::
  "posix \<Rightarrow> 'ctx crypto \<Rightarrow> poll_event list \<Rightarrow> string list \<Rightarrow> (('ctx, 'x) session_scheme, int) comp" where
  "main os lib events argv w =
     (case main_body os lib events argv w of
        (Inr _, w') \<Rightarrow> (Inr 0, w')
      | (Inl (Raised Memory_error), w') \<Rightarrow> (Inl (Raised Memory_error), w')
      | (Inl (Raised e), w') \<Rightarrow>
          bindC (print (Cerr (''Error: '' @ what os e @ [CHR ''\<newline>'']))) (\<lambda>_. returnC 1) w'
      | (Inl Blocked, w') \<Rightarrow> (Inl Blocked, w')
      | (Inl Killed, w') \<Rightarrow> (Inl Killed, w'))"

subsection \<open>Resources\<close>

lemma keeps_hidden_input:
  assumes "\<And>w out. I w \<Longrightarrow> I (w\<lparr>console := console w @ [out]\<rparr>)" "\<And>w k. I w \<Longrightarrow> I (w\<lparr>tty_calls := k\<rparr>)"
    "\<And>w t. I w \<Longrightarrow> I (w\<lparr>tty := t\<rparr>)" "\<And>w ls l. I w \<Longrightarrow> I (w\<lparr>cin := ls, console := console w @ echo (tty w) l\<rparr>)"
  shows "keeps I (read_hidden_input os prompt)"
  unfolding read_hidden_input_def tcgetattr_def tcsetattr_def Let_def
  by (intro keeps_intro keeps_print keeps_getline assms)

lemma hidden_input_mode:
  assumes "settable os"
  shows "keeps (saved_mode t) (read_hidden_input os prompt)"
  using assms
  by (auto simp: keeps_def saved_mode_def read_hidden_input_def bindC_def comp_simps settable_def Let_def split: list.splits)

lemma keeps_raw_mode:
  assumes "\<And>w k. I w \<Longrightarrow> I (w\<lparr>tty_calls := k\<rparr>)" "\<And>w t. I w \<Longrightarrow> I (w\<lparr>tty := t\<rparr>)"
    "\<And>w t. I w \<Longrightarrow> I (w\<lparr>original_settings := t\<rparr>)" "\<And>w b. I w \<Longrightarrow> I (w\<lparr>raw_mode_active := b\<rparr>)"
  shows "keeps I (enable_raw_mode os)" "keeps I (restore os)" "keeps I (destroy_terminal os)"
  unfolding enable_raw_mode_def restore_def destroy_terminal_def tcgetattr_def tcsetattr_def Let_def
  by (intro keeps_intro assms; assumption)+

context session_frame
begin

lemma session_keeps:
  "keeps I (enable_raw_mode os) \<Longrightarrow> keeps I (restore os) \<Longrightarrow> keeps I (run_connection_session os lib events)"
  unfolding run_connection_session_def run_interactive_shell_def Let_def
  by (intro keeps_intro step_keeps setup_keeps shell_loop_keeps)

end

lemma login_and_session_mode:
  "settable os \<Longrightarrow> keeps (saved_mode t) (bindC (authenticate_user os lib user) (\<lambda>_. run_connection_session os lib events))"
  by (intro keeps_bindC mode_frame.authenticate_keeps mode_session.session_keeps hidden_input_mode
      raw_mode.enter_keeps raw_mode.leave_keeps)

lemma login_and_session_keeps:
  assumes "session_frame lib I"
    and "\<And>w k. I w \<Longrightarrow> I (w\<lparr>tty_calls := k\<rparr>)" "\<And>w t. I w \<Longrightarrow> I (w\<lparr>tty := t\<rparr>)" "\<And>w ls l. I w \<Longrightarrow> I (w\<lparr>cin := ls, console := console w @ echo (tty w) l\<rparr>)"
    "\<And>w t. I w \<Longrightarrow> I (w\<lparr>original_settings := t\<rparr>)" "\<And>w b. I w \<Longrightarrow> I (w\<lparr>raw_mode_active := b\<rparr>)"
    "\<And>w out. I w \<Longrightarrow> I (w\<lparr>console := console w @ [out]\<rparr>)"
  shows "keeps I (bindC (authenticate_user os lib user) (\<lambda>_. run_connection_session os lib events))"
  by (intro keeps_bindC packet_frame.authenticate_keeps [OF session_frame.axioms(1)] session_frame.session_keeps
      keeps_hidden_input keeps_raw_mode assms)

text \<open>The scopes of the three local objects of \<open>main\<close>, from the inside out.\<close>

definition terminal_scope ::
  "posix \<Rightarrow> 'ctx crypto \<Rightarrow> poll_event list \<Rightarrow> string \<Rightarrow> (('ctx, 'x) session_scheme, unit) comp" where
  "terminal_scope os lib events user =
     bindC Terminal (\<lambda>_. unwind (bindC (authenticate_user os lib user) (\<lambda>_. run_connection_session os lib events))
       (destroy_terminal os))"

definition transport_scope ::
  "posix \<Rightarrow> 'ctx crypto \<Rightarrow> poll_event list \<Rightarrow> ClientConfig \<Rightarrow> string \<Rightarrow> IdentificationExchange \<Rightarrow> (('ctx, 'x) session_scheme, unit) comp" where
  "transport_scope os lib events config path ident =
     bindC Transport (\<lambda>_. unwind
       (bindC (perform_key_exchange os lib ident path (known_host_identifier config)) (\<lambda>_.
        terminal_scope os lib events (username config))) destroy_transport)"

definition socket_scope ::
  "posix \<Rightarrow> 'ctx crypto \<Rightarrow> poll_event list \<Rightarrow> ClientConfig \<Rightarrow> string \<Rightarrow> (('ctx, 'x) session_scheme, unit) comp" where
  "socket_scope os lib events config path =
     bindC (Socket os (hostname config) (to_string (unat (port config)))) (\<lambda>sock. unwind
       (bindC (exchange_identification (identification config)) (\<lambda>ident.
        transport_scope os lib events config path ident)) (destroy_socket sock))"

lemma main_body_scopes:
  "main_body os lib events argv =
     bindC (liftE (parse_client_config argv)) (\<lambda>config.
     if sodium_init lib = -1 then raiseC ''Sodium could not be initialised''
     else case getenv os ''HOME'' of
       None \<Rightarrow> raiseC ''HOME environment variable could not be accessed''
     | Some home_directory \<Rightarrow> socket_scope os lib events config (home_directory @ known_hosts_relative_path config))"
  unfolding main_body_def socket_scope_def transport_scope_def terminal_scope_def Let_def ..

lemma terminal_scope_mode:
  assumes "settable os"
  shows "settles (\<lambda>w. tty w = t) (terminal_scope os lib events user) (\<lambda>w. tty w = t)"
  unfolding terminal_scope_def Terminal_def
proof (rule settles_modifyC [where P' = "saved_mode t"])
  show "settles (saved_mode t) (unwind (bindC (authenticate_user os lib user) (\<lambda>_. run_connection_session os lib events))
      (destroy_terminal os)) (\<lambda>w. tty w = t)"
    by (rule settles_unwind [OF settles_keeps [OF login_and_session_mode [OF assms]]])
       (use assms in \<open>simp add: raw_mode.destroy_device\<close>)
qed (simp add: saved_mode_def)

lemma snd_destroy [simp]:
  "tty (snd (destroy_transport w)) = tty w" "closed_fds (snd (destroy_transport w)) = closed_fds w"
  "tty (snd (destroy_socket sock w)) = tty w" "ctx_live (snd (destroy_socket sock w)) = ctx_live w"
  "closed_fds (snd (destroy_socket sock w)) = closed_fds w @ (if fd sock = -1 then [] else [fd sock])"
  by (auto simp: destroy_transport_def destroy_socket_def close_def ctx_free_def bindC_def comp_simps split: option.splits)

lemma transport_scope_mode:
  assumes "settable os"
  shows "settles (\<lambda>w. tty w = t) (transport_scope os lib events config path ident) (\<lambda>w. tty w = t)"
  unfolding transport_scope_def Transport_def
  by (rule settles_modifyC [where P' = "\<lambda>w. tty w = t"], simp, rule settles_unwind [where I = "\<lambda>w. tty w = t"],
      rule settles_bindC [OF device_handshake.key_exchange_keeps terminal_scope_mode [OF assms]]) simp

lemma transport_scope_contexts:
  "settles (\<lambda>w. ctx_live w = n) (transport_scope os lib events config path ident) (\<lambda>w. ctx_live w = n)"
  unfolding transport_scope_def Transport_def
proof (rule settles_modifyC [where P' = "no_leak n"])
  have "keeps (no_leak n) (terminal_scope os lib events user)" for user
    unfolding terminal_scope_def Terminal_def
    by (intro keeps_intro keeps_raw_mode login_and_session_keeps leak_session.session_frame_axioms)
       (simp_all add: no_leak_def owned_def)
  then show "settles (no_leak n) (unwind (bindC (perform_key_exchange os lib ident path (known_host_identifier config))
      (\<lambda>_. terminal_scope os lib events (username config))) destroy_transport) (\<lambda>w. ctx_live w = n)"
    by (intro settles_unwind [where I = "no_leak n"] settles_keeps keeps_bindC leak_handshake.key_exchange_keeps)
       (simp_all add: destroy_transport_releases)
qed (simp add: no_leak_def owned_def)

lemma keeps_closed_transport_scope: "keeps (\<lambda>w. closed_fds w = fds) (transport_scope os lib events config path ident)"
proof -
  have d: "keeps (\<lambda>w. closed_fds w = fds) destroy_transport"
    by (auto simp: keeps_def)
  show ?thesis
    unfolding transport_scope_def Transport_def terminal_scope_def Terminal_def
    by (intro keeps_intro keeps_raw_mode login_and_session_keeps descriptor_session.session_frame_axioms
        descriptor_handshake.key_exchange_keeps d) simp_all
qed

lemma socket_scope_settles:
  assumes "\<And>sock ident. settles I (transport_scope os lib events config path ident) I"
    and "\<And>w q. I w \<Longrightarrow> I (w\<lparr>rx := q\<rparr>)" "\<And>w d q. I w \<Longrightarrow> I (w\<lparr>tx := tx w @ d, tx_script := q\<rparr>)"
    "\<And>w fds. I w \<Longrightarrow> I (w\<lparr>closed_fds := fds\<rparr>)"
  shows "settles I (socket_scope os lib events config path) I"
proof -
  have d: "I (snd (destroy_socket sock w))" if "I w" for sock w
    using that assms(4) by (auto simp: destroy_socket_def close_def bindC_def comp_simps)
  have s: "keeps I (Socket os h p)" for h p
    unfolding Socket_def close_def Let_def by (intro keeps_intro assms)
  show ?thesis unfolding socket_scope_def
    by (intro settles_bindC s settles_unwind [where I = I] keeps_identification assms d)
qed

lemma socket_scope_descriptors:
  "settles (\<lambda>w. closed_fds w = fds) (socket_scope os lib events config path)
     (\<lambda>w. closed_fds w = fds @ (if sys_socket os = -1 then [] else [sys_socket os]))"
  unfolding settles_def
proof (intro allI impI)
  fix s r t
  assume i: "closed_fds s = fds" and m: "socket_scope os lib events config path s = (r, t)" and b: "\<not> halted r"
  have k: "keeps (\<lambda>w. closed_fds w = fds) (bindC (exchange_identification (identification config))
      (\<lambda>ident. transport_scope os lib events config path ident))"
    by (intro keeps_bindC keeps_identification keeps_closed_transport_scope) simp_all
  show "closed_fds t = fds @ (if sys_socket os = -1 then [] else [sys_socket os])"
    using m b i keeps_snd [OF k i]
    by (auto simp: socket_scope_def Socket_def create_def close_def comp_simps Let_def unwind_def split: if_splits prod.splits)
qed

subsection \<open>Memory safety\<close>

lemma safeC_machine [safeC_intro]:
  "safeC getline_cin" "safeC (tcgetattr os)" "safeC (tcsetattr os t)" "safeC (ctx_new lib)" "safeC (ctx_free x)"
  "safeC Transport" "safeC Terminal"
  unfolding ctx_new_def ctx_free_def Transport_def Terminal_def
  by (auto simp: safeC_def comp_simps bindC_def split: list.splits option.splits if_splits)

lemma safeC_terminal [safeC_intro]:
  "safeC (read_hidden_input os prompt)" "safeC (enable_raw_mode os)" "safeC (restore os)"
  unfolding read_hidden_input_def enable_raw_mode_def restore_def Let_def by (intro safeC_intro)+

lemma safeC_Socket [safeC_intro]: "safeC (Socket os h p)"
  unfolding Socket_def close_def Let_def by (intro safeC_intro)

lemma safeC_enable [safeC_intro]:
  "safeC (enable_outgoing_encryption lib iv ekey mac)" "safeC (enable_incoming_encryption lib iv ekey mac)"
  unfolding enable_outgoing_encryption_def enable_incoming_encryption_def Let_def by (intro safeC_intro)+

lemma safeC_filesystem [safeC_intro]: "safeC (stopC (Raised Filesystem_error))"
  by (simp add: safeC_def comp_simps)

lemma safe_encode_base64 [simp]: "safe (encode_base64 lib key)"
  by (simp add: encode_base64_def split: option.split)

lemma safeC_add [safeC_intro]: "safeC (add os lib path h a key)"
  unfolding add_def Let_def by (intro safeC_intro safe_check safe_encode_base64)

lemma safeC_decide_host_key [safeC_intro]: "safeC (decide_host_key os lib path h a key)"
  unfolding decide_host_key_def Let_def by (intro safeC_intro safe_check)

lemma safeC_read_version [safeC_intro]: "safeC (read_version_loop version)"
proof -
  have "fst (read_version_loop version w) \<noteq> Inl (Raised Memory_error)" for w
  proof (induction version w rule: read_version_loop.induct)
    case (1 version w)
    then show ?case
      by (subst read_version_loop.simps)
         (auto simp: bindC_def comp_simps at_index_def split: prod.splits sum.splits if_splits
           dest: safeC_D [OF safeC_read_exact] dest!: read_exact_Inr)
  qed
  then show ?thesis unfolding safeC_def by (metis fst_conv)
qed

lemma safeC_identification [safeC_intro]: "safeC (exchange_identification v)"
  unfolding exchange_identification_def read_version_def Let_def by (intro safeC_intro)

lemma safeC_key_exchange [safeC_intro]: "safeC (perform_key_exchange os lib ident path host)"
  unfolding perform_key_exchange_def send_kexinit_def receive_kexinit_def create_client_kexinit_def
    create_curve25519_keypair_def Let_def
  by (intro safeC_intro safe_first) (auto simp: NEWKEYS_PAYLOAD_SIZE_def)

lemma safeC_authenticate [safeC_intro]: "safeC (authenticate_user os lib user)"
  unfolding authenticate_user_def by (intro safeC_intro safe_auth safe_first)

lemma safeC_session [safeC_intro]: "safeC (run_connection_session os lib events)"
  unfolding run_connection_session_def run_interactive_shell_def Let_def by (intro safeC_intro)

lemma safeC_main_body: "safeC (main_body os lib events argv)"
  unfolding main_body_def Let_def
  by (intro safeC_intro) (auto simp: parse_client_config_def safe_def Let_def split: option.splits if_splits prod.splits)


subsection \<open>Resources of a run\<close>

lemma main_settles:
  assumes "settles P (main_body os lib events argv) Q" "\<And>w out. Q w \<Longrightarrow> Q (w\<lparr>console := out\<rparr>)"
  shows "settles P (main os lib events argv) Q"
  unfolding settles_def
proof (intro allI impI)
  fix s r t
  assume p: "P s" and m: "main os lib events argv s = (r, t)" and b: "\<not> halted r"
  obtain r1 w1 where mb: "main_body os lib events argv s = (r1, w1)" by (cases "main_body os lib events argv s")
  with m b have "\<not> halted r1" by (auto simp: main_def halted_def)
  with settlesD [OF assms(1) p mb] have "Q w1" .
  then show "Q t" using m mb assms(2) by (auto simp: main_def comp_simps split: sum.splits stop.splits exn.splits)
qed

lemma main_body_settles:
  assumes "\<And>config path. settles I (socket_scope os lib events config path) I"
  shows "settles I (main_body os lib events argv) I"
  unfolding main_body_scopes
  by (intro settles_bindC keeps_liftE) (auto split: option.split intro: assms settles_keeps keeps_stopC)

definition connects :: "posix \<Rightarrow> 'ctx crypto \<Rightarrow> string list \<Rightarrow> bool" where
  "connects os lib argv \<longleftrightarrow>
     (\<exists>config. parse_client_config argv = Inr config) \<and> sodium_init lib \<noteq> -1 \<and> getenv os ''HOME'' \<noteq> None \<and> sys_socket os \<noteq> -1"

lemma main_body_descriptors:
  "settles (\<lambda>w. closed_fds w = fds) (main_body os lib events argv)
     (\<lambda>w. closed_fds w = fds @ (if connects os lib argv then [sys_socket os] else []))"
proof (cases "parse_client_config argv")
  case (Inl e)
  then show ?thesis by (auto simp: settles_def main_body_scopes comp_simps connects_def)
next
  case (Inr config)
  show ?thesis
  proof (cases "sodium_init lib = -1 \<or> getenv os ''HOME'' = None")
    case True
    with Inr show ?thesis by (auto simp: settles_def main_body_scopes comp_simps connects_def)
  next
    case False
    then obtain home where h: "getenv os ''HOME'' = Some home" by auto
    show ?thesis unfolding settles_def
    proof (intro allI impI)
      fix s r t
      assume a: "closed_fds s = fds" "main_body os lib events argv s = (r, t)" "\<not> halted r"
      from a(2) Inr False h have "socket_scope os lib events config (home @ known_hosts_relative_path config) s = (r, t)"
        by (simp add: main_body_scopes comp_simps)
      from settlesD [OF socket_scope_descriptors a(1) this a(3)] Inr False h
      show "closed_fds t = fds @ (if connects os lib argv then [sys_socket os] else [])" by (simp add: connects_def)
    qed
  qed
qed

subsection \<open>When the password is asked for\<close>

abbreviation prompted :: "'x machine_scheme \<Rightarrow> bool" where
  "prompted w \<equiv> Cout ''Password: '' \<in> set (console w)"

lemma key_exchange_no_prompt: "keeps (\<lambda>w. \<not> prompted w) (perform_key_exchange os lib ident path host)"
  unfolding perform_key_exchange_def send_kexinit_def receive_kexinit_def create_client_kexinit_def
    create_curve25519_keypair_def decide_host_key_def Let_def
  by (intro keeps_intro keeps_print keeps_receive_packet keeps_send_packet keeps_random_bytes keeps_getline keeps_add keeps_enable)
     (simp_all add: echo_def)

text \<open>From the end of the key exchange to the end of the run, the connection stays secured.\<close>

lemma terminal_scope_secured: "keeps (secured lib v) (terminal_scope os lib events user)"
  unfolding terminal_scope_def Terminal_def
  by (intro keeps_intro keeps_raw_mode login_and_session_keeps secured_session.session_frame_axioms) simp_all

lemma destroy_secured: "keeps (secured lib v) destroy_transport" "keeps (secured lib v) (destroy_socket sock)"
  unfolding destroy_transport_def destroy_socket_def close_def ctx_free_def by (intro keeps_intro; simp)+

lemma console_destroy [simp]:
  "console (snd (destroy_transport w)) = console w" "console (snd (destroy_socket sock w)) = console w"
  by (auto simp: destroy_transport_def destroy_socket_def close_def ctx_free_def bindC_def comp_simps split: option.splits)

lemma keyed_secured: "keyed lib keys v \<Longrightarrow> secured lib v v"
  by (auto simp: keyed_def intro: secured_start)

lemma transport_scope_prompt:
  fixes w :: "('ctx, 'x) session_scheme"
  assumes "transport_scope os lib events config path ident w = (r, w')" "\<not> prompted w" "prompted w'"
  shows "\<exists>u v :: ('ctx, 'x) session_scheme. Transport w = (Inr (), u) \<and> files u = files w \<and> cin u = cin w \<and>
    perform_key_exchange os lib ident path (known_host_identifier config) u = (Inr (), v) \<and> \<not> prompted v \<and> secured lib v w'"
proof -
  obtain u where u: "Transport w = (Inr (), u)" "files u = files w" "cin u = cin w" "console u = console w"
    by (simp add: Transport_def comp_simps)
  obtain r1 v where k: "perform_key_exchange os lib ident path (known_host_identifier config) u = (r1, v)" by fastforce
  have n: "\<not> prompted v" using keepsD [OF key_exchange_no_prompt k] assms(2) u by simp
  from assms(1) u(1) have m: "unwind (bindC (perform_key_exchange os lib ident path (known_host_identifier config)) (\<lambda>_.
      terminal_scope os lib events (username config))) destroy_transport u = (r, w')"
    by (simp add: transport_scope_def comp_simps)
  have r1: "r1 = Inr ()"
  proof (cases r1)
    case (Inl e)
    with m k n assms(3) show ?thesis by (auto simp: unwind_def bindC_def split: if_splits)
  qed simp
  from key_exchange_result [OF k [unfolded r1]] have "secured lib v v" by (blast intro: keyed_secured)
  from keeps_snd [OF terminal_scope_secured this] have t: "secured lib v (snd (terminal_scope os lib events (username config) v))" .
  with m k r1 have "secured lib v w'"
    by (auto simp: unwind_def bindC_def split: if_splits prod.splits intro: keeps_snd [OF destroy_secured(1)])
  with u k r1 n show ?thesis by blast
qed

lemma identification_frame:
  assumes "exchange_identification cv w = (r, w')"
  shows "\<not> prompted w \<longrightarrow> \<not> prompted w'" "files w' = files w" "cin w' = cin w" "r = Inr ident \<Longrightarrow> client ident = cv"
proof -
  have "keeps (\<lambda>v. (\<not> prompted w \<longrightarrow> \<not> prompted v) \<and> files v = files w \<and> cin v = cin w) (exchange_identification cv)"
    by (rule keeps_identification) auto
  from keepsD [OF this assms] show "\<not> prompted w \<longrightarrow> \<not> prompted w'" "files w' = files w" "cin w' = cin w" by auto
  show "r = Inr ident \<Longrightarrow> client ident = cv"
    using assms by (auto simp: exchange_identification_def result_iff Let_def)
qed

text \<open>The states of the run between identification, key exchange and login.\<close>

lemma socket_scope_prompt:
  fixes w :: "('ctx, 'x) session_scheme"
  assumes "socket_scope os lib events config path w = (r, w')" "\<not> prompted w" "prompted w'"
  shows "\<exists>ident. \<exists>w1 u v :: ('ctx, 'x) session_scheme.
    exchange_identification (identification config) w = (Inr ident, w1) \<and> Transport w1 = (Inr (), u) \<and>
    perform_key_exchange os lib ident path (known_host_identifier config) u = (Inr (), v) \<and>
    client ident = identification config \<and> files u = files w \<and> cin u = cin w \<and> \<not> prompted v \<and> secured lib v w'"
proof -
  have "Socket os (hostname config) (to_string (unat (port config))) w = (Inr \<lparr>fd = sys_socket os\<rparr>, w)"
    using assms by (auto simp: socket_scope_def Socket_def create_def close_def comp_simps Let_def split: if_splits)
  with assms(1) obtain w2 where b: "bindC (exchange_identification (identification config))
      (\<lambda>ident. transport_scope os lib events config path ident) w = (r, w2)"
    and c: "w' = w2 \<or> w' = snd (destroy_socket \<lparr>fd = sys_socket os\<rparr> w2)"
    by (auto simp: socket_scope_def comp_simps unwind_def split: prod.splits if_splits)
  obtain r1 w1 where i: "exchange_identification (identification config) w = (r1, w1)" by fastforce
  note f = identification_frame [OF i]
  have n: "\<not> prompted w1" "prompted w2" using f(1) assms(2,3) c by auto
  with b i obtain ident where r1: "r1 = Inr ident" and t: "transport_scope os lib events config path ident w1 = (r, w2)"
    by (cases r1) (auto simp: comp_simps)
  from transport_scope_prompt [OF t n] obtain u v :: "('ctx, 'x) session_scheme" where
    u: "Transport w1 = (Inr (), u)" "files u = files w1" "cin u = cin w1" "\<not> prompted v" "secured lib v w2"
      "perform_key_exchange os lib ident path (known_host_identifier config) u = (Inr (), v)" by blast
  have "secured lib v w'" using c u(5) keeps_snd [OF destroy_secured(2) u(5)] by auto
  with i r1 u f(2,3) f(4) [OF r1] show ?thesis by auto
qed

end
