(* ===== verification/SSH_Run.thy ===== *)
theory SSH_Run
  imports SSH_Main
begin

section \<open>Complete runs of the program\<close>

text \<open>
  The whole of \<open>main\<close> against a server that follows the protocol, from the identification line to
  the exit status. The run shows that the hypotheses of the other properties of \<open>main\<close> can hold, and
  that the program does what it is for.
\<close>

lemma console_destroy_terminal [simp]: "console (snd (destroy_terminal os w)) = console w"
  by (simp add: destroy_terminal_def bindC_def comp_simps)

text \<open>What the server sends in the session, and what the client prints.\<close>

definition session_messages :: "u32 \<Rightarrow> u32 \<Rightarrow> u32 \<Rightarrow> bytes list \<Rightarrow> u32 \<Rightarrow> bytes list" where
  "session_messages sender window packet ds status =
     confirmation 0 sender window packet # success 0 # success 0 # map (data_message 0) ds @ [exit_message 0 status, closing 0]"

definition session_output :: "bytes list \<Rightarrow> u32 \<Rightarrow> console_output list" where
  "session_output ds status = map (\<lambda>d. Cout (string_of_bytes d)) ds @
     [Cout (CHR ''\<newline>'' # ''Remote exit status: '' @ to_string (unat status) @ [CHR ''\<newline>''])]"

lemma scripted_session:
  fixes w :: "('ctx, 'x) session_scheme"
  assumes docs: "documented lib stream" and os: "working_terminal os"
    and s: "scripted lib stream (session_messages sender window packet ds status) rest (Suc (Suc (Suc (Suc (length ds))))) w"
    and l: "MIN_MAX_PACKET_SIZE \<le> packet" "length (term_type (get_terminal_info os)) \<le> 1000" "list_all (\<lambda>d. length d \<le> 32768) ds"
  shows "\<exists>w'. run_connection_session os lib (replicate (length ds + 2) socket_ready) w = (Inr (), w') \<and>
    console w' = console w @ session_output ds status"
proof -
  let ?n = "Suc (length ds)" and ?ch = "opened sender window packet"
  let ?ps = "map (data_message 0) ds @ [exit_message 0 status, closing 0]" and ?w = "w\<lparr>chan := initial_channel\<rparr>"
  have s0: "scripted lib stream (confirmation 0 sender window packet # success 0 # success 0 # ?ps) rest (Suc (Suc (Suc ?n))) ?w"
    using s by (simp add: session_messages_def)
  from scripted_open [OF docs s0 _ l(1)] obtain w1 where 1: "open_session_channel lib ?w = (Inr (), w1)"
    "scripted lib stream (success 0 # success 0 # ?ps) rest (Suc (Suc ?n)) w1" "chan w1 = ?ch" "console w1 = console w" by auto
  from scripted_request_pty [OF docs, of w1 "success 0 # ?ps" rest "Suc ?n" "get_terminal_info os"] 1 l(2) terminal_info_valid [of os]
  obtain w2 where 2: "request_pty lib (get_terminal_info os) w1 = (Inr (), w2)"
    "scripted lib stream (success 0 # ?ps) rest (Suc ?n) w2" "chan w2 = ?ch" "console w2 = console w" by auto
  from scripted_request_shell [OF docs, of w2 ?ps rest ?n] 2 obtain w3 where 3: "request_shell lib w2 = (Inr (), w3)"
    "scripted lib stream ?ps rest ?n w3" "chan w3 = ?ch" "console w3 = console w" by auto
  from working_raw_mode(1) [OF os, of w3] 3 obtain w4 where 4: "enable_raw_mode os w3 = (Inr (), w4)"
    "scripted lib stream ?ps rest ?n w4" "chan w4 = ?ch" "console w4 = console w" by auto
  have i: "shell_inv (chan w4)" "is_open (chan w4)" "\<not> exit_status_received (chan w4)" using 4(3) l(1) by (simp_all add: setup_inv_shell)
  have ev: "replicate (length ds + 2) socket_ready = replicate (length ds) socket_ready @ socket_ready # socket_ready # []"
    unfolding replicate_add by (simp add: numeral_2_eq_2)
  from scripted_shell [OF docs _ i l(3), of status rest 0 "[]"] 4(2,3) obtain w5 where
    5: "shell_loop lib (replicate (length ds + 2) socket_ready) w4 = (Inr (), w5)"
    "exit_status_received (chan w5)" "exit_status (chan w5) = status"
    "console w5 = console w4 @ map (\<lambda>d. Cout (string_of_bytes d)) ds" unfolding ev by auto
  from working_raw_mode(2) [OF os, of w5] obtain w6 where 6: "restore os w5 = (Inr (), w6)" "chan w6 = chan w5" "console w6 = console w5" by auto
  show ?thesis
    using 1(1) 2(1) 3(1) 4(1,4) 5 6
    by (simp add: run_connection_session_def run_interactive_shell_def comp_simps Let_def session_output_def)
qed


lemma scripted_terminal_scope:
  fixes w :: "('ctx, 'x) session_scheme"
  assumes docs: "documented lib stream" and os: "working_terminal os"
    and s: "scripted lib stream (service_accepted # methods_left ms # [USERAUTH_SUCCESS] # session_messages sender window packet ds status)
      rest (7 + length ds) w"
    and l: "length user \<le> 1000" "length password \<le> 1000" "length ms \<le> 30000" "cin w = password # ls"
      "MIN_MAX_PACKET_SIZE \<le> packet" "length (term_type (get_terminal_info os)) \<le> 1000" "list_all (\<lambda>d. length d \<le> 32768) ds"
  shows "\<exists>w'. terminal_scope os lib (replicate (length ds + 2) socket_ready) user w = (Inr (), w') \<and>
    console w' = console w @ [Cout ''Password: '', Cout [CHR 0x0A], Cout (''Authentication Complete'' @ [CHR ''\<newline>''])] @
      session_output ds status"
proof -
  obtain w0 where t: "Terminal w = (Inr (), w0)" "cin w0 = cin w" "console w0 = console w"
    and s0: "scripted lib stream (service_accepted # methods_left ms # [USERAUTH_SUCCESS] # session_messages sender window packet ds status)
      rest (Suc (Suc (Suc (Suc (Suc (Suc (Suc (length ds)))))))) w0"
    using s by (simp add: Terminal_def comp_simps eval_nat_numeral)
  from scripted_authentication [OF docs os s0 l(1-3)] l(4) t obtain w1 where
    1: "authenticate_user os lib user w0 = (Inr (), w1)"
    "scripted lib stream (session_messages sender window packet ds status) rest (Suc (Suc (Suc (Suc (length ds))))) w1"
    "console w1 = console w @ [Cout ''Password: '', Cout [CHR 0x0A], Cout (''Authentication Complete'' @ [CHR ''\<newline>''])]" by auto
  from scripted_session [OF docs os 1(2) l(5-7)] obtain w2 where
    2: "run_connection_session os lib (replicate (length ds + 2) socket_ready) w1 = (Inr (), w2)"
    "console w2 = console w1 @ session_output ds status" by blast
  show ?thesis
    using t(1) 1(1,3) 2 by (simp add: terminal_scope_def comp_simps unwind_def)
qed

text \<open>
  A server that follows the protocol, from its identification \<open>line\<close> on: it proves that it is the host on file, accepts
  the user, opens the channel, sends the output \<open>ds\<close> and the exit status, and closes. The bytes it sends are all in the queue.
\<close>

definition follows_protocol ::
  "posix \<Rightarrow> 'ctx crypto \<Rightarrow> ('ctx \<Rightarrow> nat \<Rightarrow> byte) \<Rightarrow> ClientConfig \<Rightarrow> string \<Rightarrow> bytes list \<Rightarrow> u32 \<Rightarrow> ('ctx, 'x) transport_scheme \<Rightarrow> bool" where
  "follows_protocol os lib stream config path ds status w \<longleftrightarrow>
     (\<exists>line sk rp keys c c' d d' ms sender window packet.
        10 \<notin> set line \<and> take 7 (version_of line) = ''SSH-2.0'' \<and>
        honest_reply os lib \<lparr>client = identification config, server = version_of line\<rparr> path (known_host_identifier config) w sk rp keys \<and>
        sendable (raw_payload sk) \<and> sendable rp \<and> length ms \<le> 30000 \<and> MIN_MAX_PACKET_SIZE \<le> packet \<and>
        EVP_CIPHER_CTX_new lib (ctx_calls w) = Some c \<and>
        EVP_EncryptInit_ex lib c (encryption_key_cs keys) (iv_cs keys) = (1, c') \<and>
        EVP_CIPHER_CTX_new lib (Suc (ctx_calls w)) = Some d \<and>
        EVP_DecryptInit_ex lib d (encryption_key_sc keys) (iv_sc keys) = (1, d') \<and>
        pending (rx w) = line @ 10 # script [raw_payload sk, rp, [NEWKEYS]] @
          wire lib (stream d') 3 (mac_key_sc keys)
            (service_accepted # methods_left ms # [USERAUTH_SUCCESS] # session_messages sender window packet ds status))"

text \<open>A user at a working terminal, who types the password, and a kernel that takes every packet.\<close>

definition user_ready :: "posix \<Rightarrow> ClientConfig \<Rightarrow> nat \<Rightarrow> 'x machine_scheme \<Rightarrow> bool" where
  "user_ready os config n w \<longleftrightarrow> working_terminal os \<and> length (term_type (get_terminal_info os)) \<le> 1000 \<and>
     length (username config) \<le> 1000 \<and> (\<exists>password ls. cin w = password # ls \<and> length password \<le> 1000) \<and>
     tx_script w = replicate n (Tx_accept 35032)"

lemma identification_answered:
  assumes "pending (rx w) = line @ 10 # rest" "10 \<notin> set line" "take 7 (version_of line) = ''SSH-2.0''"
    and "tx_script w = Tx_accept 35032 # q" "length cv \<le> 1000"
  shows "\<exists>q'. exchange_identification cv w = (Inr \<lparr>client = cv, server = version_of line\<rparr>,
      w\<lparr>rx := q', tx := tx w @ bytes_of_string (cv @ [char_of (13 :: nat), char_of (10 :: nat)]), tx_script := q\<rparr>) \<and> pending q' = rest"
proof -
  from read_version_loop_line [OF assms(2,1), of "[]"] obtain q' where
    q': "read_version w = (Inr (version_of line), w\<lparr>rx := q'\<rparr>)" "pending q' = rest" by (auto simp: read_version_def)
  have "write_exact (bytes_of_string (cv @ [char_of (13 :: nat), char_of (10 :: nat)])) (w\<lparr>rx := q'\<rparr>) =
      (Inr (), w\<lparr>rx := q', tx := tx w @ bytes_of_string (cv @ [char_of (13 :: nat), char_of (10 :: nat)]), tx_script := q\<rparr>)"
    using assms(4,5) by (simp add: write_exact_def write_exact_loop.simps bytes_of_string_def)
  with q' assms(3) show ?thesis by (intro exI [of _ q']) (simp add: exchange_identification_def comp_simps Let_def)
qed

definition run_output :: "bytes list \<Rightarrow> u32 \<Rightarrow> console_output list" where
  "run_output ds status = [Cout (''Server host key matches known host'' @ [CHR ''\<newline>'']), Cout ''Password: '', Cout [CHR 0x0A],
     Cout (''Authentication Complete'' @ [CHR ''\<newline>''])] @ session_output ds status"

lemma scripted_transport_scope:
  fixes w :: "('ctx, 'x) session_scheme"
  assumes docs: "documented lib stream" and u: "user_ready os config (10 + length ds) w"
    and h: "honest_reply os lib ident path (known_host_identifier config) w sk rp keys" "sendable (raw_payload sk)" "sendable rp"
    and l: "length ms \<le> 30000" "MIN_MAX_PACKET_SIZE \<le> packet" "list_all (\<lambda>d. length d \<le> 32768) ds"
    and out: "EVP_CIPHER_CTX_new lib (ctx_calls w) = Some c" "EVP_EncryptInit_ex lib c (encryption_key_cs keys) (iv_cs keys) = (1, c')"
    and inc: "EVP_CIPHER_CTX_new lib (Suc (ctx_calls w)) = Some d" "EVP_DecryptInit_ex lib d (encryption_key_sc keys) (iv_sc keys) = (1, d')"
    and p: "pending (rx w) = script [raw_payload sk, rp, [NEWKEYS]] @ wire lib (stream d') 3 (mac_key_sc keys)
      (service_accepted # methods_left ms # [USERAUTH_SUCCESS] # session_messages sender window packet ds status)"
  shows "\<exists>w'. transport_scope os lib (replicate (length ds + 2) socket_ready) config path ident w = (Inr (), w') \<and>
    console w' = console w @ run_output ds status"
proof -
  define ps where "ps = service_accepted # methods_left ms # [USERAUTH_SUCCESS] # session_messages sender window packet ds status"
  have ps: "list_all sendable ps"
    using l by (auto simp: ps_def session_messages_def list_all_iff)
  obtain u0 where t: "Transport w = (Inr (), u0)" "random_calls u0 = random_calls w" "files u0 = files w" "ctx_calls u0 = ctx_calls w"
    "incoming_sequence u0 = 0" "\<not> incoming_encryption_active u0" "\<not> outgoing_encryption_active u0" "cin u0 = cin w" "console u0 = console w"
    "rx u0 = rx w" "tx_script u0 = tx_script w" by (simp add: Transport_def comp_simps)
  have n: "10 + length ds = Suc (Suc (Suc (7 + length ds)))" by simp
  have tx: "tx_script u0 = replicate (Suc (Suc (Suc (7 + length ds)))) (Tx_accept 35032)"
    unfolding n [symmetric] t(11) using u by (simp add: user_ready_def)
  have "scripted lib stream [raw_payload sk, rp, [NEWKEYS]] (wire lib (stream d') (incoming_sequence u0 + 3) (mac_key_sc keys) ps @ [])
      (Suc (Suc (Suc (7 + length ds)))) u0"
    unfolding scripted_def tx using h(2,3) t(5-7) p [folded ps_def t(10)] by simp
  note s0 = this
  have h0: "honest_reply os lib ident path (known_host_identifier config) u0 sk rp keys"
    using h(1) unfolding honest_reply_def t(2,3) .
  from scripted_key_exchange [OF docs h0 s0 t(6) ps out(1) [folded t(4)] out(2) inc(1) [folded t(4)] inc(2)]
  obtain w1 where 1: "perform_key_exchange os lib ident path (known_host_identifier config) u0 = (Inr (), w1)"
    "scripted lib stream ps [] (7 + length ds) w1" "cin w1 = cin w"
    "console w1 = console w @ [Cout (''Server host key matches known host'' @ [CHR ''\<newline>''])]"
    unfolding t(8,9) by blast
  from u obtain password ls where pw: "cin w = password # ls" "length password \<le> 1000" "working_terminal os"
    "length (username config) \<le> 1000" "length (term_type (get_terminal_info os)) \<le> 1000" by (auto simp: user_ready_def)
  from scripted_terminal_scope [OF docs pw(3) 1(2) [unfolded ps_def] pw(4,2) l(1) _ l(2) pw(5) l(3)] pw(1) 1(3,4) obtain w2 where
    2: "terminal_scope os lib (replicate (length ds + 2) socket_ready) (username config) w1 = (Inr (), w2)"
    "console w2 = console w @ run_output ds status" by (auto simp: run_output_def)
  show ?thesis using t(1) 1(1) 2 by (simp add: transport_scope_def comp_simps unwind_def)
qed

lemma scripted_main:
  fixes w :: "('ctx, 'x) session_scheme"
  assumes docs: "documented lib stream" and cfg: "parse_client_config argv = Inr config" "sodium_init lib \<noteq> -1"
      "getenv os ''HOME'' = Some home"
    and sock: "sys_socket os \<noteq> -1" "connect os \<lparr>fd = sys_socket os\<rparr> (hostname config) (to_string (unat (port config)))"
    and u: "user_ready os config (11 + length ds) w" and ds: "list_all (\<lambda>d. length d \<le> 32768) ds"
    and srv: "follows_protocol os lib stream config (home @ known_hosts_relative_path config) ds status w"
  shows "\<exists>w'. main os lib (replicate (length ds + 2) socket_ready) argv w = (Inr 0, w') \<and> console w' = console w @ run_output ds status"
proof -
  let ?path = "home @ known_hosts_relative_path config"
  from srv obtain line sk rp keys c c' d d' ms sender window packet where
    line: "10 \<notin> set line" "take 7 (version_of line) = ''SSH-2.0''"
    and h: "honest_reply os lib \<lparr>client = identification config, server = version_of line\<rparr> ?path (known_host_identifier config) w sk rp keys"
      "sendable (raw_payload sk)" "sendable rp"
    and l: "length ms \<le> 30000" "MIN_MAX_PACKET_SIZE \<le> packet"
    and lib: "EVP_CIPHER_CTX_new lib (ctx_calls w) = Some c" "EVP_EncryptInit_ex lib c (encryption_key_cs keys) (iv_cs keys) = (1, c')"
      "EVP_CIPHER_CTX_new lib (Suc (ctx_calls w)) = Some d" "EVP_DecryptInit_ex lib d (encryption_key_sc keys) (iv_sc keys) = (1, d')"
    and p: "pending (rx w) = line @ 10 # script [raw_payload sk, rp, [NEWKEYS]] @ wire lib (stream d') 3 (mac_key_sc keys)
      (service_accepted # methods_left ms # [USERAUTH_SUCCESS] # session_messages sender window packet ds status)"
    unfolding follows_protocol_def by (elim exE conjE) (rule that)
  have id: "length (identification config) \<le> 1000"
    using cfg(1) by (auto simp: parse_client_config_def Let_def split: if_splits option.splits prod.splits)
  have tx: "tx_script w = Tx_accept 35032 # replicate (10 + length ds) (Tx_accept 35032)"
    using u unfolding user_ready_def replicate_Suc [symmetric] by simp
  from identification_answered [OF p line tx id] obtain w1 where
    1: "exchange_identification (identification config) w = (Inr \<lparr>client = identification config, server = version_of line\<rparr>, w1)"
    and rx: "pending (rx w1) = script [raw_payload sk, rp, [NEWKEYS]] @ wire lib (stream d') 3 (mac_key_sc keys)
      (service_accepted # methods_left ms # [USERAUTH_SUCCESS] # session_messages sender window packet ds status)"
    and f: "tx_script w1 = replicate (10 + length ds) (Tx_accept 35032)" "cin w1 = cin w" "files w1 = files w" "console w1 = console w"
      "random_calls w1 = random_calls w" "ctx_calls w1 = ctx_calls w" by force
  have u1: "user_ready os config (10 + length ds) w1" using u f by (simp add: user_ready_def)
  have h1: "honest_reply os lib \<lparr>client = identification config, server = version_of line\<rparr> ?path (known_host_identifier config) w1 sk rp keys"
    using h(1) unfolding honest_reply_def f(3,5) .
  from scripted_transport_scope [OF docs u1 h1 h(2,3) l ds lib(1) [folded f(6)] lib(2) lib(3) [folded f(6)] lib(4) rx] f(4) obtain w2 where
    2: "transport_scope os lib (replicate (length ds + 2) socket_ready) config ?path
      \<lparr>client = identification config, server = version_of line\<rparr> w1 = (Inr (), w2)" "console w2 = console w @ run_output ds status" by auto
  have "Socket os (hostname config) (to_string (unat (port config))) w = (Inr \<lparr>fd = sys_socket os\<rparr>, w)"
    using sock by (simp add: Socket_def create_def comp_simps Let_def)
  with 1 2 have "\<exists>w'. socket_scope os lib (replicate (length ds + 2) socket_ready) config ?path w = (Inr (), w') \<and>
      console w' = console w @ run_output ds status"
    by (simp add: socket_scope_def comp_simps unwind_def)
  with cfg show ?thesis by (auto simp: main_def main_body_scopes comp_simps)
qed

subsection \<open>A run of the sample client\<close>

definition sample_line :: bytes where "sample_line = [83, 83, 72, 45, 50, 46, 48, 45, 120, 13]"
definition sample_path :: string where "sample_path = ''/home/u/.conorssh/known_hosts''"
definition sample_config :: ClientConfig where
  "sample_config = \<lparr>hostname = ''h'', port = 22, username = ''u'', identification = ''SSH-2.0-ConorSSH_0.1'',
     known_hosts_relative_path = ''/.conorssh/known_hosts''\<rparr>"

definition sample_start :: "bytes \<Rightarrow> nat \<Rightarrow> nat session" where
  "sample_start input n = sample_session [] n\<lparr>rx := [Rx_data input], cin := [''pw''], files := [sample_path \<mapsto> sample_file ''h''],
     ctx_calls := 0, ctx_live := 0\<rparr>"

lemma sample_config_parsed: "parse_client_config [''ssh'', ''u@h''] = Inr sample_config"
  by (simp add: parse_client_config_def find_from_def size_minus_def sample_config_def DEFAULT_SSH_PORT_def Let_def)

lemma sample_line_facts: "10 \<notin> set sample_line" "version_of sample_line = ''SSH-2.0-x''"
  unfolding sample_line_def by simp code_simp

lemma sample_user: "user_ready willing_posix sample_config n (sample_start input n)"
  using willing_terminal
  by (simp add: user_ready_def sample_config_def sample_start_def sample_session_def get_terminal_info_def willing_posix_def
      DEFAULT_TERMINAL_TYPE_def Let_def)

lemma sample_server:
  "\<exists>input. follows_protocol willing_posix sample_crypto (\<lambda>c i. of_nat (c + i)) sample_config sample_path ds status (sample_start input n)"
proof -
  let ?ident = "\<lparr>client = identification sample_config, server = version_of sample_line\<rparr>"
  have host: "known_host_identifier sample_config = ''h''"
    by (simp add: known_host_identifier_def sample_config_def DEFAULT_SSH_PORT_def)
  have wd: "is_word ''h''" by (simp add: is_word_def is_space_def)
  have f: "files (sample_start [] n) sample_path = Some (sample_file ''h'')" by (simp add: sample_start_def)
  have "length (client ?ident) \<le> 100" "length (server ?ident) \<le> 100" by (simp_all add: sample_line_facts(2) sample_config_def)
  from sample_honest [OF wd f this] obtain sk rp keys where
    h: "honest_reply willing_posix sample_crypto ?ident sample_path ''h'' (sample_start [] n) sk rp keys"
    "sendable (raw_payload sk)" "sendable rp" by blast
  let ?input = "sample_line @ 10 # script [raw_payload sk, rp, [NEWKEYS]] @
    wire sample_crypto (\<lambda>i. of_nat (unat (sum_list (iv_sc keys)) + i)) 3 (mac_key_sc keys)
      (service_accepted # methods_left ''password'' # [USERAUTH_SUCCESS] # session_messages 7 100 32768 ds status)"
  have h': "honest_reply willing_posix sample_crypto ?ident sample_path ''h'' (sample_start ?input n) sk rp keys"
    using h(1) unfolding honest_reply_def by (simp add: sample_start_def)
  have p: "pending (rx (sample_start ?input n)) = ?input" by (simp add: sample_start_def)
  have v: "take 7 (version_of sample_line) = ''SSH-2.0''" by (simp add: sample_line_facts(2))
  have ms: "length ''password'' \<le> 30000" "MIN_MAX_PACKET_SIZE \<le> 32768" by (simp_all add: MIN_MAX_PACKET_SIZE_def)
  show ?thesis
    unfolding follows_protocol_def host
    by (rule exI, intro exI conjI) (rule sample_line_facts(1) v h' h(2,3) ms sample_crypto_simps(4,5,6) p)+
qed

lemma sample_run:
  "\<exists>w w' :: nat session. follows_protocol willing_posix sample_crypto (\<lambda>c i. of_nat (c + i)) sample_config sample_path [[65]] 3 w \<and>
     user_ready willing_posix sample_config (11 + length [[65 :: byte]]) w \<and> console w = [] \<and>
     main willing_posix sample_crypto (replicate (length [[65 :: byte]] + 2) socket_ready) [''ssh'', ''u@h''] w = (Inr 0, w') \<and>
     console w' = console w @ run_output [[65]] 3"
proof -
  let ?n = "11 + length [[65 :: byte]]"
  from sample_server obtain input where
    s: "follows_protocol willing_posix sample_crypto (\<lambda>c i. of_nat (c + i)) sample_config sample_path [[65]] 3 (sample_start input ?n)" by blast
  have e: "sodium_init sample_crypto \<noteq> -1" "getenv willing_posix ''HOME'' = Some ''/home/u''" "sys_socket willing_posix \<noteq> -1"
    "connect willing_posix \<lparr>fd = sys_socket willing_posix\<rparr> (hostname sample_config) (to_string (unat (port sample_config)))"
    by (simp_all add: sample_crypto_def willing_posix_def connect_def Let_def)
  have path: "''/home/u'' @ known_hosts_relative_path sample_config = sample_path" by (simp add: sample_config_def sample_path_def)
  have ds: "list_all (\<lambda>d. length d \<le> 32768) [[65 :: byte]]" by simp
  have c: "console (sample_start input ?n) = []" by (simp add: sample_start_def sample_session_def)
  from scripted_main [OF sample_documented sample_config_parsed e sample_user ds s [folded path]] s sample_user c show ?thesis by blast
qed

subsection \<open>Properties\<close>

text \<open>
  C3: The program does its work. If the arguments, the environment and the connection are in order, the user types the
  password, and the server follows the protocol, proves to be the host on file and sends any number of data packets and an exit
  status, then \<open>main\<close> returns 0 after printing exactly this output and this status.
\<close>

theorem main_completes:
  fixes w :: "('ctx, 'x) session_scheme"
  assumes "documented lib stream" and "parse_client_config argv = Inr config" and "sodium_init lib \<noteq> -1"
    and "getenv os ''HOME'' = Some home" and "sys_socket os \<noteq> -1"
    and "connect os \<lparr>fd = sys_socket os\<rparr> (hostname config) (to_string (unat (port config)))"
    and "user_ready os config (11 + length ds) w" and "list_all (\<lambda>d. length d \<le> 32768) ds"
    and "follows_protocol os lib stream config (home @ known_hosts_relative_path config) ds status w"
  shows "\<exists>w'. main os lib (replicate (length ds + 2) socket_ready) argv w = (Inr 0, w') \<and>
    console w' = console w @ [Cout (''Server host key matches known host'' @ [CHR ''\<newline>'']), Cout ''Password: '', Cout [CHR 0x0A],
      Cout (''Authentication Complete'' @ [CHR ''\<newline>''])] @ map (\<lambda>d. Cout (string_of_bytes d)) ds @
      [Cout (CHR ''\<newline>'' # ''Remote exit status: '' @ to_string (unat status) @ [CHR ''\<newline>''])]"
  using scripted_main [OF assms] unfolding run_output_def session_output_def .

theorem main_completes_witness:
  "\<exists>w w' :: nat session. follows_protocol willing_posix sample_crypto (\<lambda>c i. of_nat (c + i)) sample_config
       (''/home/u'' @ known_hosts_relative_path sample_config) [[65]] 3 w \<and>
     main willing_posix sample_crypto (replicate (length [[65 :: byte]] + 2) socket_ready) [''ssh'', ''u@h''] w = (Inr 0, w')"
proof -
  have path: "''/home/u'' @ known_hosts_relative_path sample_config = sample_path" by (simp add: sample_config_def sample_path_def)
  from sample_run obtain w :: "nat session" where
    s: "follows_protocol willing_posix sample_crypto (\<lambda>c i. of_nat (c + i)) sample_config sample_path [[65]] 3 w"
    and u: "user_ready willing_posix sample_config (11 + length [[65 :: byte]]) w" by blast
  have e: "sodium_init sample_crypto \<noteq> -1" "getenv willing_posix ''HOME'' = Some ''/home/u''" "sys_socket willing_posix \<noteq> -1"
    "connect willing_posix \<lparr>fd = sys_socket willing_posix\<rparr> (hostname sample_config) (to_string (unat (port sample_config)))"
    by (simp_all add: sample_crypto_def willing_posix_def connect_def Let_def)
  have ds: "list_all (\<lambda>d. length d \<le> 32768) [[65 :: byte]]" by simp
  from main_completes [OF sample_documented sample_config_parsed e u ds s [folded path]] s [folded path] show ?thesis by blast
qed

text \<open>
  C6: The program gives everything back. Whenever \<open>main\<close> returns (it does not wait and no signal has killed it), with whatever exit
  code and at whatever point an exception was thrown, the terminal is in the mode it was found in (if setting its attributes works), no cipher context
  is left or released twice, and the socket has been closed exactly once if it was opened, and otherwise nothing was closed.
\<close>

theorem main_releases_resources:
  assumes "settable os" and "main os lib events argv w = (r, w')" and "\<not> halted r"
  shows "tty w' = tty w \<and> ctx_live w' = ctx_live w \<and>
    closed_fds w' = closed_fds w @ (if connects os lib argv then [sys_socket os] else [])"
proof (intro conjI)
  have "settles (\<lambda>v. tty v = tty w) (main os lib events argv) (\<lambda>v. tty v = tty w)"
    by (intro main_settles main_body_settles socket_scope_settles transport_scope_mode assms(1)) simp_all
  from settlesD [OF this _ assms(2,3)] show "tty w' = tty w" by simp
  have "settles (\<lambda>v. ctx_live v = ctx_live w) (main os lib events argv) (\<lambda>v. ctx_live v = ctx_live w)"
    by (intro main_settles main_body_settles socket_scope_settles transport_scope_contexts) simp_all
  from settlesD [OF this _ assms(2,3)] show "ctx_live w' = ctx_live w" by simp
  have "settles (\<lambda>v. closed_fds v = closed_fds w) (main os lib events argv)
      (\<lambda>v. closed_fds v = closed_fds w @ (if connects os lib argv then [sys_socket os] else []))"
    by (rule main_settles [OF main_body_descriptors]) simp
  from settlesD [OF this _ assms(2,3)]
  show "closed_fds w' = closed_fds w @ (if connects os lib argv then [sys_socket os] else [])" by simp
qed

theorem main_releases_resources_witness:
  "\<exists>w w' :: nat session. settable willing_posix \<and>
     main willing_posix sample_crypto (replicate (length [[65 :: byte]] + 2) socket_ready) [''ssh'', ''u@h''] w = (Inr 0, w') \<and>
     tty w' = tty w \<and> ctx_live w' = ctx_live w \<and> closed_fds w' = closed_fds w @ [3]"
proof -
  from sample_run obtain w w' :: "nat session" where
    m: "main willing_posix sample_crypto (replicate (length [[65 :: byte]] + 2) socket_ready) [''ssh'', ''u@h''] w = (Inr 0, w')" by blast
  have s: "settable willing_posix" using willing_terminal by (simp add: working_terminal_def)
  have "connects willing_posix sample_crypto [''ssh'', ''u@h'']"
    unfolding connects_def sample_config_parsed by (simp add: sample_crypto_def willing_posix_def)
  with main_releases_resources [OF s m] s m show ?thesis by (intro exI [of _ w] exI [of _ w']) (simp add: willing_posix_def)
qed

text \<open>
  C1: The password is only asked for after the server has been authenticated, and it leaves the machine only encrypted. If
  the prompt has appeared when \<open>main\<close> ends or stops, then the command line and the environment were valid and this run
  had read the server's identification, set up its transport and completed the key exchange, in the states \<open>w1\<close>,
  \<open>u\<close> and \<open>v\<close>, before the prompt: the host key signed this handshake, the key was on file under the identity of the host or
  confirmed by the user, and both directions were encrypted with the derived keys. Every byte that the run sent after \<open>v\<close> belongs
  to a packet encrypted and authenticated with these keys, and at the end both directions are still encrypted under them.
\<close>

theorem password_only_after_trust:
  fixes w :: "('ctx, 'x) session_scheme"
  assumes "main os lib events argv w = (r, w')" and "\<not> prompted w" and "prompted w'"
  shows "\<exists>config home ident key keys. \<exists>w1 u v :: ('ctx, 'x) session_scheme.
    parse_client_config argv = Inr config \<and> getenv os ''HOME'' = Some home \<and>
    exchange_identification (identification config) w = (Inr ident, w1) \<and> client ident = identification config \<and>
    Transport w1 = (Inr (), u) \<and>
    perform_key_exchange os lib ident (home @ known_hosts_relative_path config) (known_host_identifier config) u = (Inr (), v) \<and>
    handshake_verified lib ident key keys \<and>
    host_key_accepted os lib (home @ known_hosts_relative_path config) (known_host_identifier config) (files w) (cin w) key \<and>
    keyed lib keys v \<and> \<not> prompted v \<and> secured lib v w'"
proof -
  obtain r1 w2 where mb: "main_body os lib events argv w = (r1, w2)" by fastforce
  have m: "prompted w2" "\<And>v. secured lib v w2 \<Longrightarrow> secured lib v w'"
    using assms(1,3) mb by (auto simp: main_def comp_simps split: sum.splits stop.splits exn.splits)
  from m(1) obtain config home where c: "parse_client_config argv = Inr config" "getenv os ''HOME'' = Some home"
    and s: "socket_scope os lib events config (home @ known_hosts_relative_path config) w = (r1, w2)"
    using mb assms(2) by (cases "parse_client_config argv")
      (auto simp: main_body_scopes comp_simps split: option.splits if_splits)
  from socket_scope_prompt [OF s assms(2) m(1)] obtain ident and w1 u v :: "('ctx, 'x) session_scheme" where
    k: "client ident = identification config" "files u = files w" "cin u = cin w"
      "perform_key_exchange os lib ident (home @ known_hosts_relative_path config) (known_host_identifier config) u = (Inr (), v)"
      "exchange_identification (identification config) w = (Inr ident, w1)" "Transport w1 = (Inr (), u)" "\<not> prompted v" "secured lib v w2"
    by blast
  from key_exchange_result [OF k(4)] obtain key keys where "handshake_verified lib ident key keys" "keyed lib keys v"
    "host_key_accepted os lib (home @ known_hosts_relative_path config) (known_host_identifier config) (files w) (cin w) key"
    using k(2,3) by auto
  with c k m(2) show ?thesis by blast
qed

theorem password_only_after_trust_witness:
  "\<exists>w w' :: nat session. main willing_posix sample_crypto (replicate (length [[65 :: byte]] + 2) socket_ready) [''ssh'', ''u@h''] w = (Inr 0, w') \<and>
     \<not> prompted w \<and> prompted w' \<and> (\<exists>ident key keys v. client ident = ''SSH-2.0-ConorSSH_0.1'' \<and>
       handshake_verified sample_crypto ident key keys \<and>
       host_key_accepted willing_posix sample_crypto sample_path ''h'' (files w) (cin w) key \<and>
       keyed sample_crypto keys v \<and> \<not> prompted v \<and> secured sample_crypto v w')"
proof -
  from sample_run obtain w w' :: "nat session" where
    m: "main willing_posix sample_crypto (replicate (length [[65 :: byte]] + 2) socket_ready) [''ssh'', ''u@h''] w = (Inr 0, w')"
    and c: "console w = []" "console w' = console w @ run_output [[65]] 3" by blast
  have p: "\<not> prompted w" "prompted w'" by (simp_all add: c run_output_def)
  from password_only_after_trust [OF m p] obtain config home ident key keys and v :: "nat session" where
    k: "parse_client_config [''ssh'', ''u@h''] = Inr config" "getenv willing_posix ''HOME'' = Some home"
      "client ident = identification config" "handshake_verified sample_crypto ident key keys"
      "host_key_accepted willing_posix sample_crypto (home @ known_hosts_relative_path config) (known_host_identifier config) (files w) (cin w) key"
      "keyed sample_crypto keys v" "\<not> prompted v" "secured sample_crypto v w'"
    by blast
  have "config = sample_config" "home = ''/home/u''" using k(1,2) by (simp_all add: sample_config_parsed willing_posix_def)
  with k have "client ident = ''SSH-2.0-ConorSSH_0.1''"
    "host_key_accepted willing_posix sample_crypto sample_path ''h'' (files w) (cin w) key"
    by (simp_all add: sample_config_def sample_path_def known_host_identifier_def DEFAULT_SSH_PORT_def)
  with k(4,6-8) m p show ?thesis by blast
qed

text \<open>The failures before a connection exists, in the order of the checks, and what the program says of them.\<close>

definition startup_error :: "posix \<Rightarrow> 'ctx crypto \<Rightarrow> string list \<Rightarrow> string option" where
  "startup_error os lib argv = (case parse_client_config argv of
     Inl e \<Rightarrow> Some (what os e)
   | Inr config \<Rightarrow>
       if sodium_init lib = -1 then Some ''Sodium could not be initialised''
       else if getenv os ''HOME'' = None then Some ''HOME environment variable could not be accessed''
       else if sys_socket os = -1 then Some ''Failed to create socket''
       else if \<not> connect os \<lparr>fd = sys_socket os\<rparr> (hostname config) (to_string (unat (port config)))
         then Some (''Failed to connect to '' @ hostname config)
       else None)"

text \<open>
  C17: A run that cannot connect fails cleanly. On an invalid command line, an unusable library or environment, and a refused
  connection, \<open>main\<close> returns 1 after printing exactly one line that names the first of these causes; nothing is sent, read or
  written to a file, the terminal is not touched, and the descriptor is closed again if the socket had been created.
\<close>

theorem startup_failure_reported:
  assumes "startup_error os lib argv = Some msg"
  shows "main os lib events argv w = (Inr 1, w\<lparr>console := console w @ [Cerr (''Error: '' @ msg @ [CHR ''\<newline>''])],
    closed_fds := closed_fds w @ (if connects os lib argv then [sys_socket os] else [])\<rparr>)"
proof (cases "parse_client_config argv")
  case (Inl e)
  with assms have "msg = what os e" by (simp add: startup_error_def)
  with Inl parse_errors [OF Inl] show ?thesis
    by (cases e) (auto simp: main_def main_body_def comp_simps connects_def)
next
  case (Inr config)
  with assms show ?thesis
    by (auto simp: startup_error_def main_def main_body_def comp_simps connects_def Socket_def create_def close_def what_def Let_def
        split: if_splits option.splits)
qed

theorem startup_failure_reported_witness:
  "startup_error willing_posix sample_crypto [''ssh'', ''h''] = Some ''Target must use the format <username>@<host>'' \<and>
   (\<exists>w w' :: nat session. main willing_posix sample_crypto [] [''ssh'', ''h''] w = (Inr 1, w') \<and>
      console w' = console w @ [Cerr (''Error: '' @ ''Target must use the format <username>@<host>'' @ [CHR ''\<newline>''])])"
proof -
  have s: "startup_error willing_posix sample_crypto [''ssh'', ''h''] = Some ''Target must use the format <username>@<host>''"
    by (simp add: startup_error_def parse_client_config_def find_from_def what_def)
  from startup_failure_reported [OF s, of "[]" "sample_start [] 0"] s show ?thesis by fastforce
qed

end
