(* ===== verification/SSH_Termination.thy ===== *)
theory SSH_Termination
  imports SSH_Run
begin

section \<open>Every run ends with its connection\<close>

text \<open>
  Where the program waits for the kernel the model says \<open>Blocked\<close>. The lemmas show that nothing else keeps it from
  returning: if both directions of the connection come to an end some time, by end of file or an error, and \<open>poll\<close>
  reports it, then \<open>main\<close> returns an exit code, whatever the server sends before.
\<close>

subsection \<open>Computations that do not wait\<close>

text \<open>
  \<open>ends sig I m\<close>: from a state in \<open>I\<close>, \<open>m\<close> returns with a state in \<open>I\<close>, or throws, or is killed by a signal if \<open>sig\<close> allows it.
\<close>

definition ended :: "bool \<Rightarrow> ('s \<Rightarrow> bool) \<Rightarrow> (stop + 'a) \<times> 's \<Rightarrow> bool" where
  "ended sig I p \<longleftrightarrow> fst p \<noteq> Inl Blocked \<and> (fst p = Inl Killed \<longrightarrow> sig) \<and> (\<forall>x. fst p = Inr x \<longrightarrow> I (snd p))"

definition ends :: "bool \<Rightarrow> ('s \<Rightarrow> bool) \<Rightarrow> ('s, 'a) comp \<Rightarrow> bool" where
  "ends sig I m \<longleftrightarrow> (\<forall>s. I s \<longrightarrow> ended sig I (m s))"

named_theorems ends_intro \<open>computations that return or throw\<close>

lemma ended_simps [simp]: "ended sig I (Inr x, s) \<longleftrightarrow> I s" "ended sig I (Inl (Raised e), s)" "\<not> ended sig I (Inl Blocked, s)"
  "ended sig I (Inl Killed, s) \<longleftrightarrow> sig"
  by (simp_all add: ended_def)

lemma ended_run_bind:
  "ends sig I m \<Longrightarrow> I s \<Longrightarrow> (\<And>x t. m s = (Inr x, t) \<Longrightarrow> I t \<Longrightarrow> ended sig J (f x t)) \<Longrightarrow> ended sig J (bindC m f s)"
  unfolding ends_def ended_def bindC_def by (auto split: prod.splits sum.splits)

lemma ended_bind: "ended sig I (m s) \<Longrightarrow> (\<And>x. ends sig I (f x)) \<Longrightarrow> ended sig I (bindC m f s)"
  unfolding ends_def ended_def bindC_def by (auto split: prod.splits sum.splits)

lemma ends_bindC [ends_intro]: "ends sig I m \<Longrightarrow> (\<And>x. ends sig I (f x)) \<Longrightarrow> ends sig I (bindC m f)"
  by (subst ends_def) (blast intro: ended_run_bind dest: ends_def [THEN iffD1])

lemma ends_simple [ends_intro]:
  "ends sig I (returnC x)" "ends sig I (getsC g)" "ends sig I (stopC (Raised e))" "ends sig I (liftE r)"
  by (cases r; simp add: ends_def comp_simps)+

lemma ends_modifyC [ends_intro]: "(\<And>s. I s \<Longrightarrow> I (h s)) \<Longrightarrow> ends sig I (modifyC h)"
  by (simp add: ends_def comp_simps)

lemma ends_if [ends_intro]: "ends sig I m \<Longrightarrow> ends sig I m' \<Longrightarrow> ends sig I (if c then m else m')"
  by simp

lemma ends_cases [ends_intro]:
  "ends sig I m \<Longrightarrow> (\<And>x. ends sig I (f x)) \<Longrightarrow> ends sig I (case o' of None \<Rightarrow> m | Some x \<Rightarrow> f x)"
  "(\<And>a b. ends sig I (g a b)) \<Longrightarrow> ends sig I (case p of (a, b) \<Rightarrow> g a b)"
  by (cases o'; simp) (cases p; simp)

lemma ended_unwind: "ended sig I (m s) \<Longrightarrow> keeps I fin \<Longrightarrow> ended sig I (unwind m fin s)"
  unfolding ended_def unwind_def keeps_def by (auto split: prod.splits)

subsection \<open>Queues that come to an end\<close>

fun rx_ends :: "rx_event list \<Rightarrow> bool" where
  "rx_ends [] = False"
| "rx_ends (Rx_data bs # q) = (bs = [] \<or> rx_ends q)"
| "rx_ends (Rx_error e # q) = (e \<noteq> EINTR \<or> rx_ends q)"

fun tx_ends :: "tx_event list \<Rightarrow> bool" where
  "tx_ends [] = False"
| "tx_ends (Tx_accept n # q) = (n = 0 \<or> tx_ends q)"
| "tx_ends (Tx_error e # q) = (e \<noteq> EINTR \<or> tx_ends q)"
| "tx_ends (Tx_sigpipe # q) = True"

fun poll_ends :: "poll_event list \<Rightarrow> bool" where
  "poll_ends [] = False"
| "poll_ends (Poll_error e # es) = (e \<noteq> EINTR \<or> poll_ends es)"
| "poll_ends (Poll_ready k s err # es) = (err \<or> poll_ends es)"

text \<open>The number of times the keyboard is reported to be readable.\<close>

fun key_events :: "poll_event list \<Rightarrow> nat" where
  "key_events [] = 0"
| "key_events (Poll_error e # es) = key_events es"
| "key_events (Poll_ready k s err # es) = of_bool k + key_events es"

text \<open>Both directions end, by a signal only if \<open>sig\<close> allows it, and \<open>k\<close> reads from the keyboard do not block.\<close>

definition fed :: "bool \<Rightarrow> nat \<Rightarrow> 'x machine_scheme \<Rightarrow> bool" where
  "fed sig k w \<longleftrightarrow> rx_ends (rx w) \<and> tx_ends (tx_script w) \<and> (Tx_sigpipe \<in> set (tx_script w) \<longrightarrow> sig) \<and> k \<le> length (keyboard w)"

lemma read_loop_ends:
  "rx_ends q \<Longrightarrow> read_exact_loop len dst q = (r, q') \<Longrightarrow> \<not> halted r \<and> (\<forall>x. r = Inr x \<longrightarrow> rx_ends q')"
proof (induction len dst q rule: read_exact_loop.induct)
  case (1 len dst q)
  show ?case
  proof (cases "length dst < len")
    case False
    with "1.prems" show ?thesis by (auto simp: read_exact_loop.simps [of len dst q])
  next
    case True
    have p: "0 < len - length dst" using True by simp
    obtain y q'' where ev: "recv_event (len - length dst) q = Some (y, q'')"
      using "1.prems"(1) by (cases "recv_event (len - length dst) q") (auto simp: recv_event_None)
    show ?thesis
    proof (cases y)
      case (Got bs)
      have "bs \<noteq> [] \<Longrightarrow> rx_ends q''" using ev "1.prems"(1) Got by (cases q rule: rx_ends.cases) (auto split: if_splits)
      with "1.IH"(1) [OF True ev refl Got] "1.prems"(2) ev Got True show ?thesis
        by (auto simp: read_exact_loop.simps [of len dst q] split: if_splits)
    next
      case (Errno e)
      have "e = EINTR \<Longrightarrow> rx_ends q''" using ev "1.prems"(1) Errno by (cases q rule: rx_ends.cases) (auto split: if_splits)
      with "1.IH"(2) [OF True ev refl Errno] "1.prems"(2) ev Errno True show ?thesis
        by (auto simp: read_exact_loop.simps [of len dst q] split: if_splits)
    qed
  qed
qed

lemma ends_read_exact [ends_intro]: "ends sig (fed sig k) (read_exact n)"
  unfolding ends_def
proof (intro allI impI)
  fix w :: "'x machine_scheme" assume "fed sig k w"
  then show "ended sig (fed sig k) (read_exact n w)"
    using read_loop_ends [of "rx w" n "[]"] by (auto simp: read_exact_def fed_def ended_def split: prod.splits)
qed

lemma write_loop_ends:
  "tx_ends q \<Longrightarrow> write_exact_loop src sent q = (r, sent', q') \<Longrightarrow>
     r \<noteq> Inl Blocked \<and> (r = Inl Killed \<longrightarrow> Tx_sigpipe \<in> set q) \<and> (\<forall>x. r = Inr x \<longrightarrow> tx_ends q' \<and> set q' \<subseteq> set q)"
proof (induction q arbitrary: src sent)
  case (Cons ev q)
  then show ?case by (cases "src = []"; cases ev) (auto simp: write_loop_simps split: if_splits)
qed simp

lemma ends_write_exact [ends_intro]: "ends sig (fed sig k) (write_exact src)"
  unfolding ends_def
proof (intro allI impI)
  fix w :: "'x machine_scheme" assume "fed sig k w"
  then show "ended sig (fed sig k) (write_exact src w)"
    using write_loop_ends [of "tx_script w" src "[]"] by (auto simp: write_exact_def fed_def ended_def split: prod.splits)
qed

lemma fed_frame [simp]:
  "fed sig k (w\<lparr>tx := d\<rparr>) = fed sig k w" "fed sig k (w\<lparr>cin := ls\<rparr>) = fed sig k w" "fed sig k (w\<lparr>console := out\<rparr>) = fed sig k w"
  "fed sig k (w\<lparr>files := fs\<rparr>) = fed sig k w" "fed sig k (w\<lparr>tty := t\<rparr>) = fed sig k w" "fed sig k (w\<lparr>tty_calls := n\<rparr>) = fed sig k w"
  "fed sig k (w\<lparr>random_calls := n\<rparr>) = fed sig k w" "fed sig k (w\<lparr>ctx_calls := n\<rparr>) = fed sig k w" "fed sig k (w\<lparr>ctx_live := l\<rparr>) = fed sig k w"
  "fed sig k (w\<lparr>closed_fds := fds\<rparr>) = fed sig k w"
  by (simp_all add: fed_def)

lemma fed_terminal [simp]: "fed sig k (w\<lparr>original_settings := t\<rparr>) = fed sig k w" "fed sig k (w\<lparr>raw_mode_active := b\<rparr>) = fed sig k w"
  by (simp_all add: fed_def)

lemma fed_transport [simp]:
  "fed sig k (w\<lparr>incoming_sequence := n\<rparr>) = fed sig k w" "fed sig k (w\<lparr>outgoing_sequence := n\<rparr>) = fed sig k w"
  "fed sig k (w\<lparr>outgoing_encryption_active := b\<rparr>) = fed sig k w" "fed sig k (w\<lparr>incoming_encryption_active := b\<rparr>) = fed sig k w"
  "fed sig k (w\<lparr>outgoing_cipher := c\<rparr>) = fed sig k w" "fed sig k (w\<lparr>incoming_cipher := c\<rparr>) = fed sig k w"
  "fed sig k (w\<lparr>outgoing_mac_key := key\<rparr>) = fed sig k w" "fed sig k (w\<lparr>incoming_mac_key := key\<rparr>) = fed sig k w"
  by (simp_all add: fed_def)

lemma fed_chan [simp]: "fed sig k (w\<lparr>chan := ch\<rparr>) = fed sig k w"
  by (simp add: fed_def)

subsection \<open>The operations\<close>

lemma ends_machine [ends_intro]:
  "ends sig (fed sig k) (print out)" "ends sig (fed sig k) (random_bytes lib n)" "ends sig (fed sig k) getline_cin"
  "ends sig (fed sig k) (tcgetattr os)" "ends sig (fed sig k) (tcsetattr os t)" "ends sig (fed sig k) (ctx_new lib)" "ends sig (fed sig k) (ctx_free c)"
  unfolding ctx_new_def ctx_free_def
  by (auto simp: ends_def comp_simps bindC_def split: list.splits option.splits)

lemma ends_packets [ends_intro]:
  "ends sig (fed sig k) (receive_packet lib)" "ends sig (fed sig k) (send_packet lib p)"
  unfolding receive_packet_def receive_plain_code receive_encrypted_code decrypt_incoming_bytes_def send_packet_def
    generate_padding_def encrypt_outgoing_packet_def Let_def
  by (intro ends_intro; simp)+

lemma ends_keys [ends_intro]:
  "ends sig (fed sig k) (enable_outgoing_encryption lib iv key mac)" "ends sig (fed sig k) (enable_incoming_encryption lib iv key mac)"
  unfolding enable_outgoing_encryption_def enable_incoming_encryption_def Let_def by (intro ends_intro; simp)+

lemma ends_terminal [ends_intro]:
  "ends sig (fed sig k) (read_hidden_input os prompt)" "ends sig (fed sig k) (enable_raw_mode os)" "ends sig (fed sig k) (restore os)"
  unfolding read_hidden_input_def enable_raw_mode_def restore_def Let_def by (intro ends_intro; simp)+

lemma ends_host_key [ends_intro]: "ends sig (fed sig k) (decide_host_key os lib path host alg key)"
  unfolding decide_host_key_def add_def Let_def by (intro ends_intro; simp)

lemma ends_key_exchange [ends_intro]: "ends sig (fed sig k) (perform_key_exchange os lib ident path host)"
  unfolding perform_key_exchange_def send_kexinit_def receive_kexinit_def create_client_kexinit_def
    create_curve25519_keypair_def Let_def
  by (intro ends_intro)

lemma ends_authenticate [ends_intro]: "ends sig (fed sig k) (authenticate_user os lib user)"
  unfolding authenticate_user_def by (intro ends_intro)

subsection \<open>The loops\<close>

lemma read_version_ended: "fed sig k w \<Longrightarrow> ended sig (fed sig k) (read_version_loop version w)"
proof (induction version w rule: read_version_loop.induct)
  case (1 version w)
  show ?case
  proof (subst read_version_loop.simps, rule ended_run_bind [OF ends_read_exact "1.prems"], rule ended_run_bind [OF ends_simple(4)])
    fix bs v byte v'
    assume r: "read_exact 1 w = (Inr bs, v)" "liftE (at_index bs 0) v = (Inr byte, v')" and i: "fed sig k v'"
    show "ended sig (fed sig k) (if byte = 10 then returnC version v'
        else read_version_loop (if byte \<noteq> 13 then version @ [char_of (unat byte)] else version) v')"
      using "1.IH" [OF r] i by (cases "byte = 10") (simp_all add: comp_simps)
  qed
qed

lemma ends_read_version [ends_intro]: "ends sig (fed sig k) (read_version_loop version)"
  by (simp add: ends_def read_version_ended)

lemma ends_identification [ends_intro]: "ends sig (fed sig k) (exchange_identification cv)"
  unfolding exchange_identification_def read_version_def Let_def by (intro ends_intro)

lemma ends_responses [ends_intro]:
  "ends sig (fed sig k) (handle_global_request lib p)" "ends sig (fed sig k) (open_response lib p)" "ends sig (fed sig k) (request_response lib name p)"
  unfolding open_response_def request_response_def handle_global_request_def by (intro ends_intro; simp)+

lemma open_loop_ended: "fed sig k w \<Longrightarrow> ended sig (fed sig k) (open_loop lib w)"
proof (induction lib w rule: open_loop.induct)
  case (1 lib w)
  show ?case
  proof (cases "is_open (chan w)")
    case True
    with "1.prems" show ?thesis by (simp add: open_loop.simps [of lib w])
  next
    case False
    have "ended sig (fed sig k) (bindC (receive_packet lib) (\<lambda>response. bindC (open_response lib response) (\<lambda>_ v. open_loop lib v)) w)"
      by (rule ended_run_bind [OF ends_packets(1) "1.prems"], rule ended_run_bind [OF ends_responses(2)]) (auto intro: "1.IH" [OF False])
    with False show ?thesis by (simp add: open_loop.simps [of lib w])
  qed
qed

lemma ends_open_loop [ends_intro]: "ends sig (fed sig k) (open_loop lib)"
  by (simp add: ends_def open_loop_ended)

lemma wait_ended: "fed sig k w \<Longrightarrow> ended sig (fed sig k) (wait_for_channel_request_result lib name w)"
proof (induction lib name w rule: wait_for_channel_request_result.induct)
  case (1 lib name w)
  show ?case
    by (subst wait_for_channel_request_result.simps, rule ended_run_bind [OF ends_packets(1) "1.prems"],
        rule ended_run_bind [OF ends_responses(3)]) (auto intro: "1.IH")
qed

lemma ends_wait [ends_intro]: "ends sig (fed sig k) (wait_for_channel_request_result lib name)"
  by (simp add: ends_def wait_ended)

lemma ends_setup [ends_intro]:
  "ends sig (fed sig k) (open_session_channel lib)" "ends sig (fed sig k) (request_pty lib info)" "ends sig (fed sig k) (request_shell lib)"
  unfolding open_session_channel_def request_pty_def request_shell_def by (intro ends_intro)+

text \<open>A keyboard event uses up one of the reads that are known not to block.\<close>

lemma keyboard_ends:
  assumes "fed sig (Suc k) w"
  shows "ended sig (fed sig k) (keyboard_input lib w)"
proof -
  have r: "ended sig (fed sig k) (read_chunk n w)" for n
    using assms by (cases "keyboard w" rule: rx_ends.cases) (auto simp: read_chunk_def fed_def)
  show ?thesis
    unfolding keyboard_input_code Let_def run_bindC_Inr [OF run_getsC]
    by (rule ended_bind, rule r) (intro ends_intro; simp)
qed

lemma ends_socket_input [ends_intro]: "ends sig (fed sig k) (socket_input lib)"
  unfolding socket_input_def dispatch_def replenish_window_def finish_close_def Let_def by (intro ends_intro; simp)

lemma fed_less: "fed sig k w \<Longrightarrow> j \<le> k \<Longrightarrow> fed sig j w"
  by (simp add: fed_def)

lemma iteration_ends:
  assumes "fed sig (key_events (event # events)) w" "is_open (chan w)"
  shows "ended sig (fed sig (key_events events)) (shell_iteration lib event w)"
    and "poll_ends [event] \<Longrightarrow> shell_iteration lib event w = (Inr (), w') \<Longrightarrow> \<not> is_open (chan w')"
proof -
  show "ended sig (fed sig (key_events events)) (shell_iteration lib event w)"
  proof (cases event)
    case (Poll_error e)
    with assms(1) show ?thesis by (simp add: shell_iteration_def comp_simps)
  next
    case (Poll_ready k s err)
    have "ended sig (fed sig (key_events events)) ((if k \<and> 0 < remote_window (chan w) then keyboard_input lib else returnC ()) w)"
      using assms(1) Poll_ready keyboard_ends [of sig "key_events events" w lib]
      by (cases k) (auto simp: comp_simps intro: fed_less)
    then show ?thesis
      unfolding shell_iteration_def Let_def Poll_ready poll_event.case
      by (subst run_bindC_Inr [OF run_getsC], rule ended_bind) (intro ends_intro)
  qed
  show "poll_ends [event] \<Longrightarrow> shell_iteration lib event w = (Inr (), w') \<Longrightarrow> \<not> is_open (chan w')"
    by (cases event) (auto simp: shell_iteration_def result_iff Let_def split: if_splits)
qed

lemma shell_loop_ends:
  "fed sig (key_events events) w \<Longrightarrow> poll_ends events \<Longrightarrow> ended sig (fed sig 0) (shell_loop lib events w)"
proof (induction events arbitrary: w)
  case (Cons event events)
  show ?case
  proof (cases "is_open (chan w)")
    case False
    with Cons.prems(1) show ?thesis by (auto intro: fed_less)
  next
    case True
    note it = iteration_ends [OF Cons.prems(1) True, of lib]
    show ?thesis
    proof (cases "shell_iteration lib event w")
      case (Pair res v)
      show ?thesis
      proof (cases res)
        case (Inl e)
        with True Pair it(1) show ?thesis by (cases e) (simp_all add: comp_simps)
      next
        case (Inr u)
        have v: "fed sig (key_events events) v" using it(1) Pair Inr by simp
        have "ended sig (fed sig 0) (shell_loop lib events v)"
        proof (cases "poll_ends [event]")
          case True
          then have "\<not> is_open (chan v)" using it(2) [of v] Pair Inr by simp
          with v show ?thesis by (cases events) (auto intro: fed_less)
        next
          case False
          then have "poll_ends events" using Cons.prems(2) by (cases event) auto
          with Cons.IH [OF v] show ?thesis .
        qed
        with True Pair Inr show ?thesis by (simp add: comp_simps)
      qed
    qed
  qed
qed simp

subsection \<open>The program\<close>

lemma session_ended:
  assumes "fed sig (key_events events) w" "poll_ends events"
  shows "ended sig (fed sig 0) (run_connection_session os lib events w)"
proof -
  have shell: "ended sig (fed sig 0) (run_interactive_shell os lib events v)" if "fed sig (key_events events) v" for v
    unfolding run_interactive_shell_def
    by (rule ended_run_bind [OF ends_terminal(2) that], rule ended_bind, rule shell_loop_ends)
       (intro assms(2) ends_intro | assumption)+
  show ?thesis
    unfolding run_connection_session_def Let_def
    by (rule ended_run_bind [where I = "fed sig (key_events events)"], rule ends_modifyC, simp, rule assms(1),
        rule ended_run_bind [where I = "fed sig (key_events events)", OF ends_setup(1)], assumption,
        rule ended_run_bind [where I = "fed sig (key_events events)", OF ends_setup(2)], assumption,
        rule ended_run_bind [where I = "fed sig (key_events events)", OF ends_setup(3)], assumption,
        rule ended_bind, rule shell, assumption, intro ends_intro)
qed

lemma keeps_fed_destroy:
  "keeps (fed sig k) (destroy_terminal os)" "keeps (fed sig k) destroy_transport" "keeps (fed sig k) (destroy_socket sock)"
  by (auto simp: keeps_def destroy_terminal_def destroy_transport_def destroy_socket_def close_def ctx_free_def bindC_def comp_simps
      split: option.splits)

lemma terminal_scope_ended:
  assumes "fed sig (key_events events) w" "poll_ends events"
  shows "ended sig (fed sig 0) (terminal_scope os lib events user w)"
  unfolding terminal_scope_def Terminal_def
  by (rule ended_run_bind [where I = "fed sig (key_events events)"], rule ends_modifyC, simp, rule assms(1),
      rule ended_unwind, rule ended_run_bind [where I = "fed sig (key_events events)", OF ends_authenticate], assumption,
      rule session_ended, assumption, rule assms(2), rule keeps_fed_destroy)

lemma transport_scope_ended:
  assumes "fed sig (key_events events) w" "poll_ends events"
  shows "ended sig (fed sig 0) (transport_scope os lib events config path ident w)"
  unfolding transport_scope_def Transport_def
  by (rule ended_run_bind [where I = "fed sig (key_events events)"], rule ends_modifyC, simp, rule assms(1),
      rule ended_unwind, rule ended_run_bind [where I = "fed sig (key_events events)", OF ends_key_exchange], assumption,
      rule terminal_scope_ended, assumption, rule assms(2), rule keeps_fed_destroy)

lemma ends_Socket [ends_intro]: "ends sig (fed sig k) (Socket os h p)"
  unfolding Socket_def close_def Let_def by (intro ends_intro; simp)

lemma socket_scope_ended:
  assumes "fed sig (key_events events) w" "poll_ends events"
  shows "ended sig (fed sig 0) (socket_scope os lib events config path w)"
  unfolding socket_scope_def
  by (rule ended_run_bind [where I = "fed sig (key_events events)", OF ends_Socket assms(1)],
      rule ended_unwind, rule ended_run_bind [where I = "fed sig (key_events events)", OF ends_identification], assumption,
      rule transport_scope_ended, assumption, rule assms(2), rule keeps_fed_destroy)

lemma main_body_ended:
  assumes "fed sig (key_events events) w" "poll_ends events"
  shows "ended sig (fed sig 0) (main_body os lib events argv w)"
  using socket_scope_ended [OF assms]
  by (cases "parse_client_config argv") (simp_all add: main_body_scopes comp_simps split: option.split)

text \<open>
  C4: The program ends with its connection and tells the outcome. If the server's data ends some time, by end of file or an error, writing
  fails some time, \<open>poll\<close> some time reports an error or the end of the connection, and the keyboard is readable whenever \<open>poll\<close> says so,
  then \<open>main\<close> does not wait for ever, whatever bytes the server sends before: it returns 0, or it returns 1 with an error message as its last
  output, or, only if a write meets a broken connection and raises \<open>SIGPIPE\<close>, which the program does not ignore, the signal kills it.
\<close>

theorem main_terminates:
  assumes "rx_ends (rx w)" and "tx_ends (tx_script w)" and "poll_ends events" and "key_events events \<le> length (keyboard w)"
  shows "\<exists>w'. main os lib events argv w = (Inr 0, w') \<or>
    (main os lib events argv w = (Inr 1, w') \<and> (\<exists>out msg. console w' = out @ [Cerr (''Error: '' @ msg @ [CHR ''\<newline>''])])) \<or>
    (main os lib events argv w = (Inl Killed, w') \<and> Tx_sigpipe \<in> set (tx_script w))"
proof -
  obtain r v where b: "main_body os lib events argv w = (r, v)" by fastforce
  have "fed (Tx_sigpipe \<in> set (tx_script w)) (key_events events) w" using assms by (simp add: fed_def)
  from main_body_ended [OF this assms(3), of os lib argv] b
  have n: "r \<noteq> Inl Blocked" "r = Inl Killed \<Longrightarrow> Tx_sigpipe \<in> set (tx_script w)" by (auto simp: ended_def)
  have m: "r \<noteq> Inl (Raised Memory_error)" using safeC_main_body [of os lib events argv] b by (auto simp: safeC_def)
  show ?thesis
  proof (cases r)
    case (Inr u)
    with b show ?thesis by (simp add: main_def)
  next
    case (Inl e)
    show ?thesis
    proof (cases e)
      case (Raised x)
      with m Inl have "main os lib events argv w =
          (Inr 1, v\<lparr>console := console v @ [Cerr (''Error: '' @ what os x @ [CHR ''\<newline>''])]\<rparr>)"
        using b by (cases x) (simp_all add: main_def comp_simps)
      then show ?thesis by auto
    next
      case Killed
      with b n Inl show ?thesis by (simp add: main_def)
    qed (use n Inl in simp)
  qed
qed

theorem main_terminates_witness:
  "\<exists>w w' :: nat session. rx w = [Rx_data [83, 83, 72], Rx_error EINTR, Rx_data []] \<and> tx_script w = [Tx_accept 0] \<and>
     (main willing_posix sample_crypto [Poll_ready False True True] [''ssh'', ''u@h''] w = (Inr 0, w') \<or>
      (main willing_posix sample_crypto [Poll_ready False True True] [''ssh'', ''u@h''] w = (Inr 1, w') \<and>
       (\<exists>out msg. console w' = out @ [Cerr (''Error: '' @ msg @ [CHR ''\<newline>''])])))"
proof -
  let ?w = "sample_start [] 0\<lparr>rx := [Rx_data [83, 83, 72], Rx_error EINTR, Rx_data []], tx_script := [Tx_accept 0]\<rparr>"
  have "rx_ends (rx ?w)" "tx_ends (tx_script ?w)" "poll_ends [Poll_ready False True True]"
    "key_events [Poll_ready False True True] \<le> length (keyboard ?w)" by simp_all
  note t = main_terminates [OF this, of willing_posix sample_crypto "[''ssh'', ''u@h'']"]
  have w: "rx ?w = [Rx_data [83, 83, 72], Rx_error EINTR, Rx_data []]" "tx_script ?w = [Tx_accept 0]" by simp_all
  then have "Tx_sigpipe \<notin> set (tx_script ?w)" by simp
  with t w show ?thesis by blast
qed

end
