(* ===== verification/Spec2Isabelle.thy ===== *)
theory Spec2Isabelle
  imports SSH_Termination
begin

text \<open>
  \<^bold>\<open>A verification library for the SSH client under \<open>src/src\<close>\<close>

  \<^bold>\<open>The program.\<close> A command-line SSH 2.0 client with one algorithm suite (curve25519-sha256, ssh-ed25519, aes256-ctr,
  hmac-sha2-256), password login and one interactive shell. \<open>main.cpp\<close> drives the parts in this order: command line;
  \<open>socket\<close> (TCP connection with exact-length reads and writes); exchange of identification lines; \<open>transport\<close> (packets, padding,
  encryption, authentication, sequence numbers); \<open>kex\<close> (negotiation, Curve25519, exchange hash, signature, key derivation) with
  \<open>known_hosts\<close> (trust on first use); \<open>auth\<close> (login) with \<open>terminal\<close> (hidden input); \<open>connection\<close> (messages and flow control of the
  channel) with \<open>terminal\<close> (raw mode) in the poll loop of the shell. \<open>common\<close> has the wire encoding and the message numbers.

  \<^bold>\<open>The model.\<close> A function that only computes is a HOL function into \<open>result\<close>, whose left side is the thrown exception. Code
  with effects is a \<open>comp\<close>, a function from a state to a result and a state, written with \<open>bindC\<close> in the order of the statements
  (\<open>SSH_Prelude\<close>). A stop is an exception, or \<open>Blocked\<close> where the program would wait for the kernel for ever, or \<open>Killed\<close> where a
  \<open>write\<close> on a broken connection raises \<open>SIGPIPE\<close>, which the program does not ignore: no handler and no destructor runs. An
  access out of bounds, undefined in C++, raises \<open>Memory_error\<close>, which no handler catches: reading beyond a buffer
  (\<open>at_index\<close>, \<open>copy_n\<close>) as well as copying or reading more into an array or a buffer than it holds (\<open>copy_array\<close>, \<open>read_buffer\<close>,
  \<open>read_keyboard\<close>). The state is a record that each component extends
  with its own fields: \<open>machine\<close> (the outside world), \<open>terminal\<close>, \<open>transport\<close>, \<open>session\<close>. A scope with a destructor is \<open>unwind\<close>.
  Bytes and fixed-width integers are words and wrap around; \<open>std::size_t\<close> is \<open>nat\<close> with the subtraction \<open>size_minus\<close>, which wraps around at \<open>2^64\<close>.

  The operating system is the record \<open>posix\<close> of functions and the queues of \<open>machine\<close>: what successive calls of \<open>read\<close> and
  \<open>write\<close> on the socket and the keyboard return, cut into pieces and interrupted in any way. The console holds what the user sees, the lines that the terminal echoes included. libsodium and OpenSSL are the record
  \<open>crypto\<close>. Both are parameters; what a property needs of them is a named hypothesis (\<open>fills_buffers\<close>, \<open>mac_documented\<close>,
  \<open>ctr_documented\<close>, \<open>base64_documented\<close>, \<open>disk_reliable\<close>, \<open>settable\<close>, \<open>working_terminal\<close>), which the witnesses discharge for
  \<open>sample_crypto\<close> and \<open>willing_posix\<close>. Nothing is assumed of the cryptographic strength; where a property rests on it, the
  statement says so (\<open>... or a SHA-256 collision\<close>).

  \<^bold>\<open>The theories.\<close>
  \<^item> \<open>SSH_Prelude\<close>: the computations, their symbolic execution (\<open>comp_simps\<close>, \<open>result_iff\<close>), a Hoare logic, frame rules (\<open>keeps\<close>),
    scopes (\<open>settles\<close>), memory safety (\<open>safe\<close>, \<open>safeC\<close>), byte lists and words.
  \<^item> \<open>SSH_Encoding\<close> (\<open>common/ssh_encoding\<close>, \<open>common/ssh_messages\<close>): integers and strings on the wire. Round trips; the readers accept
    exactly a complete field. Locale \<open>field_codec\<close> states the contract that the message layers use.
  \<^item> \<open>SSH_Machine\<close>: the outside world, the documented behaviour of the libraries and the sample instances.
  \<^item> \<open>SSH_Socket\<close> (\<open>socket\<close>): the loops deliver the stream however the kernel cuts it (locale \<open>byte_stream\<close>).
  \<^item> \<open>SSH_Terminal\<close> (\<open>terminal\<close>): hidden input is not echoed, and it and raw mode restore the settings (locale \<open>mode_guard\<close>).
  \<^item> \<open>SSH_Transport\<close> (\<open>transport\<close>): the exact set of accepted packets, in the clear and encrypted; sent packets are received; padding;
    memory safety; ownership of cipher contexts; sequence numbers; what a keyed sender puts on the wire (\<open>sealed\<close>, \<open>secured\<close>). Locale \<open>packet_link\<close> is the contract of an ordered packet channel, and
    \<open>packet_frame\<close> carries invariants through packet operations.
  \<^item> \<open>SSH_Kex\<close> (\<open>kex\<close>): parsers are exact, negotiation is fixed, hash and key derivation bind their inputs.
  \<^item> \<open>SSH_Known_Hosts\<close> (\<open>known_hosts\<close>): lookup by the first relevant line; stored keys are found and stay if the last line of
    the file was complete (locale \<open>trust_store\<close>).
  \<^item> \<open>SSH_Auth\<close> (\<open>auth\<close>): request formats and exact responses.
  \<^item> \<open>SSH_Connection\<close> (\<open>connection\<close>): exact parsers, the windows refine a credit account (locale \<open>credit_account\<close>), two mirrored ends agree.
  \<^item> \<open>SSH_Script\<close>: a server whose packets are queued, for runs that complete.
  \<^item> \<open>SSH_Client\<close>, \<open>SSH_Client_Script\<close> (\<open>main.cpp\<close>, configuration to login): the command line, the identification exchange, and what
    a completed key exchange has established (locale \<open>handshake_frame\<close>).
  \<^item> \<open>SSH_Session\<close>, \<open>SSH_Session_Script\<close> (\<open>main.cpp\<close>, channel and shell): the invariant of the shell loop over its reachable states
    (\<open>shell_reachable\<close>), keyboard input within the window, delivery of the output (locale \<open>session_frame\<close>).
  \<^item> \<open>SSH_Main\<close>, \<open>SSH_Run\<close>, \<open>SSH_Termination\<close> (\<open>main.cpp\<close>, \<open>main\<close>): memory safety, release of all resources, no password before trust and
    nothing but sealed packets after it, a complete run, clean failure at the start, and that every run ends with its connection.

  \<^bold>\<open>Loops.\<close> No function has fuel. The loops over the socket recurse on the receive queue (the measure \<open>rx_size\<close>), those over received
  packets end since a packet consumes part of it, and the poll loop recurses on the list of what \<open>poll\<close> reports. A queue that runs
  out means that the program waits. \<open>main_terminates\<close> shows that this, and \<open>SIGPIPE\<close>, are the only ways not to return.

  \<^bold>\<open>Bounds.\<close> The properties that run the client against a scripted server let one \<open>write\<close> take up to 35032 bytes (the largest packet
  with its code), user name and password have at most 1000 bytes and the list of methods 30000, so that each message fits one packet;
  server output has at most 32768 bytes in a packet, the limit that the client announces, in any number of packets.

  \<^bold>\<open>Not modelled.\<close> The README and the Makefile. Memory allocation does not fail and \<open>std::cout\<close> accepts all output. Time is not
  modelled, so neither is a timing side channel, and a line of standard input is typed when it is asked for. Library functions and
  system calls write only within the buffers that they are given. No signal but \<open>SIGPIPE\<close> on the socket is delivered; writing to
  standard output raises none. The copy operations of the classes are deleted in the source
  and have no definitions. \<open>poll\<close> reports what the environment says, one event for each call.
\<close>

end
